(* ===== verification/Prelude.thy ===== *)
theory Prelude
  imports Complex_Main "HOL-Library.Code_Target_Nat"
begin

text \<open>
  What the components of the development share: the errors of Python as values, the result type
  \<open>py_error + 'a\<close> with its sequencing combinators, Python dictionaries as association lists
  that keep insertion order, the interface of a dictionary as a locale, and generic lemmas on
  lists, sums and options.

  An operation of the source that may raise returns \<open>Inl e\<close> when it raises \<open>e\<close> and
  \<open>Inr v\<close> when it returns \<open>v\<close>; \<open>rbind\<close> is sequencing, the exception of the first
  statement skipping the second, and \<open>rmap_list\<close> is a comprehension whose body may raise.
\<close>

section \<open>Collections of rewrite rules\<close>

named_theorems py_simps \<open>evaluation of the Python primitives of the prelude\<close>
named_theorems dict_simps \<open>lookup and key rules of Python dictionaries\<close>
named_theorems num_simps \<open>rounding, binary64 and decimal arithmetic\<close>

section \<open>Errors and results\<close>

datatype py_error =
    ValueError string
  | TypeError string
  | AttributeError string
  | KeyError string
  | RuntimeError string
  | OverflowError
  | InvalidOperation
  | AssertionError

type_synonym 'a res = "py_error + 'a"

definition rbind :: "'e + 'a \<Rightarrow> ('a \<Rightarrow> 'e + 'b) \<Rightarrow> 'e + 'b" where
  "rbind r f = (case r of Inl e \<Rightarrow> Inl e | Inr v \<Rightarrow> f v)"

fun rmap_list :: "('a \<Rightarrow> 'e + 'b) \<Rightarrow> 'a list \<Rightarrow> 'e + 'b list" where
  "rmap_list f [] = Inr []"
| "rmap_list f (x # xs) = rbind (f x) (\<lambda>y. rbind (rmap_list f xs) (\<lambda>ys. Inr (y # ys)))"

text \<open>A guard of the form \<open>if c: raise e\<close> in front of the rest of a function.\<close>

abbreviation raise_if :: "bool \<Rightarrow> 'e \<Rightarrow> 'e + 'a \<Rightarrow> 'e + 'a" where
  "raise_if c e rest \<equiv> (if c then Inl e else rest)"

text \<open>\<open>enumerate(xs, start)\<close> of Python.\<close>

definition enum_from :: "nat \<Rightarrow> 'a list \<Rightarrow> (nat \<times> 'a) list" where
  "enum_from n xs = zip [n..<n + length xs] xs"

section \<open>Dictionaries\<close>

type_synonym 'v dict = "(string \<times> 'v) list"

definition dict_get :: "'v dict \<Rightarrow> string \<Rightarrow> 'v option" where
  "dict_get d k = map_of d k"

fun dict_set :: "'v dict \<Rightarrow> string \<Rightarrow> 'v \<Rightarrow> 'v dict" where
  "dict_set [] k v = [(k, v)]"
| "dict_set ((k', v') # d) k v = (if k' = k then (k, v) # d else (k', v') # dict_set d k v)"

definition dict_keys :: "'v dict \<Rightarrow> string list" where
  "dict_keys d = map fst d"

fun dict_update :: "'v dict \<Rightarrow> 'v dict \<Rightarrow> 'v dict" where
  "dict_update d [] = d"
| "dict_update d ((k, v) # es) = dict_update (dict_set d k v) es"

text \<open>\<open>d.pop(k, None)\<close> returns the entry and the dictionary without it.\<close>

definition dict_del :: "'v dict \<Rightarrow> string \<Rightarrow> 'v dict" where
  "dict_del d k = filter (\<lambda>e. fst e \<noteq> k) d"

definition dict_ok :: "'v dict \<Rightarrow> bool" where
  "dict_ok d = distinct (dict_keys d)"

lemma rbind_Inl [simp]: "rbind (Inl e) f = Inl e"
  and rbind_Inr [simp]: "rbind (Inr v) f = f v"
  by (simp_all add: rbind_def)

lemma rbind_eq_Inr [simp]: "rbind r f = Inr w \<longleftrightarrow> (\<exists>v. r = Inr v \<and> f v = Inr w)"
  by (cases r) auto

lemma rbind_eq_Inl: "rbind r f = Inl e \<longleftrightarrow> r = Inl e \<or> (\<exists>v. r = Inr v \<and> f v = Inl e)"
  by (cases r) auto

lemma raise_if_Inr [simp]: "(if c then Inl e else r) = Inr v \<longleftrightarrow> \<not> c \<and> r = Inr v"
  by auto

lemma rmap_list_Inr:
  "rmap_list f xs = Inr ys \<longleftrightarrow> length xs = length ys \<and> (\<forall>i < length xs. f (xs ! i) = Inr (ys ! i))"
proof (induction xs arbitrary: ys)
  case Nil
  then show ?case by auto
next
  case (Cons x xs)
  show ?case
  proof (cases ys)
    case Nil
    then show ?thesis by simp
  next
    case (Cons z zs)
    then show ?thesis
      using Cons.IH by (auto simp: nth_Cons All_less_Suc2 split: nat.splits)
  qed
qed

lemma rbind_cong [fundef_cong]:
  "r = r' \<Longrightarrow> (\<And>v. r' = Inr v \<Longrightarrow> f v = f' v) \<Longrightarrow> rbind r f = rbind r' f'"
  by (cases r) auto

lemma rmap_list_cong [fundef_cong]:
  "xs = ys \<Longrightarrow> (\<And>x. x \<in> set ys \<Longrightarrow> f x = g x) \<Longrightarrow> rmap_list f xs = rmap_list g ys"
  by (induction xs arbitrary: ys) auto

lemma rmap_list_in_set:
  assumes "rmap_list f xs = Inr ys" and "y \<in> set ys"
  obtains x where "x \<in> set xs" and "f x = Inr y"
  using assms unfolding rmap_list_Inr in_set_conv_nth by (metis nth_mem)

lemma rmap_list_defined: "rmap_list f xs = Inr ys \<Longrightarrow> x \<in> set xs \<Longrightarrow> \<exists>y. f x = Inr y"
  by (induction xs arbitrary: ys) auto

lemma rmap_list_Inr_append:
  "rmap_list f (xs @ ys) = rbind (rmap_list f xs) (\<lambda>a. rbind (rmap_list f ys) (\<lambda>b. Inr (a @ b)))"
proof (induction xs)
  case Nil
  show ?case by (cases "rmap_list f ys") auto
next
  case (Cons x xs)
  then show ?case
    by (cases "f x"; cases "rmap_list f xs"; cases "rmap_list f ys") auto
qed

lemma length_enum_from [simp]: "length (enum_from n xs) = length xs"
  by (simp add: enum_from_def)

lemma enum_from_Nil [simp]: "enum_from n [] = []"
  by (simp add: enum_from_def)

lemma enum_from_Cons [simp]: "enum_from n (x # xs) = (n, x) # enum_from (Suc n) xs"
  by (simp add: enum_from_def upt_conv_Cons del: upt_Suc)

lemma map_snd_enum_from [simp]: "map snd (enum_from n xs) = xs"
  by (simp add: enum_from_def)

lemma map_fst_enum_from [simp]: "map fst (enum_from n xs) = [n..<n + length xs]"
  by (simp add: enum_from_def)

lemma nth_enum_from [simp]: "i < length xs \<Longrightarrow> enum_from n xs ! i = (n + i, xs ! i)"
  by (simp add: enum_from_def)

lemma set_enum_from: "set (enum_from n xs) = {(n + i, xs ! i) | i. i < length xs}"
  unfolding set_conv_nth [of "enum_from n xs"] length_enum_from by (metis nth_enum_from)

section \<open>The interface of a dictionary\<close>

text \<open>
  What a client of \<open>dict\<close> relies on: a lookup after a store, and that a store adds at most
  the stored key. The client lemmas are about \<open>update\<close>, which stores a list of entries.
\<close>

locale dictionary =
  fixes look :: "'d \<Rightarrow> 'k \<Rightarrow> 'v option"
    and put :: "'d \<Rightarrow> 'k \<Rightarrow> 'v \<Rightarrow> 'd"
    and inv :: "'d \<Rightarrow> bool"
  assumes look_put: "look (put d k v) k' = (if k' = k then Some v else look d k')"
    and inv_put: "inv d \<Longrightarrow> inv (put d k v)"
begin

lemma look_fold:
  "look (fold (\<lambda>(k, v) d. put d k v) es d) k = (case map_of (rev es) k of None \<Rightarrow> look d k | Some v \<Rightarrow> Some v)"
proof (induction es arbitrary: d)
  case Nil
  show ?case by simp
next
  case (Cons e es)
  obtain a b where e: "e = (a, b)" by (cases e)
  show ?case
    using Cons.IH [of "put d a b"] by (auto simp: e look_put map_add_def split: option.splits)
qed

lemma inv_fold: "inv d \<Longrightarrow> inv (fold (\<lambda>(k, v) d. put d k v) es d)"
  by (induction es arbitrary: d) (auto intro: inv_put)

lemma look_put_same [simp]: "look (put d k v) k = Some v"
  by (simp add: look_put)

lemma look_put_other [simp]: "k' \<noteq> k \<Longrightarrow> look (put d k v) k' = look d k'"
  by (simp add: look_put)

end

lemma dict_keys_set: "set (dict_keys (dict_set d k v)) = insert k (set (dict_keys d))"
  by (induction d k v rule: dict_set.induct) (auto simp: dict_keys_def)

lemma dict_get_set: "dict_get (dict_set d k v) k' = (if k' = k then Some v else dict_get d k')"
  by (induction d k v rule: dict_set.induct) (auto simp: dict_get_def)

lemma dict_ok_set: "dict_ok d \<Longrightarrow> dict_ok (dict_set d k v)"
proof (induction d k v rule: dict_set.induct)
  case (1 k v)
  then show ?case by (simp add: dict_ok_def dict_keys_def)
next
  case (2 k' v' d k v)
  then show ?case
    using dict_keys_set [of d k v] by (auto simp: dict_ok_def dict_keys_def)
qed

interpretation pydict: dictionary dict_get dict_set dict_ok
  by unfold_locales (simp_all add: dict_get_set dict_ok_set)

declare dict_get_set [dict_simps] dict_keys_set [dict_simps]

lemma dict_update_fold: "dict_update d es = fold (\<lambda>(k, v) d. dict_set d k v) es d"
  by (induction d es rule: dict_update.induct) auto

lemma dict_get_update [dict_simps]:
  "dict_get (dict_update d es) k =
     (case map_of (rev es) k of None \<Rightarrow> dict_get d k | Some v \<Rightarrow> Some v)"
  unfolding dict_update_fold by (rule pydict.look_fold)

lemma dict_ok_update: "dict_ok d \<Longrightarrow> dict_ok (dict_update d es)"
  unfolding dict_update_fold by (rule pydict.inv_fold)

lemma dict_keys_update: "set (dict_keys (dict_update d es)) = set (dict_keys d) \<union> fst ` set es"
  by (induction d es rule: dict_update.induct) (auto simp: dict_keys_set)

lemma dict_get_del [dict_simps]: "dict_get (dict_del d k) k' = (if k' = k then None else dict_get d k')"
  unfolding dict_get_def dict_del_def by (induction d) auto

lemma dict_ok_del: "dict_ok d \<Longrightarrow> dict_ok (dict_del d k)"
  unfolding dict_ok_def dict_keys_def dict_del_def by (induction d) auto

lemma length_dict_del:
  "dict_ok d \<Longrightarrow> length (dict_del d k) = (if dict_get d k = None then length d else length d - 1)"
proof (induction d)
  case (Cons e d)
  have rest: "fst e \<notin> set (map fst d) \<Longrightarrow> filter (\<lambda>x. fst x \<noteq> fst e) d = d"
    by (metis (mono_tags, lifting) filter_True image_eqI list.set_map)
  have "length d \<noteq> 0" if "dict_get d k \<noteq> None" using that by (auto simp: dict_get_def)
  then show ?case
    using Cons rest by (auto simp: dict_ok_def dict_keys_def dict_del_def dict_get_def)
qed (simp add: dict_del_def dict_get_def)

lemma length_dict_set:
  "length (dict_set d k v) = (if dict_get d k = None then Suc (length d) else length d)"
  by (induction d k v rule: dict_set.induct) (auto simp: dict_get_def)

lemma dict_set_append: "dict_get d k = None \<Longrightarrow> dict_set d k v = d @ [(k, v)]"
  by (induction d k v rule: dict_set.induct) (auto simp: dict_get_def split: if_splits)

lemma dict_get_None_iff: "dict_get d k = None \<longleftrightarrow> k \<notin> set (dict_keys d)"
  by (simp add: dict_get_def dict_keys_def map_of_eq_None_iff)

section \<open>Reachable states and invariants\<close>

text \<open>
  A component that several tasks use concurrently is a step relation; its interface to the proofs is
  the locale \<open>invariant_system\<close>, whose instances discharge the two obligations of an invariant.
\<close>

inductive reachable :: "('s \<Rightarrow> bool) \<Rightarrow> ('s \<Rightarrow> 's \<Rightarrow> bool) \<Rightarrow> 's \<Rightarrow> bool"
  for init :: "'s \<Rightarrow> bool" and step :: "'s \<Rightarrow> 's \<Rightarrow> bool" where
  reach_init: "init s \<Longrightarrow> reachable init step s"
| reach_step: "reachable init step s \<Longrightarrow> step s t \<Longrightarrow> reachable init step t"

lemma reachable_steps: "reachable init step s \<Longrightarrow> step\<^sup>*\<^sup>* s t \<Longrightarrow> reachable init step t"
  by (rotate_tac, induction rule: rtranclp_induct) (auto intro: reach_step)

locale invariant_system =
  fixes init :: "'s \<Rightarrow> bool" and step :: "'s \<Rightarrow> 's \<Rightarrow> bool" and I :: "'s \<Rightarrow> bool"
  assumes inv_init: "init s \<Longrightarrow> I s"
    and inv_step: "I s \<Longrightarrow> step s t \<Longrightarrow> I t"
begin

lemma inv_reachable: "reachable init step s \<Longrightarrow> I s"
  by (induction rule: reachable.induct) (blast intro: inv_init inv_step)+

lemma inv_steps: "I s \<Longrightarrow> step\<^sup>*\<^sup>* s t \<Longrightarrow> I t"
  by (rotate_tac, induction rule: rtranclp_induct) (blast intro: inv_step)+

end

section \<open>Lists\<close>

lemma sum_list_mono_filter_nat: "sum_list (map f (filter P xs)) \<le> sum_list (map (f :: 'a \<Rightarrow> nat) xs)"
  by (induction xs) auto

lemma last_snoc_map: "xs \<noteq> [] \<Longrightarrow> last (map f xs) = f (last xs)"
  by (induction xs) auto

end
