(* ===== verification/PyNum.thy ===== *)
theory PyNum
  imports Prelude
begin

text \<open>
  Python's numbers. An \<open>int\<close> is HOL's \<open>int\<close>. A finite \<open>float\<close> is a rational, and every
  operation on floats rounds its exact result to 53 significant bits, ties to even (\<open>f64\<close>), so
  the difference between the program's arithmetic and exact arithmetic is part of the model. The
  exponent range is unbounded: overflow to infinity and gradual underflow are not modelled, except
  that \<open>float(int)\<close> raises OverflowError where Python does. The values that a JSON document can
  name besides finite floats (the infinities and NaN) are the other constructors of \<open>pyfloat\<close>.
  \<open>round_sig\<close> is shared with the decimal arithmetic of theory \<open>Pricing\<close>, where the base is 10.
\<close>

section \<open>Rounding\<close>

text \<open>Python's \<open>round\<close> on a number, and the rounding of both IEEE 754 and \<open>decimal\<close>.\<close>

definition round_half_even :: "rat \<Rightarrow> int" where
  "round_half_even x =
     (let f = \<lfloor>x\<rfloor>; d = x - of_int f
      in if d < 1 / 2 then f else if 1 / 2 < d then f + 1 else if even f then f else f + 1)"

fun ilog :: "nat \<Rightarrow> nat \<Rightarrow> nat" where
  "ilog b n = (if b \<le> 1 \<or> n < b then 0 else Suc (ilog b (n div b)))"

declare ilog.simps [simp del]

text \<open>\<open>expo b x\<close>: the exponent of the leading digit of a positive \<open>x\<close> in base \<open>b\<close>.\<close>

definition expo :: "nat \<Rightarrow> rat \<Rightarrow> int" where
  "expo b x =
     (case quotient_of x of (p, q) \<Rightarrow>
        (let k = int (ilog b (nat p)) - int (ilog b (nat q))
         in if of_nat b powi k \<le> x then k else k - 1))"

text \<open>Rounding to \<open>p\<close> significant digits of base \<open>b\<close>.\<close>

definition round_sig :: "nat \<Rightarrow> nat \<Rightarrow> rat \<Rightarrow> rat" where
  "round_sig b p x =
     (if x = 0 then 0
      else let u = of_nat b powi (expo b \<bar>x\<bar> - int p + 1) in of_int (round_half_even (x / u)) * u)"

section \<open>Binary64\<close>

definition f64 :: "rat \<Rightarrow> rat" where
  "f64 x = round_sig 2 53 x"

definition is_f64 :: "rat \<Rightarrow> bool" where
  "is_f64 x = (f64 x = x)"

definition fadd :: "rat \<Rightarrow> rat \<Rightarrow> rat" where "fadd x y = f64 (x + y)"
definition fsub :: "rat \<Rightarrow> rat \<Rightarrow> rat" where "fsub x y = f64 (x - y)"
definition fmul :: "rat \<Rightarrow> rat \<Rightarrow> rat" where "fmul x y = f64 (x * y)"
definition fdiv :: "rat \<Rightarrow> rat \<Rightarrow> rat" where "fdiv x y = f64 (x / y)"

text \<open>The true division of two ints, which Python rounds correctly.\<close>

definition int_truediv :: "int \<Rightarrow> int \<Rightarrow> rat" where
  "int_truediv a b = f64 (of_int a / of_int b)"

text \<open>The values of type float.\<close>

datatype pyfloat = Fin rat | PosInf | NegInf | NaN

fun fl_lt :: "pyfloat \<Rightarrow> pyfloat \<Rightarrow> bool" where
  "fl_lt (Fin x) (Fin y) = (x < y)"
| "fl_lt NegInf (Fin y) = True"
| "fl_lt (Fin x) PosInf = True"
| "fl_lt NegInf PosInf = True"
| "fl_lt _ _ = False"

fun fl_le :: "pyfloat \<Rightarrow> pyfloat \<Rightarrow> bool" where
  "fl_le (Fin x) (Fin y) = (x \<le> y)"
| "fl_le NaN _ = False"
| "fl_le _ NaN = False"
| "fl_le NegInf _ = True"
| "fl_le _ PosInf = True"
| "fl_le _ _ = False"

text \<open>\<open>float(i)\<close> for an int: the rounded value, or OverflowError beyond the range of doubles.\<close>

definition float_of_int :: "int \<Rightarrow> rat res" where
  "float_of_int i = (if 2 ^ 1024 \<le> \<bar>f64 (of_int i)\<bar> then Inl OverflowError else Inr (f64 (of_int i)))"

section \<open>Facts on rounding to an integer\<close>

lemma round_half_even_of_int [simp, num_simps]: "round_half_even (of_int n) = n"
  by (simp add: round_half_even_def)

lemma round_half_even_numeral [simp]:
  "round_half_even 0 = 0" "round_half_even 1 = 1" "round_half_even (numeral k) = numeral k"
  using round_half_even_of_int [of 0] round_half_even_of_int [of 1]
    round_half_even_of_int [of "numeral k"] by simp_all

lemma round_half_even_cases: "round_half_even x = \<lfloor>x\<rfloor> \<or> round_half_even x = \<lfloor>x\<rfloor> + 1"
  by (simp add: round_half_even_def Let_def)

lemma round_half_even_error: "\<bar>of_int (round_half_even x) - x\<bar> \<le> 1 / 2"
proof -
  have "of_int \<lfloor>x\<rfloor> \<le> x" "x < of_int \<lfloor>x\<rfloor> + 1" by linarith+
  then show ?thesis by (auto simp: round_half_even_def Let_def abs_le_iff)
qed

lemma round_half_even_mono: "x \<le> y \<Longrightarrow> round_half_even x \<le> round_half_even y"
proof -
  assume le: "x \<le> y"
  show ?thesis
  proof (cases "\<lfloor>x\<rfloor> = \<lfloor>y\<rfloor>")
    case True
    then show ?thesis using le by (auto simp: round_half_even_def Let_def)
  next
    case False
    with le have "\<lfloor>x\<rfloor> + 1 \<le> \<lfloor>y\<rfloor>" using floor_mono [OF le] by linarith
    then show ?thesis using round_half_even_cases [of x] round_half_even_cases [of y] by linarith
  qed
qed

lemma round_half_even_eqI: "\<bar>x - of_int n\<bar> < 1 / 2 \<Longrightarrow> round_half_even x = n"
  using round_half_even_error [of x] by linarith

lemma round_half_even_le_int: "x \<le> of_int n \<Longrightarrow> round_half_even x \<le> n"
  using round_half_even_mono [of x "of_int n"] by simp

lemma round_half_even_ge_int: "of_int n \<le> x \<Longrightarrow> n \<le> round_half_even x"
  using round_half_even_mono [of "of_int n" x] by simp

lemma round_half_even_nonneg: "0 \<le> x \<Longrightarrow> 0 \<le> round_half_even x"
  using round_half_even_ge_int [of 0 x] by simp

lemma round_half_even_minus: "round_half_even (- x) = - round_half_even x"
proof -
  have fl: "\<lfloor>- x\<rfloor> = (if x = of_int \<lfloor>x\<rfloor> then - \<lfloor>x\<rfloor> else - \<lfloor>x\<rfloor> - 1)"
    by (auto simp: floor_eq_iff) linarith+
  show ?thesis
  proof (cases "x = of_int \<lfloor>x\<rfloor>")
    case True
    then have "- x = of_int (- \<lfloor>x\<rfloor>)" by simp
    then have "round_half_even (- x) = - \<lfloor>x\<rfloor>" by (simp only: round_half_even_of_int)
    moreover have "round_half_even x = \<lfloor>x\<rfloor>" using True by (metis round_half_even_of_int)
    ultimately show ?thesis by simp
  next
    case False
    then show ?thesis by (auto simp: round_half_even_def Let_def fl)
  qed
qed

section \<open>Facts on exponents\<close>

lemma ilog_bounds: "2 \<le> b \<Longrightarrow> 0 < n \<Longrightarrow> b ^ ilog b n \<le> n \<and> n < b ^ Suc (ilog b n)"
proof (induction b n rule: ilog.induct)
  case (1 b n)
  show ?case
  proof (cases "n < b")
    case True
    with 1 show ?thesis by (simp add: ilog.simps [of b n])
  next
    case False
    have b: "\<not> (b \<le> 1 \<or> n < b)" using False 1 by simp
    have pos: "0 < n div b" using False 1 by (simp add: div_greater_zero_iff)
    note ih = "1.IH" [OF b "1.prems"(1) pos]
    have "b ^ ilog b n = b * b ^ ilog b (n div b)" using b by (simp add: ilog.simps [of b n])
    moreover have "b * b ^ ilog b (n div b) \<le> b * (n div b)" using ih by simp
    moreover have "b * (n div b) \<le> n" by simp
    ultimately have lo: "b ^ ilog b n \<le> n" by linarith
    have "n div b < b ^ Suc (ilog b (n div b))" using ih by simp
    then have "n < b ^ Suc (ilog b (n div b)) * b"
      using 1 by (simp add: div_less_iff_less_mult)
    also have "b ^ Suc (ilog b (n div b)) * b = b ^ Suc (ilog b n)"
      using b by (simp add: ilog.simps [of b n])
    finally show ?thesis using lo by simp
  qed
qed

lemma expo_bounds:
  assumes b: "2 \<le> b" and x: "0 < x"
  shows "of_nat b powi expo b x \<le> x" and "x < of_nat b powi (expo b x + 1)"
proof -
  obtain p q where pq: "quotient_of x = (p, q)" by (cases "quotient_of x")
  have q: "0 < q" using quotient_of_denom_pos [OF pq] .
  have xpq: "x = of_int p / of_int q" using quotient_of_div [OF pq] .
  have p: "0 < p" using x q by (simp add: xpq zero_less_divide_iff)
  let ?i = "ilog b (nat p)" and ?j = "ilog b (nat q)"
  define k where "k = int ?i - int ?j"
  have bpos: "(0 :: rat) < of_nat b" using b by simp
  have pb: "b ^ ?i \<le> nat p \<and> nat p < b ^ Suc ?i" using ilog_bounds [OF b] p by simp
  have qb: "b ^ ?j \<le> nat q \<and> nat q < b ^ Suc ?j" using ilog_bounds [OF b] q by simp
  have nat_bounds: "of_nat b ^ m \<le> (of_int z :: rat)" "(of_int z :: rat) < of_nat b ^ Suc n"
    if "0 < z" "b ^ m \<le> nat z" "nat z < b ^ Suc n" for m n z
  proof -
    have z: "(of_int z :: rat) = of_nat (nat z)" using that by simp
    show "of_nat b ^ m \<le> (of_int z :: rat)" unfolding z
      using that(2) by (metis of_nat_le_iff of_nat_power)
    show "(of_int z :: rat) < of_nat b ^ Suc n" unfolding z
      using that(3) by (metis of_nat_less_iff of_nat_power)
  qed
  have pl: "of_nat b ^ ?i \<le> (of_int p :: rat)" and ph: "(of_int p :: rat) < of_nat b ^ Suc ?i"
    using nat_bounds p pb by blast+
  have ql: "of_nat b ^ ?j \<le> (of_int q :: rat)" and qh: "(of_int q :: rat) < of_nat b ^ Suc ?j"
    using nat_bounds q qb by blast+
  have "of_nat b ^ ?i / of_nat b ^ Suc ?j < x"
    unfolding xpq using bpos p q pl qh by (intro frac_less2) simp_all
  moreover have "(of_nat b :: rat) ^ ?i / of_nat b ^ Suc ?j = of_nat b powi (k - 1)"
    using bpos by (simp add: k_def power_int_diff power_int_add)
  ultimately have lo: "of_nat b powi (k - 1) < x" by simp
  have "x < of_nat b ^ Suc ?i / of_nat b ^ ?j"
    unfolding xpq using bpos p q ph ql by (intro frac_less) simp_all
  moreover have "(of_nat b :: rat) ^ Suc ?i / of_nat b ^ ?j = of_nat b powi (k + 1)"
    using bpos by (simp add: k_def power_int_diff power_int_add)
  ultimately have hi: "x < of_nat b powi (k + 1)" by simp
  show "of_nat b powi expo b x \<le> x" and "x < of_nat b powi (expo b x + 1)"
    using lo hi by (auto simp: expo_def pq k_def [symmetric] Let_def)
qed

lemma powi_less_cancel:
  assumes "2 \<le> b" and "(of_nat b :: rat) powi m < of_nat b powi n"
  shows "m < n"
proof (rule ccontr)
  assume "\<not> m < n"
  then have "(of_nat b :: rat) powi n \<le> of_nat b powi m"
    using assms(1) by (intro power_int_increasing) simp_all
  then show False using assms(2) by simp
qed

lemma expo_eqI:
  assumes b: "2 \<le> b" and "of_nat b powi e \<le> x" and "x < of_nat b powi (e + 1)"
  shows "expo b x = e"
proof -
  have x: "0 < x" using assms by (smt (verit) of_nat_le_0_iff of_nat_less_0_iff zero_less_power_int
        order_less_le_trans linorder_not_le not_numeral_le_zero of_nat_0_less_iff zero_less_iff_neq_zero)
  note eb = expo_bounds [OF b x]
  have "(of_nat b :: rat) powi e < of_nat b powi (expo b x + 1)" using assms eb by linarith
  then have "e < expo b x + 1" by (rule powi_less_cancel [OF b])
  moreover have "(of_nat b :: rat) powi expo b x < of_nat b powi (e + 1)" using assms eb by linarith
  then have "expo b x < e + 1" by (rule powi_less_cancel [OF b])
  ultimately show ?thesis by linarith
qed

lemma expo_mono:
  assumes b: "2 \<le> b" and x: "0 < x" and xy: "x \<le> y"
  shows "expo b x \<le> expo b y"
proof -
  have y: "0 < y" using x xy by simp
  have "(of_nat b :: rat) powi expo b x < of_nat b powi (expo b y + 1)"
    using expo_bounds [OF b x] expo_bounds [OF b y] xy by linarith
  from powi_less_cancel [OF b this] show ?thesis by simp
qed

section \<open>Facts on rounding to significant digits\<close>

lemma round_sig_0 [simp, num_simps]: "round_sig b p 0 = 0"
  by (simp add: round_sig_def)

lemma round_sig_minus [num_simps]: "round_sig b p (- x) = - round_sig b p x"
  by (simp add: round_sig_def Let_def round_half_even_minus)

lemma powi_int_quotient:
  assumes "2 \<le> b" and "m \<le> n"
  shows "(of_nat b :: rat) powi n / of_nat b powi m = of_int (int b ^ nat (n - m))"
proof -
  have "(of_nat b :: rat) powi n / of_nat b powi m = of_nat b powi (n - m)"
    using assms by (simp add: power_int_diff)
  also have "\<dots> = of_nat b ^ nat (n - m)" using assms by (simp add: power_int_def)
  finally show ?thesis by simp
qed

text \<open>The unit of the last kept digit, and the two ends of a binade in that unit.\<close>

lemma sig_unit:
  assumes b: "2 \<le> b" and p: "0 < p"
  shows "of_int (int b ^ nat (int p - 1)) * (of_nat b powi (e - int p + 1) :: rat) = of_nat b powi e"
    and "of_int (int b ^ p) * (of_nat b powi (e - int p + 1) :: rat) = of_nat b powi (e + 1)"
proof -
  have nz: "(of_nat b :: rat) powi (e - int p + 1) \<noteq> 0" using b by simp
  show "of_int (int b ^ nat (int p - 1)) * (of_nat b powi (e - int p + 1) :: rat) = of_nat b powi e"
    using powi_int_quotient [OF b, of "e - int p + 1" e] p nz by (simp add: divide_eq_eq)
  show "of_int (int b ^ p) * (of_nat b powi (e - int p + 1) :: rat) = of_nat b powi (e + 1)"
    using powi_int_quotient [OF b, of "e - int p + 1" "e + 1"] p nz by (simp add: divide_eq_eq)
qed

lemma round_sig_scaled:
  assumes b: "2 \<le> b" and p: "0 < p" and x: "0 < x"
  defines "u \<equiv> of_nat b powi (expo b x - int p + 1) :: rat"
  shows "0 < u" and "round_sig b p x = of_int (round_half_even (x / u)) * u"
    and "int b ^ nat (int p - 1) \<le> round_half_even (x / u)" and "round_half_even (x / u) \<le> int b ^ p"
proof -
  show u: "0 < u" using b by (simp add: u_def)
  show "round_sig b p x = of_int (round_half_even (x / u)) * u"
    using x by (simp add: round_sig_def u_def Let_def)
  have "of_int (int b ^ nat (int p - 1)) * u \<le> x" "x \<le> of_int (int b ^ p) * u"
    using expo_bounds [OF b x] unfolding u_def sig_unit [OF b p] by simp_all
  then have "of_int (int b ^ nat (int p - 1)) \<le> x / u" "x / u \<le> of_int (int b ^ p)"
    using u by (simp_all add: pos_le_divide_eq pos_divide_le_eq)
  then show "int b ^ nat (int p - 1) \<le> round_half_even (x / u)" and "round_half_even (x / u) \<le> int b ^ p"
    by (auto intro: round_half_even_ge_int round_half_even_le_int simp del: of_int_power)
qed

lemma round_sig_pos_bounds:
  assumes b: "2 \<le> b" and p: "0 < p" and x: "0 < x"
  shows "of_nat b powi expo b x \<le> round_sig b p x" and "round_sig b p x \<le> of_nat b powi (expo b x + 1)"
proof -
  define u :: rat where "u = of_nat b powi (expo b x - int p + 1)"
  note rs = round_sig_scaled [OF b p x, folded u_def]
  note ends = sig_unit [OF b p, of "expo b x", folded u_def]
  have "of_int (int b ^ nat (int p - 1)) * u \<le> round_sig b p x"
    unfolding rs(2) using rs(1,3) by (simp only: of_int_le_iff mult_le_cancel_right_pos)
  then show "of_nat b powi expo b x \<le> round_sig b p x" by (simp only: ends)
  have "round_sig b p x \<le> of_int (int b ^ p) * u"
    unfolding rs(2) using rs(1,4) by (simp only: of_int_le_iff mult_le_cancel_right_pos)
  then show "round_sig b p x \<le> of_nat b powi (expo b x + 1)" by (simp only: ends)
qed

lemma round_sig_pos:
  assumes "2 \<le> b" and "0 < p" and "0 < x"
  shows "0 < round_sig b p x"
proof -
  have "(0 :: rat) < of_nat b powi expo b x" using assms by simp
  then show ?thesis using round_sig_pos_bounds(1) [OF assms] by linarith
qed

lemma round_sig_nonneg: "2 \<le> b \<Longrightarrow> 0 < p \<Longrightarrow> 0 \<le> x \<Longrightarrow> 0 \<le> round_sig b p x"
  using round_sig_pos [of b p x] by (cases "x = 0") auto

lemma round_sig_mono_pos:
  assumes b: "2 \<le> b" and p: "0 < p" and x: "0 < x" and xy: "x \<le> y"
  shows "round_sig b p x \<le> round_sig b p y"
proof -
  have y: "0 < y" using x xy by simp
  show ?thesis
  proof (cases "expo b x = expo b y")
    case True
    define u :: rat where "u = of_nat b powi (expo b x - int p + 1)"
    have u: "0 < u" using b by (simp add: u_def)
    have "round_half_even (x / u) \<le> round_half_even (y / u)"
      using xy u by (intro round_half_even_mono) (simp add: divide_right_mono)
    then show ?thesis using True x y u by (simp add: round_sig_def Let_def u_def)
  next
    case False
    then have "expo b x + 1 \<le> expo b y" using expo_mono [OF b x xy] by simp
    then have "(of_nat b :: rat) powi (expo b x + 1) \<le> of_nat b powi expo b y"
      using b by (intro power_int_increasing) simp_all
    then show ?thesis
      using round_sig_pos_bounds [OF b p x] round_sig_pos_bounds [OF b p y] by linarith
  qed
qed

lemma round_sig_mono:
  assumes b: "2 \<le> b" and p: "0 < p" and xy: "x \<le> y"
  shows "round_sig b p x \<le> round_sig b p y"
proof -
  consider "0 < x" | "x \<le> 0" "0 \<le> y" | "y < 0" by linarith
  then show ?thesis
  proof cases
    case 1
    then show ?thesis using round_sig_mono_pos [OF b p] xy by blast
  next
    case 2
    then have "0 \<le> round_sig b p (- x)" and "0 \<le> round_sig b p y"
      using round_sig_nonneg [OF b p] by simp_all
    then show ?thesis by (simp add: round_sig_minus)
  next
    case 3
    then have "round_sig b p (- y) \<le> round_sig b p (- x)"
      using xy by (intro round_sig_mono_pos [OF b p]) simp_all
    then show ?thesis by (simp add: round_sig_minus)
  qed
qed

text \<open>A number with at most \<open>p\<close> significant digits is rounded to itself.\<close>

lemma round_sig_exact_pos:
  assumes b: "2 \<le> b" and p: "0 < p" and m: "0 < m" and mb: "m \<le> int b ^ p"
  shows "round_sig b p (of_int m * of_nat b powi k) = of_int m * of_nat b powi k"
proof -
  define x :: rat where "x = of_int m * of_nat b powi k"
  have bpos: "(0 :: rat) < of_nat b" using b by simp
  have x: "0 < x" using m bpos by (simp add: x_def)
  let ?e = "expo b x"
  define u :: rat where "u = of_nat b powi (?e - int p + 1)"
  have u: "0 < u" using bpos by (simp add: u_def)
  obtain z where z: "x / u = of_int z"
  proof (cases "m = int b ^ p")
    case True
    have xk: "x = of_nat b powi (k + int p)" using bpos by (simp add: x_def True power_int_add mult.commute)
    then have e: "?e = k + int p" using b by (intro expo_eqI) (simp_all add: power_int_strict_increasing)
    have "u = of_nat b powi (k + 1)" by (simp add: u_def e)
    then have "x / u = of_int (int b ^ nat (int p - 1))"
      using powi_int_quotient [OF b, of "k + 1" "k + int p"] p by (simp add: xk)
    then show ?thesis by (rule that)
  next
    case False
    then have "(of_int m :: rat) < of_nat b ^ p" using mb
      by (metis of_int_less_iff of_int_of_nat_eq of_int_power order_le_imp_less_or_eq)
    then have "x < of_nat b ^ p * of_nat b powi k" using bpos by (simp add: x_def)
    also have "\<dots> = of_nat b powi (k + int p)" using bpos by (simp add: power_int_add mult.commute)
    finally have "(of_nat b :: rat) powi ?e < of_nat b powi (k + int p)"
      using expo_bounds(1) [OF b x] by linarith
    then have "?e < k + int p" by (rule powi_less_cancel [OF b])
    then have "of_nat b powi k / u = of_int (int b ^ nat (k - (?e - int p + 1)))"
      unfolding u_def by (intro powi_int_quotient [OF b]) simp
    then have "x / u = of_int (m * int b ^ nat (k - (?e - int p + 1)))"
      unfolding x_def of_int_mult times_divide_eq_right [symmetric] by simp
    then show ?thesis by (rule that)
  qed
  have "round_sig b p x = of_int (round_half_even (x / u)) * u"
    using x by (simp add: round_sig_def u_def Let_def)
  also have "\<dots> = x" unfolding z using z u by (simp add: field_simps)
  finally show ?thesis by (simp add: x_def)
qed

lemma round_sig_exact:
  assumes "2 \<le> b" and "0 < p" and "\<bar>m\<bar> \<le> int b ^ p"
  shows "round_sig b p (of_int m * of_nat b powi k) = of_int m * of_nat b powi k"
proof -
  consider "m = 0" | "0 < m" | "0 < - m" by linarith
  then show ?thesis
  proof cases
    case 1
    then show ?thesis by simp
  next
    case 2
    then show ?thesis using assms by (intro round_sig_exact_pos) simp_all
  next
    case 3
    then have "round_sig b p (of_int (- m) * of_nat b powi k) = of_int (- m) * of_nat b powi k"
      using assms by (intro round_sig_exact_pos) simp_all
    then show ?thesis by (simp add: round_sig_minus)
  qed
qed

lemma round_sig_idem:
  assumes b: "2 \<le> b" and p: "0 < p"
  shows "round_sig b p (round_sig b p x) = round_sig b p x"
proof -
  have pos: "round_sig b p (round_sig b p y) = round_sig b p y" if y: "0 < y" for y
  proof -
    note rs = round_sig_scaled [OF b p y]
    have "0 \<le> round_half_even (y / of_nat b powi (expo b y - int p + 1))"
      using y rs(1) by (intro round_half_even_nonneg) simp
    with rs(4) have "\<bar>round_half_even (y / of_nat b powi (expo b y - int p + 1))\<bar> \<le> int b ^ p" by simp
    from round_sig_exact [OF b p this] show ?thesis by (simp only: rs(2))
  qed
  consider "x = 0" | "0 < x" | "0 < - x" by linarith
  then show ?thesis
  proof cases
    case 3
    then show ?thesis using pos [of "- x"] by (simp add: round_sig_minus)
  qed (simp_all add: pos)
qed

lemma round_sig_eqI:
  assumes "2 \<le> b" and "of_nat b powi e \<le> x" and "x < of_nat b powi (e + 1)"
    and "round_half_even (x / of_nat b powi (e - int p + 1)) = m"
  shows "round_sig b p x = of_int m * of_nat b powi (e - int p + 1)"
proof -
  have "0 < (of_nat b :: rat) powi e" using assms(1) by simp
  then have "0 < x" using assms(2) by linarith
  then show ?thesis using expo_eqI [OF assms(1-3)] assms(4) by (simp add: round_sig_def Let_def)
qed

section \<open>Facts on binary64\<close>

lemma f64_eqI:
  assumes "2 powi e \<le> x" and "x < 2 powi (e + 1)" and "round_half_even (x / 2 powi (e - 52)) = m"
  shows "f64 x = of_int m * 2 powi (e - 52)"
  using round_sig_eqI [of 2 e x 53 m] assms by (simp add: f64_def)

lemma f64_0 [simp, num_simps]: "f64 0 = 0"
  by (simp add: f64_def)

lemma f64_mono: "x \<le> y \<Longrightarrow> f64 x \<le> f64 y"
  unfolding f64_def by (rule round_sig_mono) simp_all

lemma f64_idem [simp, num_simps]: "f64 (f64 x) = f64 x"
  unfolding f64_def by (rule round_sig_idem) simp_all

lemma is_f64_f64 [simp]: "is_f64 (f64 x)"
  by (simp add: is_f64_def)

lemma f64_exact: "\<bar>m\<bar> \<le> 2 ^ 53 \<Longrightarrow> f64 (of_int m * 2 powi k) = of_int m * 2 powi k"
  using round_sig_exact [of 2 53 m k] by (simp add: f64_def)

lemma f64_of_int: "\<bar>m\<bar> \<le> 2 ^ 53 \<Longrightarrow> f64 (of_int m) = of_int m"
  using f64_exact [of m 0] by simp

lemma f64_1 [simp, num_simps]: "f64 1 = 1"
  using f64_of_int [of 1] by simp

lemma f64_nonneg: "0 \<le> x \<Longrightarrow> 0 \<le> f64 x"
  using f64_mono [of 0 x] by simp

lemma f64_le_1: "x \<le> 1 \<Longrightarrow> f64 x \<le> 1"
  using f64_mono [of x 1] by simp

lemma f64_pos: "0 < x \<Longrightarrow> 0 < f64 x"
  unfolding f64_def by (rule round_sig_pos) simp_all

text \<open>A value below a double is rounded to at most it, so a comparison that fails exactly fails rounded.\<close>

lemma f64_less_imp_less: "is_f64 m \<Longrightarrow> f64 x < m \<Longrightarrow> x < m"
  using f64_mono [of m x] by (force simp: is_f64_def)

lemma f64_greater_imp_greater: "is_f64 m \<Longrightarrow> m < f64 x \<Longrightarrow> m < x"
  using f64_mono [of x m] by (force simp: is_f64_def)

end
