(* ===== verification/PyStr.thy ===== *)
theory PyStr
  imports PyNum
begin

text \<open>
  Python strings and the values of a parsed JSON document.

  A string is a list of code points. HOL's \<open>char\<close> is an eight-bit value and stands for the code
  points U+0000 to U+00FF, so the string operations below are those of Python on strings over that
  range; the UTF-8 encoding of such a code point has one byte below U+0080 and two bytes above.
\<close>

section \<open>Characters\<close>

definition py_isspace :: "char \<Rightarrow> bool" where
  "py_isspace c =
     (let n = of_char c :: nat in
      (9 \<le> n \<and> n \<le> 13) \<or> (28 \<le> n \<and> n \<le> 32) \<or> n = 133 \<or> n = 160)"

definition py_isdigit :: "char \<Rightarrow> bool" where
  "py_isdigit c = (let n = of_char c :: nat in 48 \<le> n \<and> n \<le> 57)"

definition is_ascii_upper :: "char \<Rightarrow> bool" where
  "is_ascii_upper c = (let n = of_char c :: nat in 65 \<le> n \<and> n \<le> 90)"

definition is_ascii_lower :: "char \<Rightarrow> bool" where
  "is_ascii_lower c = (let n = of_char c :: nat in 97 \<le> n \<and> n \<le> 122)"

definition py_lower_char :: "char \<Rightarrow> char" where
  "py_lower_char c =
     (let n = of_char c :: nat in
      if (65 \<le> n \<and> n \<le> 90) \<or> (192 \<le> n \<and> n \<le> 222 \<and> n \<noteq> 215) then char_of (n + 32) else c)"

section \<open>String operations\<close>

definition py_lstrip :: "string \<Rightarrow> string" where
  "py_lstrip s = dropWhile py_isspace s"

definition py_rstrip :: "string \<Rightarrow> string" where
  "py_rstrip s = rev (dropWhile py_isspace (rev s))"

definition py_strip :: "string \<Rightarrow> string" where
  "py_strip s = py_rstrip (py_lstrip s)"

definition py_lower :: "string \<Rightarrow> string" where
  "py_lower s = map py_lower_char s"

text \<open>\<open>s.rstrip(c)\<close> for a one-character argument.\<close>

definition rstrip_char :: "char \<Rightarrow> string \<Rightarrow> string" where
  "rstrip_char c s = rev (dropWhile (\<lambda>x. x = c) (rev s))"

fun startswith :: "string \<Rightarrow> string \<Rightarrow> bool" where
  "startswith s [] = True"
| "startswith [] (p # ps) = False"
| "startswith (c # s) (p # ps) = (c = p \<and> startswith s ps)"

definition endswith :: "string \<Rightarrow> string \<Rightarrow> bool" where
  "endswith s p = startswith (rev s) (rev p)"

text \<open>\<open>p in s\<close>.\<close>

fun str_in :: "string \<Rightarrow> string \<Rightarrow> bool" where
  "str_in p [] = (p = [])"
| "str_in p (c # s) = (startswith (c # s) p \<or> str_in p s)"

text \<open>\<open>len(s.encode("utf-8"))\<close>.\<close>

definition utf8_width :: "char \<Rightarrow> nat" where
  "utf8_width c = (if (of_char c :: nat) < 128 then 1 else 2)"

definition utf8_len :: "string \<Rightarrow> nat" where
  "utf8_len s = sum_list (map utf8_width s)"

text \<open>\<open>s.split(c)\<close> and \<open>c.join(parts)\<close>.\<close>

fun split_on :: "char \<Rightarrow> string \<Rightarrow> string list" where
  "split_on c [] = [[]]"
| "split_on c (x # s) =
     (if x = c then [] # split_on c s
      else case split_on c s of [] \<Rightarrow> [[x]] | p # ps \<Rightarrow> (x # p) # ps)"

fun join_str :: "string \<Rightarrow> string list \<Rightarrow> string" where
  "join_str sep [] = []"
| "join_str sep [s] = s"
| "join_str sep (s # t # ts) = s @ sep @ join_str sep (t # ts)"

section \<open>Printing and reading decimal numerals\<close>

definition digit_char :: "nat \<Rightarrow> char" where
  "digit_char d = char_of (48 + d)"

definition digit_val :: "char \<Rightarrow> nat" where
  "digit_val c = of_char c - 48"

fun str_of_nat :: "nat \<Rightarrow> string" where
  "str_of_nat n = (if n < 10 then [digit_char n] else str_of_nat (n div 10) @ [digit_char (n mod 10)])"

declare str_of_nat.simps [simp del]

definition str_of_int :: "int \<Rightarrow> string" where
  "str_of_int i = (if i < 0 then CHR ''-'' # str_of_nat (nat (- i)) else str_of_nat (nat i))"

definition nat_of_str :: "string \<Rightarrow> nat" where
  "nat_of_str s = foldl (\<lambda>n c. 10 * n + digit_val c) 0 s"

text \<open>The last \<open>d\<close> digits of a number, with leading zeros.\<close>

fun pad_digits :: "nat \<Rightarrow> nat \<Rightarrow> string" where
  "pad_digits 0 n = []"
| "pad_digits (Suc d) n = pad_digits d (n div 10) @ [digit_char (n mod 10)]"

text \<open>A number scaled by \<open>10 ^ d\<close>, printed with \<open>d\<close> digits after the point.\<close>

definition fixed_str :: "nat \<Rightarrow> int \<Rightarrow> string" where
  "fixed_str d i =
     (let n = nat \<bar>i\<bar> in
      (if i < 0 then ''-'' else '''') @ str_of_nat (n div 10 ^ d) @
      (if d = 0 then '''' else ''.'' @ pad_digits d (n mod 10 ^ d)))"

text \<open>\<open>f"{x:.df}"\<close> for a finite float: the exact value, rounded half to even.\<close>

definition format_fixed :: "nat \<Rightarrow> rat \<Rightarrow> string" where
  "format_fixed d x = fixed_str d (round_half_even (x * 10 ^ d))"

section \<open>JSON values\<close>

text \<open>
  A value of type \<open>Any\<close>: what \<open>json.loads\<close> returns, and \<open>JOpaque\<close> for an object of a class
  that JSON does not have, which a trusted adapter may put into its metadata or tool results.
\<close>

datatype json =
    JNull
  | JBool bool
  | JInt int
  | JFloat pyfloat
  | JStr string
  | JList "json list"
  | JObj "(string \<times> json) list"
  | JOpaque string

fun py_truthy :: "json \<Rightarrow> bool" where
  "py_truthy JNull = False"
| "py_truthy (JBool b) = b"
| "py_truthy (JInt i) = (i \<noteq> 0)"
| "py_truthy (JFloat x) = (x \<noteq> Fin 0)"
| "py_truthy (JStr s) = (s \<noteq> [])"
| "py_truthy (JList xs) = (xs \<noteq> [])"
| "py_truthy (JObj d) = (d \<noteq> [])"
| "py_truthy (JOpaque t) = True"

text \<open>\<open>d.get(k)\<close> and \<open>d.get(k, default)\<close> on a value that is known to be a dictionary.\<close>

definition obj_get :: "json dict \<Rightarrow> string \<Rightarrow> json" where
  "obj_get d k = (case dict_get d k of None \<Rightarrow> JNull | Some v \<Rightarrow> v)"

definition obj_get_default :: "json dict \<Rightarrow> string \<Rightarrow> json \<Rightarrow> json" where
  "obj_get_default d k v = (case dict_get d k of None \<Rightarrow> v | Some w \<Rightarrow> w)"

text \<open>\<open>a or b\<close>.\<close>

definition py_or :: "json \<Rightarrow> json \<Rightarrow> json" where
  "py_or a b = (if py_truthy a then a else b)"

text \<open>
  \<open>str(v)\<close>. The text of a string, an int, a bool or None is fixed here; that of a float or a
  container is Python's \<open>repr\<close>, the parameter \<open>rep\<close>.
\<close>

fun py_str :: "(json \<Rightarrow> string) \<Rightarrow> json \<Rightarrow> string" where
  "py_str rep (JStr s) = s"
| "py_str rep (JInt i) = str_of_int i"
| "py_str rep (JBool b) = (if b then ''True'' else ''False'')"
| "py_str rep JNull = ''None''"
| "py_str rep v = rep v"

text \<open>
  \<open>json.dumps(v, ensure_ascii=False, separators=(",", ":"))\<close>. The text of a finite float is its
  \<open>repr\<close>, the parameter \<open>frep\<close>; an opaque object makes \<open>dumps\<close> raise TypeError.
\<close>

definition hex_digit :: "nat \<Rightarrow> char" where
  "hex_digit d = (if d < 10 then digit_char d else char_of (87 + d))"

definition json_escape_char :: "char \<Rightarrow> string" where
  "json_escape_char c =
     (let n = of_char c :: nat in
      if c = CHR 0x22 then [CHR 0x5C, CHR 0x22]
      else if c = CHR 0x5C then [CHR 0x5C, CHR 0x5C]
      else if n = 10 then [CHR 0x5C, CHR ''n'']
      else if n = 13 then [CHR 0x5C, CHR ''r'']
      else if n = 9 then [CHR 0x5C, CHR ''t'']
      else if n = 8 then [CHR 0x5C, CHR ''b'']
      else if n = 12 then [CHR 0x5C, CHR ''f'']
      else if n < 32 then [CHR 0x5C, CHR ''u'', CHR ''0'', CHR ''0'', hex_digit (n div 16), hex_digit (n mod 16)]
      else [c])"

definition json_string :: "string \<Rightarrow> string" where
  "json_string s = [CHR 0x22] @ concat (map json_escape_char s) @ [CHR 0x22]"

fun json_float :: "(rat \<Rightarrow> string) \<Rightarrow> pyfloat \<Rightarrow> string" where
  "json_float frep (Fin x) = frep x"
| "json_float frep PosInf = ''Infinity''"
| "json_float frep NegInf = ''-Infinity''"
| "json_float frep NaN = ''NaN''"

fun json_dumps :: "(rat \<Rightarrow> string) \<Rightarrow> json \<Rightarrow> string res" where
  "json_dumps frep JNull = Inr ''null''"
| "json_dumps frep (JBool b) = Inr (if b then ''true'' else ''false'')"
| "json_dumps frep (JInt i) = Inr (str_of_int i)"
| "json_dumps frep (JFloat x) = Inr (json_float frep x)"
| "json_dumps frep (JStr s) = Inr (json_string s)"
| "json_dumps frep (JList vs) =
     rbind (rmap_list (json_dumps frep) vs) (\<lambda>ts. Inr (''['' @ join_str '','' ts @ '']''))"
| "json_dumps frep (JObj d) =
     rbind (rmap_list (\<lambda>(k, v). rbind (json_dumps frep v) (\<lambda>t. Inr (json_string k @ '':'' @ t))) d)
       (\<lambda>ts. Inr (''{'' @ join_str '','' ts @ ''}''))"
| "json_dumps frep (JOpaque t) = Inl (TypeError ''not JSON serializable'')"

text \<open>Whether \<open>allow_nan=False\<close> would refuse the value.\<close>

fun has_nonfinite :: "json \<Rightarrow> bool" where
  "has_nonfinite (JFloat x) = (case x of Fin _ \<Rightarrow> False | _ \<Rightarrow> True)"
| "has_nonfinite (JList vs) = list_ex has_nonfinite vs"
| "has_nonfinite (JObj d) = list_ex (\<lambda>(k, v). has_nonfinite v) d"
| "has_nonfinite _ = False"

section \<open>Facts on strings\<close>

lemma startswith_iff: "startswith s p \<longleftrightarrow> (\<exists>t. s = p @ t)"
  by (induction s p rule: startswith.induct) auto

lemma startswith_append [simp]: "startswith (p @ s) p"
  by (auto simp: startswith_iff)

lemma endswith_iff: "endswith s p \<longleftrightarrow> (\<exists>t. s = t @ p)"
proof
  assume "endswith s p"
  then obtain t where "rev s = rev p @ t" by (auto simp: endswith_def startswith_iff)
  then have "s = rev t @ p" by (metis rev_append rev_rev_ident)
  then show "\<exists>t. s = t @ p" by blast
qed (auto simp: endswith_def startswith_iff)

lemma str_in_iff: "str_in p s \<longleftrightarrow> (\<exists>a b. s = a @ p @ b)"
proof (induction s)
  case Nil
  then show ?case by auto
next
  case (Cons c s)
  show ?case
  proof
    assume "str_in p (c # s)"
    then consider "startswith (c # s) p" | "str_in p s" by auto
    then show "\<exists>a b. c # s = a @ p @ b"
    proof cases
      case 1
      then show ?thesis by (metis append_Nil startswith_iff)
    next
      case 2
      then show ?thesis using Cons.IH by (metis append_Cons)
    qed
  next
    assume "\<exists>a b. c # s = a @ p @ b"
    then obtain a b where ab: "c # s = a @ p @ b" by blast
    show "str_in p (c # s)"
    proof (cases a)
      case Nil
      with ab have "startswith (c # s) p" by (metis append_Nil startswith_iff)
      then show ?thesis by simp
    next
      case (Cons x xs)
      with ab Cons.IH show ?thesis by auto
    qed
  qed
qed

lemma py_strip_eq_Nil: "py_strip s = [] \<longleftrightarrow> (\<forall>c \<in> set s. py_isspace c)"
proof (induction s)
  case (Cons c s)
  then show ?case
    by (cases "py_isspace c") (auto simp: py_strip_def py_rstrip_def py_lstrip_def)
qed (simp add: py_strip_def py_rstrip_def py_lstrip_def)

lemma utf8_len_simps [simp, py_simps]:
  "utf8_len [] = 0" "utf8_len (c # s) = utf8_width c + utf8_len s" "utf8_len (s @ t) = utf8_len s + utf8_len t"
  by (simp_all add: utf8_len_def)

lemma utf8_width_bounds: "1 \<le> utf8_width c" "utf8_width c \<le> 2"
  by (simp_all add: utf8_width_def)

lemma length_le_utf8_len: "length s \<le> utf8_len s"
proof (induction s)
  case (Cons c s)
  then show ?case using utf8_width_bounds(1) [of c] by simp
qed simp

lemma split_on_nonempty [simp]: "split_on c s \<noteq> []"
  by (cases s) (auto split: list.splits)

lemma split_on_join: "join_str [c] (split_on c s) = s"
proof (induction s)
  case Nil
  then show ?case by simp
next
  case (Cons x s)
  show ?case
  proof (cases "split_on c s")
    case Nil
    then show ?thesis by simp
  next
    case (Cons p ps)
    then show ?thesis using Cons.IH by (cases ps) auto
  qed
qed

lemma split_on_notin: "c \<notin> set s \<Longrightarrow> split_on c s = [s]"
  by (induction s) auto

lemma split_on_append: "c \<notin> set s \<Longrightarrow> split_on c (s @ c # t) = s # split_on c t"
  by (induction s) auto

section \<open>Facts on decimal numerals\<close>

lemma digit_val_char [simp]: "d < 10 \<Longrightarrow> digit_val (digit_char d) = d"
  by (simp add: digit_val_def digit_char_def)

lemma py_isdigit_digit_char [simp]: "d < 10 \<Longrightarrow> py_isdigit (digit_char d)"
  by (simp add: py_isdigit_def digit_char_def)

lemma str_of_nat_digits: "c \<in> set (str_of_nat n) \<Longrightarrow> py_isdigit c"
proof (induction n rule: str_of_nat.induct)
  case (1 n)
  then show ?case by (cases "n < 10") (auto simp: str_of_nat.simps [of n])
qed

lemma str_of_nat_nonempty [simp]: "str_of_nat n \<noteq> []"
  by (subst str_of_nat.simps) simp

lemma nat_of_str_append: "nat_of_str (s @ [c]) = 10 * nat_of_str s + digit_val c"
  by (simp add: nat_of_str_def)

lemma nat_of_str_of_nat [simp]: "nat_of_str (str_of_nat n) = n"
proof (induction n rule: str_of_nat.induct)
  case (1 n)
  show ?case
  proof (cases "n < 10")
    case True
    then show ?thesis by (simp add: str_of_nat.simps [of n] nat_of_str_def)
  next
    case False
    then show ?thesis using 1 by (simp add: str_of_nat.simps [of n] nat_of_str_append)
  qed
qed

lemma str_of_nat_inject [simp]: "str_of_nat m = str_of_nat n \<longleftrightarrow> m = n"
  by (metis nat_of_str_of_nat)

lemma length_pad_digits [simp]: "length (pad_digits d n) = d"
  by (induction d n rule: pad_digits.induct) auto

lemma pad_digits_digits: "c \<in> set (pad_digits d n) \<Longrightarrow> py_isdigit c"
  by (induction d n rule: pad_digits.induct) auto

lemma nat_of_str_pad_digits: "nat_of_str (pad_digits d n) = n mod 10 ^ d"
proof (induction d n rule: pad_digits.induct)
  case (1 n)
  then show ?case by (simp add: nat_of_str_def)
next
  case (2 d n)
  have "10 * (n div 10 mod 10 ^ d) + n mod 10 = n mod 10 ^ Suc d"
    by (simp add: mod_mult2_eq mult.commute)
  with 2 show ?case by (simp add: nat_of_str_append)
qed

lemma nat_of_str_append_general: "nat_of_str (s @ t) = nat_of_str s * 10 ^ length t + nat_of_str t"
proof (induction t rule: rev_induct)
  case Nil
  then show ?case by (simp add: nat_of_str_def)
next
  case (snoc c t)
  have "nat_of_str (s @ t @ [c]) = 10 * nat_of_str (s @ t) + digit_val c"
    using nat_of_str_append [of "s @ t" c] by simp
  with snoc show ?case by (simp add: nat_of_str_append algebra_simps)
qed

lemma nat_of_str_bound: "list_all py_isdigit s \<Longrightarrow> nat_of_str s < 10 ^ length s"
proof (induction s rule: rev_induct)
  case Nil
  then show ?case by (simp add: nat_of_str_def)
next
  case (snoc c s)
  then have "digit_val c < 10" by (auto simp: py_isdigit_def digit_val_def Let_def)
  with snoc show ?case by (simp add: nat_of_str_append)
qed

lemma py_isdigit_neq [simp]: "\<not> py_isdigit (CHR ''-'')" "\<not> py_isdigit (CHR ''.'')"
  by (simp_all add: py_isdigit_def)

lemma str_of_int_inject [simp]: "str_of_int i = str_of_int j \<longleftrightarrow> i = j"
proof -
  have no_minus: "CHR ''-'' \<notin> set (str_of_nat n)" for n
    using str_of_nat_digits [of "CHR ''-''" n] by (auto simp: py_isdigit_def)
  show ?thesis
    by (auto simp: str_of_int_def nat_eq_iff2 split: if_splits)
      (metis list.set_intros(1) no_minus)+
qed

end
