(* ===== verification/Models.thy ===== *)
theory Models
  imports PyStr
begin

text \<open>
  The data classes of \<open>worker/src/agentstorm_worker/models.py\<close>, one record per class with a
  field per attribute (prefixed by the class's initials, because HOL's field names are global).
  A value of type \<open>Any\<close> is a \<open>json\<close>; a latency is a finite double, given as the rational
  it denotes.
\<close>

record assertion_spec =
  as_type :: string
  as_value :: "string option"
  as_pattern :: "string option"
  as_schema :: "json option"
  as_path :: "string list"
  as_max_ms :: "pyfloat option"
  as_entrypoint :: "string option"
  as_config :: "json dict"

text \<open>\<open>AssertionSpec(type=t)\<close>, all other attributes at their defaults.\<close>

definition AssertionSpec :: "string \<Rightarrow> assertion_spec" where
  "AssertionSpec t = \<lparr>as_type = t, as_value = None, as_pattern = None, as_schema = None, as_path = [],
     as_max_ms = None, as_entrypoint = None, as_config = []\<rparr>"

record assertion_outcome =
  ao_index :: nat
  ao_type :: string
  ao_passed :: bool
  ao_reason_code :: string
  ao_message :: "string option"

record test_case =
  tc_case_id :: string
  tc_prompt :: string
  tc_expected_contains :: "string option"
  tc_assertions :: "assertion_spec list"
  tc_metadata :: "json dict"

definition effective_assertions :: "test_case \<Rightarrow> assertion_spec list" where
  "effective_assertions c =
     (case tc_expected_contains c of
        None \<Rightarrow> []
      | Some v \<Rightarrow> [(AssertionSpec ''contains'')\<lparr>as_value := Some v\<rparr>]) @ tc_assertions c"

record adapter_response =
  ar_output :: string
  ar_input_tokens :: "int option"
  ar_output_tokens :: "int option"
  ar_model_call_count :: "int option"
  ar_tool_call_count :: "int option"
  ar_metadata :: "json dict"

record attempt_result =
  at_number :: nat
  at_latency_ms :: rat
  at_outcome :: string
  at_failure_category :: string
  at_error_code :: string
  at_injected_rule :: string
  at_injected_fault :: string
  at_ambiguous :: bool
  at_retry_decision :: string
  at_backoff_ms :: int
  at_input_tokens :: "int option"
  at_output_tokens :: "int option"
  at_usage_complete :: bool
  at_model_call_count :: "int option"
  at_tool_call_count :: int
  at_circuit_events :: "string list"
  at_provider_error_code :: string
  at_rate_limit_events :: int
  at_finish_reason :: string

text \<open>\<open>AttemptResult(number, latency_ms, outcome)\<close> with the defaults of the class.\<close>

definition AttemptResult :: "nat \<Rightarrow> rat \<Rightarrow> string \<Rightarrow> attempt_result" where
  "AttemptResult n l oc =
     \<lparr>at_number = n, at_latency_ms = l, at_outcome = oc, at_failure_category = '''', at_error_code = '''',
      at_injected_rule = '''', at_injected_fault = '''', at_ambiguous = False,
      at_retry_decision = ''not_needed'', at_backoff_ms = 0, at_input_tokens = None,
      at_output_tokens = None, at_usage_complete = True, at_model_call_count = None,
      at_tool_call_count = 0, at_circuit_events = [], at_provider_error_code = '''',
      at_rate_limit_events = 0, at_finish_reason = ''''\<rparr>"

record case_result =
  cr_case_id :: string
  cr_iteration :: nat
  cr_success :: bool
  cr_latency_ms :: rat
  cr_failure_kind :: string
  cr_failure_category :: string
  cr_error_code :: string
  cr_attempts :: "attempt_result list"
  cr_usage_complete :: bool
  cr_output :: string
  cr_error :: "string option"
  cr_input_tokens :: "int option"
  cr_output_tokens :: "int option"
  cr_model_call_count :: "int option"
  cr_tool_call_count :: int
  cr_tool_path :: "string list"
  cr_assertions :: "assertion_outcome list"
  cr_input_cost_usd :: "string option"
  cr_output_cost_usd :: "string option"
  cr_cost_usd :: "string option"
  cr_provider_error_code :: string
  cr_in_call_retry_count :: int

record run_summary =
  rs_run_id :: string
  rs_shard_index :: nat
  rs_shard_count :: nat
  rs_duration_ms :: rat
  rs_total :: nat
  rs_succeeded :: nat
  rs_failed :: nat
  rs_success_rate :: rat
  rs_error_rate :: rat
  rs_p95_latency_ms :: rat
  rs_input_tokens :: int
  rs_output_tokens :: int
  rs_thresholds_passed :: bool
  rs_threshold_failures :: "string list"
  rs_model_call_count :: "int option"
  rs_tool_call_count :: int
  rs_model_calls_per_successful_agent :: "rat option"
  rs_tool_calls_per_successful_agent :: "rat option"
  rs_input_cost_usd :: "string option"
  rs_output_cost_usd :: "string option"
  rs_cost_usd :: "string option"
  rs_usage_complete :: bool

lemma effective_assertions_length:
  "length (effective_assertions c) =
     (if tc_expected_contains c = None then 0 else 1) + length (tc_assertions c)"
  by (simp add: effective_assertions_def split: option.splits)

end
