(* ===== verification/Config_Types.thy ===== *)
theory Config_Types
  imports Models
begin

text \<open>
  The data classes of \<open>worker/src/agentstorm_worker/config.py\<close>. A float attribute that comes
  straight from the document (an evaluation threshold) is a \<open>pyfloat\<close>; one that the parser has
  checked to lie in the unit interval (the jitter ratio, the probability of a fault) is the
  rational it denotes.
\<close>

record pricing_config =
  pr_input_usd_per_million_tokens :: string
  pr_output_usd_per_million_tokens :: string

record target_config =
  tg_provider :: string
  tg_model :: string
  tg_base_url :: string
  tg_adapter_entrypoint :: string
  tg_pricing :: "pricing_config option"
  tg_max_output_tokens :: "int option"
  tg_request_fields :: "json dict"
  tg_http_retry_attempts :: "int option"
  tg_http_retry_max_wait_seconds :: "int option"

record workload_config =
  wl_concurrency :: int
  wl_iterations :: int
  wl_timeout_seconds :: int

record evaluation_config =
  ev_min_success_rate :: "pyfloat option"
  ev_max_error_rate :: "pyfloat option"
  ev_max_p95_latency_ms :: "int option"

record telemetry_redaction_config =
  td_patterns :: "string list"
  td_metadata_keys :: "string list"

record telemetry_config =
  tl_content_mode :: string
  tl_redaction :: telemetry_redaction_config

record fault_rule_config =
  fr_name :: string
  fr_fault :: string
  fr_probability :: rat
  fr_case_ids :: "string list"
  fr_iterations :: "int list"
  fr_attempts :: "int list"
  fr_delay_ms :: "int option"
  fr_status_code :: "int option"
  fr_tool_name :: string

record fault_scenario_config =
  fs_source_name :: string
  fs_source_key :: string
  fs_digest :: string
  fs_rules :: "fault_rule_config list"

record retry_config =
  rt_max_attempts :: int
  rt_initial_backoff_ms :: int
  rt_max_backoff_ms :: int
  rt_max_cumulative_backoff_ms :: int
  rt_jitter_ratio :: rat
  rt_allow_ambiguous_retries :: bool

record circuit_breaker_config =
  cb_failure_threshold :: int
  cb_open_duration_ms :: int

record reliability_config =
  rl_seed :: "int option"
  rl_retry :: retry_config
  rl_circuit_breaker :: "circuit_breaker_config option"
  rl_scenario :: "fault_scenario_config option"

record source_config =
  so_namespace :: string
  so_name :: string

record dataset_config =
  ds_name :: string
  ds_key :: string

record run_config =
  rc_run_id :: string
  rc_source :: source_config
  rc_dataset :: dataset_config
  rc_target :: target_config
  rc_workload :: workload_config
  rc_evaluation :: evaluation_config
  rc_telemetry :: telemetry_config
  rc_reliability :: "reliability_config option"

text \<open>
  The price pattern of the loader, \<open>(0|[1-9][0-9]{0,17})(\.[0-9]{1,12})?\<close> matched against the whole text.
\<close>

definition price_int_part :: "string \<Rightarrow> bool" where
  "price_int_part i \<longleftrightarrow>
     i = ''0'' \<or> (i \<noteq> [] \<and> list_all py_isdigit i \<and> hd i \<noteq> CHR ''0'' \<and> length i \<le> 18)"

definition price_pattern :: "string \<Rightarrow> bool" where
  "price_pattern s =
     (case split_on (CHR ''.'') s of
        [i] \<Rightarrow> price_int_part i
      | [i, f] \<Rightarrow> price_int_part i \<and> list_all py_isdigit f \<and> 1 \<le> length f \<and> length f \<le> 12
      | _ \<Rightarrow> False)"

text \<open>
  What a configuration that the loader accepts satisfies; theory \<open>Config\<close> proves it of the
  parsers, the components assume no more than it.
\<close>

definition retry_ok :: "retry_config \<Rightarrow> bool" where
  "retry_ok r \<longleftrightarrow>
     1 \<le> rt_max_attempts r \<and> rt_max_attempts r \<le> 10 \<and>
     1 \<le> rt_initial_backoff_ms r \<and> rt_initial_backoff_ms r \<le> rt_max_backoff_ms r \<and>
     1 \<le> rt_max_cumulative_backoff_ms r \<and> 0 \<le> rt_jitter_ratio r \<and> rt_jitter_ratio r \<le> 1"

definition breaker_ok :: "circuit_breaker_config \<Rightarrow> bool" where
  "breaker_ok c \<longleftrightarrow> 1 \<le> cb_failure_threshold c \<and> 1 \<le> cb_open_duration_ms c"

end
