(* ===== verification/Errors.thy ===== *)
theory Errors
  imports Models
begin

text \<open>
  \<open>worker/src/agentstorm_worker/execution_errors.py\<close>: the stable failure record that every
  adapter error becomes, and the classification of an exception.

  An exception object is the record \<open>py_exc\<close>: the name of its class, which of the classes the
  classifier asks about it is an instance of (so an SDK exception that is an instance of several
  of them has all of them), the HTTP status it carries, and, when it is already an
  \<open>ExecutionError\<close>, that error. Whether the two optional SDKs can be imported is the pair of
  flags of \<open>classify_adapter_exception\<close>.
\<close>

record execution_error =
  ee_category :: string
  ee_code :: string
  ee_failure_kind :: string
  ee_ambiguous :: bool
  ee_safe_to_retry :: bool
  ee_response :: "adapter_response option"
  ee_injected_rule :: string
  ee_injected_fault :: string
  ee_usage_complete :: bool
  ee_circuit_events :: "string list"

definition ExecutionError :: "string \<Rightarrow> string \<Rightarrow> string \<Rightarrow> execution_error" where
  "ExecutionError category code kind =
     \<lparr>ee_category = category, ee_code = code, ee_failure_kind = kind, ee_ambiguous = False,
      ee_safe_to_retry = False, ee_response = None, ee_injected_rule = '''', ee_injected_fault = '''',
      ee_usage_complete = False, ee_circuit_events = []\<rparr>"

text \<open>\<open>str(error)\<close>.\<close>

definition error_str :: "execution_error \<Rightarrow> string" where
  "error_str e = ee_category e @ ''/'' @ ee_code e"

datatype exn_class =
    AsyncioTimeoutError | TimeoutErrorC
  | ToolTimeoutError | InputGuardrailTripwireTriggered | OutputGuardrailTripwireTriggered
  | MaxTurnsExceeded | ModelBehaviorError | UserError | AgentsException
  | RateLimitError | APITimeoutError | APIConnectionError | APIStatusError

record py_exc =
  px_name :: string
  px_classes :: "exn_class list"
  px_status_code :: int
  px_execution :: "execution_error option"

text \<open>A Python error that carries neither a status nor one of those classes.\<close>

definition exc_of_error :: "py_error \<Rightarrow> py_exc" where
  "exc_of_error e =
     \<lparr>px_name = (case e of ValueError _ \<Rightarrow> ''ValueError'' | TypeError _ \<Rightarrow> ''TypeError'' | AttributeError _ \<Rightarrow> ''AttributeError''
                 | KeyError _ \<Rightarrow> ''KeyError'' | RuntimeError _ \<Rightarrow> ''RuntimeError'' | OverflowError \<Rightarrow> ''OverflowError''
                 | InvalidOperation \<Rightarrow> ''InvalidOperation'' | AssertionError \<Rightarrow> ''AssertionError''),
      px_classes = [], px_status_code = 0, px_execution = None\<rparr>"

definition isinstance :: "py_exc \<Rightarrow> exn_class \<Rightarrow> bool" where
  "isinstance x c = (c \<in> set (px_classes x))"

definition classify_agents_exception :: "bool \<Rightarrow> py_exc \<Rightarrow> execution_error option" where
  "classify_agents_exception installed x =
     (if \<not> installed then None
      else if isinstance x ToolTimeoutError then
        Some ((ExecutionError ''tool'' ''tool_timeout'' ''tool'')\<lparr>ee_ambiguous := True\<rparr>)
      else if isinstance x InputGuardrailTripwireTriggered then
        Some (ExecutionError ''evaluation'' ''input_guardrail_tripwire'' ''assertion'')
      else if isinstance x OutputGuardrailTripwireTriggered then
        Some (ExecutionError ''evaluation'' ''output_guardrail_tripwire'' ''assertion'')
      else if isinstance x MaxTurnsExceeded then
        Some (ExecutionError ''evaluation'' ''max_turns_exceeded'' ''assertion'')
      else if isinstance x ModelBehaviorError then
        Some ((ExecutionError ''provider'' ''model_behavior'' ''provider'')\<lparr>ee_ambiguous := True\<rparr>)
      else if isinstance x UserError then
        Some (ExecutionError ''harness'' ''sdk_user_error'' ''harness'')
      else if isinstance x AgentsException then
        Some ((ExecutionError ''provider'' ''agents_error'' ''provider'')\<lparr>ee_ambiguous := True\<rparr>)
      else None)"

definition classify_openai_exception :: "bool \<Rightarrow> py_exc \<Rightarrow> execution_error option" where
  "classify_openai_exception installed x =
     (if \<not> installed then None
      else if isinstance x RateLimitError then
        Some ((ExecutionError ''provider'' ''rate_limited'' ''provider'')\<lparr>ee_safe_to_retry := True\<rparr>)
      else if isinstance x APITimeoutError then
        Some ((ExecutionError ''provider'' ''timeout'' ''timeout'')\<lparr>ee_ambiguous := True\<rparr>)
      else if isinstance x APIConnectionError then
        Some ((ExecutionError ''provider'' ''connection_error'' ''provider'')\<lparr>ee_ambiguous := True\<rparr>)
      else if isinstance x APIStatusError then
        (let status_code = px_status_code x in
         if status_code = 429 then
           Some ((ExecutionError ''provider'' ''rate_limited'' ''provider'')\<lparr>ee_safe_to_retry := True\<rparr>)
         else if 500 \<le> status_code then
           Some ((ExecutionError ''provider'' ''http_5xx'' ''provider'')\<lparr>ee_ambiguous := True\<rparr>)
         else Some (ExecutionError ''provider'' ''http_4xx'' ''provider''))
      else None)"

definition classify_adapter_exception :: "bool \<Rightarrow> bool \<Rightarrow> py_exc \<Rightarrow> execution_error" where
  "classify_adapter_exception agents_installed openai_installed x =
     (case px_execution x of
        Some e \<Rightarrow> e
      | None \<Rightarrow>
          if isinstance x AsyncioTimeoutError \<or> isinstance x TimeoutErrorC then
            (ExecutionError ''provider'' ''timeout'' ''timeout'')\<lparr>ee_ambiguous := True\<rparr>
          else case classify_agents_exception agents_installed x of
            Some mapped \<Rightarrow> mapped
          | None \<Rightarrow>
              (case classify_openai_exception openai_installed x of
                 Some mapped \<Rightarrow> mapped
               | None \<Rightarrow>
                   (ExecutionError ''provider'' ''unknown_error'' ''provider'')\<lparr>ee_ambiguous := True\<rparr>))"

section \<open>What a classified error promises\<close>

text \<open>
  The contract the retry policy relies on: an error is never both safe to retry and ambiguous, only
  a rate limit is safe to retry, and an error that is neither in the provider's nor in the tool's
  hands is not ambiguous.
\<close>

definition error_ok :: "execution_error \<Rightarrow> bool" where
  "error_ok e \<longleftrightarrow>
     ee_category e \<in> {''provider'', ''tool'', ''evaluation'', ''harness''} \<and>
     \<not> (ee_safe_to_retry e \<and> ee_ambiguous e) \<and>
     (ee_safe_to_retry e \<longrightarrow> ee_category e = ''provider'' \<and> ee_code e = ''rate_limited'') \<and>
     (ee_ambiguous e \<longrightarrow> ee_category e = ''provider'' \<or> ee_category e = ''tool'')"

lemma classify_agents_ok: "classify_agents_exception i x = Some e \<Longrightarrow> error_ok e"
  by (auto simp: classify_agents_exception_def error_ok_def ExecutionError_def split: if_splits)

lemma classify_openai_ok: "classify_openai_exception i x = Some e \<Longrightarrow> error_ok e"
  by (auto simp: classify_openai_exception_def error_ok_def ExecutionError_def Let_def split: if_splits)

lemma classify_other_ok:
  assumes "px_execution x = None"
  shows "error_ok (classify_adapter_exception a b x)"
  using assms classify_agents_ok classify_openai_ok
  by (auto simp: classify_adapter_exception_def error_ok_def ExecutionError_def split: option.splits)

section \<open>Properties\<close>

text \<open>The error an exception is classified as keeps the contract of the retry policy: it has one of the four
  categories, is never both ambiguous and safe to retry, is safe to retry only as a rate limit of the
  provider, and is ambiguous only in the hands of the provider or a tool.\<close>

theorem classified_contract:
  assumes "px_execution x = None"
  shows "error_ok (classify_adapter_exception agents openai x)"
  using assms by (rule classify_other_ok)

theorem classified_contract_witness:
  "error_ok (classify_adapter_exception False False
     \<lparr>px_name = ''OSError'', px_classes = [], px_status_code = 0, px_execution = None\<rparr>)"
  by (rule classified_contract) simp

end
