(* ===== verification/Circuit.thy ===== *)
theory Circuit
  imports Config_Types Errors
begin

text \<open>
  \<open>worker/src/agentstorm_worker/circuit.py\<close>: the worker-local circuit breaker.

  \<open>acquire\<close> and \<open>record_terminal\<close> each hold the breaker's lock without awaiting, so each is one
  atomic operation on the record \<open>breaker\<close>; \<open>now\<close> is the reading of the injected clock, a
  double. The tasks of a worker interleave these operations; \<open>breaker_step\<close> is the step relation of
  a breaker shared by any number of tasks, with the permits that are out.
\<close>

section \<open>The breaker\<close>

datatype circuit_state = Closed | Open | Half_Open

record circuit_permit =
  pm_probe :: bool
  pm_events :: "string list"

record breaker =
  br_state :: circuit_state
  br_consecutive_failures :: int
  br_open_until :: rat
  br_probe_in_flight :: bool

definition breaker_init :: breaker where
  "breaker_init = \<lparr>br_state = Closed, br_consecutive_failures = 0, br_open_until = 0, br_probe_in_flight = False\<rparr>"

definition CircuitPermit :: circuit_permit where
  "CircuitPermit = \<lparr>pm_probe = False, pm_events = []\<rparr>"

definition circuit_open_error :: execution_error where
  "circuit_open_error =
     (ExecutionError ''provider'' ''circuit_open'' ''provider'')
       \<lparr>ee_usage_complete := True, ee_circuit_events := [''reject'']\<rparr>"

definition acquire ::
  "circuit_breaker_config option \<Rightarrow> rat \<Rightarrow> breaker \<Rightarrow> (execution_error + circuit_permit) \<times> breaker" where
  "acquire config now b =
     (case config of
        None \<Rightarrow> (Inr CircuitPermit, b)
      | Some c \<Rightarrow>
          if br_state b = Closed then (Inr CircuitPermit, b)
          else if br_state b = Open \<and> br_open_until b \<le> now \<and> \<not> br_probe_in_flight b then
            (Inr \<lparr>pm_probe = True, pm_events = [''half_open'']\<rparr>,
             b\<lparr>br_state := Half_Open, br_probe_in_flight := True\<rparr>)
          else (Inl circuit_open_error, b))"

definition open_deadline :: "circuit_breaker_config \<Rightarrow> rat \<Rightarrow> rat" where
  "open_deadline c now = fadd now (int_truediv (cb_open_duration_ms c) 1000)"

definition record_terminal ::
  "circuit_breaker_config option \<Rightarrow> rat \<Rightarrow> circuit_permit \<Rightarrow> bool \<Rightarrow> string \<Rightarrow> breaker \<Rightarrow> string list \<times> breaker" where
  "record_terminal config now permit provider_succeeded failure_category b =
     (case config of
        None \<Rightarrow> ([], b)
      | Some c \<Rightarrow>
          if pm_probe permit then
            (let b = b\<lparr>br_probe_in_flight := False\<rparr> in
             if provider_succeeded then
               ([''close''], b\<lparr>br_state := Closed, br_consecutive_failures := 0\<rparr>)
             else if failure_category = ''provider'' then
               ([''open''], b\<lparr>br_state := Open, br_open_until := open_deadline c now\<rparr>)
             else ([], b\<lparr>br_state := Open, br_open_until := now\<rparr>))
          else if provider_succeeded then
            (let b = b\<lparr>br_consecutive_failures := 0\<rparr> in
             if br_state b \<noteq> Closed then
               ([''close''], b\<lparr>br_state := Closed, br_probe_in_flight := False\<rparr>)
             else ([], b))
          else if failure_category \<noteq> ''provider'' then ([], b)
          else if br_state b = Closed then
            (let b = b\<lparr>br_consecutive_failures := br_consecutive_failures b + 1\<rparr> in
             if cb_failure_threshold c \<le> br_consecutive_failures b then
               ([''open''], b\<lparr>br_state := Open, br_open_until := open_deadline c now\<rparr>)
             else ([], b))
          else if br_state b = Open then
            ([], b\<lparr>br_open_until := max (br_open_until b) (open_deadline c now)\<rparr>)
          else ([], b))"

section \<open>The invariant of the breaker\<close>

definition breaker_inv :: "circuit_breaker_config \<Rightarrow> breaker \<Rightarrow> bool" where
  "breaker_inv c b \<longleftrightarrow>
     (br_probe_in_flight b \<longleftrightarrow> br_state b = Half_Open) \<and>
     0 \<le> br_consecutive_failures b \<and>
     (br_state b = Closed \<longrightarrow> br_consecutive_failures b < cb_failure_threshold c)"

lemma breaker_inv_init: "breaker_ok c \<Longrightarrow> breaker_inv c breaker_init"
  by (simp add: breaker_inv_def breaker_init_def breaker_ok_def)

lemma breaker_inv_acquire: "breaker_inv c b \<Longrightarrow> breaker_inv c (snd (acquire (Some c) now b))"
  by (auto simp: breaker_inv_def acquire_def)

lemma breaker_inv_record:
  "breaker_ok c \<Longrightarrow> breaker_inv c b \<Longrightarrow> breaker_inv c (snd (record_terminal (Some c) now p s f b))"
  by (auto simp: breaker_inv_def record_terminal_def breaker_ok_def Let_def)

section \<open>An abstract breaker and the refinement\<close>

text \<open>
  What the breaker means: closed with a count of consecutive failures, open until a moment, or half
  open. The probe flag and the stale failure count of an open breaker are not part of it.
\<close>

datatype abs_breaker = AClosed int | AOpen rat | AHalf

definition abs_state :: "breaker \<Rightarrow> abs_breaker" where
  "abs_state b = (case br_state b of Closed \<Rightarrow> AClosed (br_consecutive_failures b) | Open \<Rightarrow> AOpen (br_open_until b) | Half_Open \<Rightarrow> AHalf)"

fun spec_acquire :: "rat \<Rightarrow> abs_breaker \<Rightarrow> (bool option) \<times> abs_breaker" where
  "spec_acquire now (AClosed n) = (Some False, AClosed n)"
| "spec_acquire now (AOpen t) = (if t \<le> now then (Some True, AHalf) else (None, AOpen t))"
| "spec_acquire now AHalf = (None, AHalf)"

datatype terminal = Succeeded | Provider_Failed | Other_Failed

definition terminal_of :: "bool \<Rightarrow> string \<Rightarrow> terminal" where
  "terminal_of s f = (if s then Succeeded else if f = ''provider'' then Provider_Failed else Other_Failed)"

fun spec_record :: "circuit_breaker_config \<Rightarrow> rat \<Rightarrow> bool \<Rightarrow> terminal \<Rightarrow> abs_breaker \<Rightarrow> abs_breaker" where
  "spec_record c now probe Succeeded a = AClosed 0"
| "spec_record c now True Provider_Failed a = AOpen (open_deadline c now)"
| "spec_record c now True Other_Failed a = AOpen now"
| "spec_record c now False Provider_Failed (AClosed n) =
     (if cb_failure_threshold c \<le> n + 1 then AOpen (open_deadline c now) else AClosed (n + 1))"
| "spec_record c now False Provider_Failed (AOpen t) = AOpen (max t (open_deadline c now))"
| "spec_record c now False Provider_Failed AHalf = AHalf"
| "spec_record c now False Other_Failed a = a"

definition granted :: "execution_error + circuit_permit \<Rightarrow> bool option" where
  "granted r = (case r of Inl _ \<Rightarrow> None | Inr p \<Rightarrow> Some (pm_probe p))"

lemma acquire_refines:
  assumes "breaker_inv c b"
  shows "spec_acquire now (abs_state b) =
    (granted (fst (acquire (Some c) now b)), abs_state (snd (acquire (Some c) now b)))"
  using assms
  by (cases "br_state b")
    (auto simp: breaker_inv_def acquire_def abs_state_def granted_def CircuitPermit_def)

lemma record_refines:
  assumes "breaker_inv c b"
  shows "spec_record c now (pm_probe p) (terminal_of s f) (abs_state b) =
    abs_state (snd (record_terminal (Some c) now p s f b))"
  using assms
  by (cases "br_state b"; cases "pm_probe p")
    (auto simp: breaker_inv_def record_terminal_def abs_state_def terminal_of_def Let_def)

section \<open>A breaker shared by concurrent tasks\<close>

record breaker_sys =
  sys_breaker :: breaker
  sys_out :: "circuit_permit list"
  sys_now :: rat

inductive breaker_step :: "circuit_breaker_config \<Rightarrow> breaker_sys \<Rightarrow> breaker_sys \<Rightarrow> bool"
  for c :: circuit_breaker_config where
  step_tick: "sys_now s \<le> t \<Longrightarrow> breaker_step c s (s\<lparr>sys_now := t\<rparr>)"
| step_grant: "acquire (Some c) (sys_now s) (sys_breaker s) = (Inr p, b) \<Longrightarrow>
     breaker_step c s (s\<lparr>sys_breaker := b, sys_out := p # sys_out s\<rparr>)"
| step_reject: "acquire (Some c) (sys_now s) (sys_breaker s) = (Inl e, b) \<Longrightarrow>
     breaker_step c s (s\<lparr>sys_breaker := b\<rparr>)"
| step_record: "p \<in> set (sys_out s) \<Longrightarrow>
     record_terminal (Some c) (sys_now s) p ok f (sys_breaker s) = (ev, b) \<Longrightarrow>
     breaker_step c s (s\<lparr>sys_breaker := b, sys_out := remove1 p (sys_out s)\<rparr>)"
| step_cancel: "p \<in> set (sys_out s) \<Longrightarrow>
     breaker_step c s (s\<lparr>sys_out := remove1 p (sys_out s)\<rparr>)"

inductive_simps breaker_step_simps: "breaker_step c s t"

definition sys_init :: "breaker_sys \<Rightarrow> bool" where
  "sys_init s \<longleftrightarrow> sys_breaker s = breaker_init \<and> sys_out s = []"

definition sys_inv :: "circuit_breaker_config \<Rightarrow> breaker_sys \<Rightarrow> bool" where
  "sys_inv c s \<longleftrightarrow> (breaker_ok c \<longrightarrow> breaker_inv c (sys_breaker s))"

interpretation brk: invariant_system sys_init "breaker_step c" "sys_inv c" for c
proof
  fix s
  assume "sys_init s"
  then show "sys_inv c s" by (simp add: sys_init_def sys_inv_def breaker_inv_init)
next
  fix s t
  assume I: "sys_inv c s" and st: "breaker_step c s t"
  show "sys_inv c t"
    unfolding sys_inv_def
  proof
    assume ok: "breaker_ok c"
    with I have b: "breaker_inv c (sys_breaker s)" by (simp add: sys_inv_def)
    note acq = breaker_inv_acquire [OF b] and rec = breaker_inv_record [OF ok b]
    from st show "breaker_inv c (sys_breaker t)"
    proof cases
      case (step_grant p br)
      then show ?thesis using acq [of "sys_now s"] by simp
    next
      case (step_reject e br)
      then show ?thesis using acq [of "sys_now s"] by simp
    next
      case (step_record p s' f ev br)
      then show ?thesis using rec by (metis breaker_sys.select_convs(1) breaker_sys.surjective
            breaker_sys.update_convs(1,2) snd_conv)
    qed (use b in simp_all)
  qed
qed

section \<open>Behaviour of single operations\<close>

lemma acquire_half_open: "br_state b = Half_Open \<Longrightarrow> acquire (Some c) now b = (Inl circuit_open_error, b)"
  by (simp add: acquire_def)

lemma acquire_open:
  assumes "breaker_inv c b" and "br_state b = Open"
  shows "acquire (Some c) now b =
    (if br_open_until b \<le> now
     then (Inr \<lparr>pm_probe = True, pm_events = [''half_open'']\<rparr>, b\<lparr>br_state := Half_Open, br_probe_in_flight := True\<rparr>)
     else (Inl circuit_open_error, b))"
  using assms by (auto simp: acquire_def breaker_inv_def)

lemma acquire_closed: "br_state b = Closed \<Longrightarrow> acquire (Some c) now b = (Inr CircuitPermit, b)"
  by (simp add: acquire_def)

text \<open>A run of provider failures of ordinary permits at the given times.\<close>

definition fail_at :: "circuit_breaker_config \<Rightarrow> rat list \<Rightarrow> breaker \<Rightarrow> breaker" where
  "fail_at c ts b = foldl (\<lambda>b t. snd (record_terminal (Some c) t CircuitPermit False ''provider'' b)) b ts"

lemma fail_at_below:
  assumes "int (length ts) < cb_failure_threshold c"
  shows "fail_at c ts breaker_init = breaker_init\<lparr>br_consecutive_failures := int (length ts)\<rparr>"
  using assms
proof (induction ts rule: rev_induct)
  case Nil
  then show ?case by (simp add: fail_at_def breaker_init_def)
next
  case (snoc t ts)
  then have "fail_at c ts breaker_init = breaker_init\<lparr>br_consecutive_failures := int (length ts)\<rparr>" by simp
  with snoc.prems show ?case
    by (simp add: fail_at_def record_terminal_def CircuitPermit_def breaker_init_def Let_def)
qed

lemma fail_at_threshold:
  assumes "breaker_ok c" and "int (length (ts @ [t])) = cb_failure_threshold c"
  shows "br_state (fail_at c (ts @ [t]) breaker_init) = Open"
    and "br_open_until (fail_at c (ts @ [t]) breaker_init) = open_deadline c t"
proof -
  have "fail_at c ts breaker_init = breaker_init\<lparr>br_consecutive_failures := int (length ts)\<rparr>"
    using assms by (intro fail_at_below) simp
  then have "fail_at c (ts @ [t]) breaker_init =
      snd (record_terminal (Some c) t CircuitPermit False ''provider''
        (breaker_init\<lparr>br_consecutive_failures := int (length ts)\<rparr>))"
    by (simp add: fail_at_def)
  then show "br_state (fail_at c (ts @ [t]) breaker_init) = Open"
    and "br_open_until (fail_at c (ts @ [t]) breaker_init) = open_deadline c t"
    using assms by (simp_all add: record_terminal_def CircuitPermit_def breaker_init_def Let_def)
qed

section \<open>Schedules\<close>

text \<open>An interleaving given as a list of events, run by a function; what it reaches is reachable.\<close>

datatype breaker_event = Tick rat | Acquire | Record circuit_permit bool string

fun exec_event :: "circuit_breaker_config \<Rightarrow> breaker_event \<Rightarrow> breaker_sys \<Rightarrow> breaker_sys option" where
  "exec_event c (Tick t) s = (if sys_now s \<le> t then Some (s\<lparr>sys_now := t\<rparr>) else None)"
| "exec_event c Acquire s =
     (case acquire (Some c) (sys_now s) (sys_breaker s) of
        (Inl e, b) \<Rightarrow> Some (s\<lparr>sys_breaker := b\<rparr>)
      | (Inr p, b) \<Rightarrow> Some (s\<lparr>sys_breaker := b, sys_out := p # sys_out s\<rparr>))"
| "exec_event c (Record p ok f) s =
     (if p \<in> set (sys_out s)
      then Some (s\<lparr>sys_breaker := snd (record_terminal (Some c) (sys_now s) p ok f (sys_breaker s)),
                   sys_out := remove1 p (sys_out s)\<rparr>)
      else None)"

fun exec_events :: "circuit_breaker_config \<Rightarrow> breaker_event list \<Rightarrow> breaker_sys \<Rightarrow> breaker_sys option" where
  "exec_events c [] s = Some s"
| "exec_events c (e # es) s = (case exec_event c e s of None \<Rightarrow> None | Some t \<Rightarrow> exec_events c es t)"

lemma exec_event_step: "exec_event c e s = Some t \<Longrightarrow> breaker_step c s t"
proof (cases e)
  case (Record p ok f)
  assume "exec_event c e s = Some t"
  then show ?thesis
    using step_record [of p s c ok f "fst (record_terminal (Some c) (sys_now s) p ok f (sys_breaker s))"
        "snd (record_terminal (Some c) (sys_now s) p ok f (sys_breaker s))"]
    by (simp add: Record split: if_splits)
qed (auto split: if_splits prod.splits sum.splits intro: breaker_step.intros)

lemma exec_events_reachable:
  "reachable sys_init (breaker_step c) s \<Longrightarrow> exec_events c es s = Some t \<Longrightarrow>
     reachable sys_init (breaker_step c) t"
proof (induction es arbitrary: s)
  case (Cons e es)
  from Cons.prems(2) obtain u where u: "exec_event c e s = Some u" "exec_events c es u = Some t"
    by (auto split: option.splits)
  then have "reachable sys_init (breaker_step c) u"
    using Cons.prems(1) exec_event_step by (blast intro: reach_step)
  then show ?case using u(2) by (rule Cons.IH)
qed simp

definition sys_start :: breaker_sys where
  "sys_start = \<lparr>sys_breaker = breaker_init, sys_out = [], sys_now = 0\<rparr>"

lemma sys_start_reachable: "reachable sys_init (breaker_step c) sys_start"
  by (rule reach_init) (simp add: sys_init_def sys_start_def)

text \<open>
  The schedule behind the finding on concurrent probes. Two ordinary calls start; the first fails and
  opens the breaker; the first probe starts; the second ordinary call then succeeds, which closes the
  breaker under the probe; the next call fails, the breaker opens again, and a second probe starts
  while the first is still out.
\<close>

definition demo_config :: circuit_breaker_config where
  "demo_config = \<lparr>cb_failure_threshold = 1, cb_open_duration_ms = 1000\<rparr>"

definition late_success_schedule :: "breaker_event list" where
  "late_success_schedule =
     [Acquire, Acquire, Record CircuitPermit False ''provider'', Tick 1, Acquire,
      Record CircuitPermit True '''', Acquire, Record CircuitPermit False ''provider'', Tick 2, Acquire]"

lemma open_deadline_demo [simp]: "open_deadline demo_config 0 = 1" "open_deadline demo_config 1 = 2"
  using f64_of_int [of 2] by (simp_all add: open_deadline_def demo_config_def int_truediv_def fadd_def)

lemma threshold_demo [simp]: "cb_failure_threshold demo_config = 1"
  by (simp add: demo_config_def)

lemma late_success_run:
  "\<exists>t. exec_events demo_config late_success_schedule sys_start = Some t \<and>
       length (filter pm_probe (sys_out t)) = 2"
  by (simp add: late_success_schedule_def sys_start_def breaker_init_def CircuitPermit_def acquire_def
      record_terminal_def Let_def)

section \<open>Properties\<close>

text \<open>C10: in every reachable state of a breaker shared by any number of tasks, \<open>acquire\<close> and
  \<open>record_terminal\<close> do to the meaning of the breaker (closed with a count, open until a moment, half
  open) what the abstract breaker does, and grant, probe or reject as it does.\<close>

theorem breaker_refines:
  assumes "breaker_ok c" and "reachable sys_init (breaker_step c) s"
  shows "spec_acquire now (abs_state (sys_breaker s)) =
      (granted (fst (acquire (Some c) now (sys_breaker s))), abs_state (snd (acquire (Some c) now (sys_breaker s)))) \<and>
    spec_record c now (pm_probe p) (terminal_of ok f) (abs_state (sys_breaker s)) =
      abs_state (snd (record_terminal (Some c) now p ok f (sys_breaker s)))"
proof -
  have "breaker_inv c (sys_breaker s)" using brk.inv_reachable [OF assms(2)] assms(1) by (simp add: sys_inv_def)
  then show ?thesis by (intro conjI acquire_refines record_refines)
qed

lemma demo_config_ok: "breaker_ok demo_config"
  by (simp add: breaker_ok_def demo_config_def)

theorem breaker_refines_witness:
  "breaker_ok demo_config \<and> reachable sys_init (breaker_step demo_config) sys_start \<and>
   spec_acquire 0 (abs_state (sys_breaker sys_start)) =
      (granted (fst (acquire (Some demo_config) 0 (sys_breaker sys_start))),
       abs_state (snd (acquire (Some demo_config) 0 (sys_breaker sys_start))))"
  using breaker_refines [of demo_config sys_start 0] sys_start_reachable [of demo_config] demo_config_ok by simp

text \<open>In every reachable state a probe is in flight exactly when the breaker is half open, and
  a closed breaker has counted fewer consecutive failures than the threshold.\<close>

theorem breaker_invariant:
  assumes "breaker_ok c" and "reachable sys_init (breaker_step c) s"
  shows "(br_probe_in_flight (sys_breaker s) \<longleftrightarrow> br_state (sys_breaker s) = Half_Open) \<and>
    0 \<le> br_consecutive_failures (sys_breaker s) \<and>
    (br_state (sys_breaker s) = Closed \<longrightarrow> br_consecutive_failures (sys_breaker s) < cb_failure_threshold c)"
  using brk.inv_reachable [OF assms(2)] assms(1) by (simp add: sys_inv_def breaker_inv_def)

theorem breaker_invariant_witness:
  "breaker_ok demo_config \<and> reachable sys_init (breaker_step demo_config) sys_start \<and>
   br_consecutive_failures (sys_breaker sys_start) < cb_failure_threshold demo_config"
  using breaker_invariant [of demo_config sys_start] sys_start_reachable [of demo_config]
  by (simp add: demo_config_ok sys_start_def breaker_init_def)

text \<open>A fresh breaker stays closed through fewer consecutive provider failures than its threshold;
  the failure that reaches the threshold opens it, it then rejects every call before the deadline that
  failure set, and the first call at or after the deadline is let through as a probe.\<close>

theorem breaker_opens:
  assumes "breaker_ok c" and "int (length (ts @ [t])) = cb_failure_threshold c"
  shows "fst (acquire (Some c) now (fail_at c ts breaker_init)) = Inr CircuitPermit \<and>
    (let b = fail_at c (ts @ [t]) breaker_init
     in if now < open_deadline c t then acquire (Some c) now b = (Inl circuit_open_error, b)
        else fst (acquire (Some c) now b) = Inr \<lparr>pm_probe = True, pm_events = [''half_open'']\<rparr>)"
proof -
  let ?b = "fail_at c (ts @ [t]) breaker_init"
  have below: "fail_at c ts breaker_init = breaker_init\<lparr>br_consecutive_failures := int (length ts)\<rparr>"
    using assms(2) by (intro fail_at_below) simp
  then have "fst (acquire (Some c) now (fail_at c ts breaker_init)) = Inr CircuitPermit"
    by (simp add: acquire_closed breaker_init_def)
  moreover have "\<not> br_probe_in_flight ?b"
    using below by (simp add: fail_at_def record_terminal_def CircuitPermit_def breaker_init_def Let_def)
  ultimately show ?thesis using fail_at_threshold [OF assms] by (simp add: acquire_def Let_def)
qed

theorem breaker_opens_witness:
  "breaker_ok demo_config \<and> int (length ([] @ [0 :: rat])) = cb_failure_threshold demo_config \<and>
   fst (acquire (Some demo_config) 1 (fail_at demo_config ([] @ [0]) breaker_init)) =
     Inr \<lparr>pm_probe = True, pm_events = [''half_open'']\<rparr>"
  using breaker_opens [of demo_config "[]" 0 1] demo_config_ok by (simp add: Let_def)

text \<open>Two probes can be out at once. The documentation says that exactly one concurrent half-open probe
  is admitted; a late success of a call that started before the breaker opened closes it under the
  probe, and the breaker may open and hand out a second probe while the first is running.\<close>

theorem two_probes_out:
  "\<exists>s. reachable sys_init (breaker_step demo_config) s \<and> length (filter pm_probe (sys_out s)) = 2"
  using late_success_run exec_events_reachable [OF sys_start_reachable] by blast

end
