(* ===== verification/Sha256.thy ===== *)
theory Sha256
  imports PyStr "HOL-Library.Word"
begin

text \<open>
  The digest behind the deterministic draws of the worker. \<open>hashlib.sha256\<close> of a text is SHA-256
  (FIPS 180-4) of its UTF-8 bytes; a draw is the first eight bytes of the digest, read as a big-endian
  integer and divided by \<open>2 ^ 64\<close> in floating point. The components that draw take the digest
  function as an argument, so their theorems hold for every digest function; the locale
  \<open>digest_function\<close> states what they use of it and \<open>sha256\<close> is its instance.
\<close>

unbundle bit_operations_syntax

section \<open>SHA-256\<close>

type_synonym word32 = "32 word"

text \<open>
  The constants are the first 32 bits of the fractional parts of roots of the first primes: cube roots
  of 64 primes for the rounds, square roots of 8 primes for the initial state. \<open>root_bits\<close> finds the
  integer root bit by bit, and the conversion to a word drops its integral part.
\<close>

fun root_bits :: "nat \<Rightarrow> int \<Rightarrow> nat \<Rightarrow> int \<Rightarrow> int" where
  "root_bits k n 0 r = r"
| "root_bits k n (Suc b) r = root_bits k n b (if (r + 2 ^ b) ^ k \<le> n then r + 2 ^ b else r)"

definition frac_root :: "nat \<Rightarrow> int \<Rightarrow> word32" where
  "frac_root k p = of_int (root_bits k (p * 2 ^ (32 * k)) 37 0)"

definition primes_to :: "int \<Rightarrow> int list" where
  "primes_to n = filter (\<lambda>p. list_all (\<lambda>d. p mod d \<noteq> 0) [2..p - 1]) [2..n]"

definition sha_K :: "word32 list" where
  "sha_K = map (frac_root 3) (primes_to 311)"

definition sha_H0 :: "word32 list" where
  "sha_H0 = map (frac_root 2) (primes_to 19)"

definition ror32 :: "nat \<Rightarrow> word32 \<Rightarrow> word32" where
  "ror32 n x = (drop_bit n x) OR (push_bit (32 - n) x)"

definition sha_ch :: "word32 \<Rightarrow> word32 \<Rightarrow> word32 \<Rightarrow> word32" where
  "sha_ch x y z = (x AND y) XOR ((NOT x) AND z)"

definition sha_maj :: "word32 \<Rightarrow> word32 \<Rightarrow> word32 \<Rightarrow> word32" where
  "sha_maj x y z = (x AND y) XOR (x AND z) XOR (y AND z)"

definition big_sigma0 :: "word32 \<Rightarrow> word32" where
  "big_sigma0 x = ror32 2 x XOR ror32 13 x XOR ror32 22 x"

definition big_sigma1 :: "word32 \<Rightarrow> word32" where
  "big_sigma1 x = ror32 6 x XOR ror32 11 x XOR ror32 25 x"

definition small_sigma0 :: "word32 \<Rightarrow> word32" where
  "small_sigma0 x = ror32 7 x XOR ror32 18 x XOR drop_bit 3 x"

definition small_sigma1 :: "word32 \<Rightarrow> word32" where
  "small_sigma1 x = ror32 17 x XOR ror32 19 x XOR drop_bit 10 x"

text \<open>The message schedule, with the most recent word first.\<close>

fun sha_extend :: "nat \<Rightarrow> word32 list \<Rightarrow> word32 list" where
  "sha_extend 0 ws = ws"
| "sha_extend (Suc k) ws =
     sha_extend k ((small_sigma1 (ws ! 1) + ws ! 6 + small_sigma0 (ws ! 14) + ws ! 15) # ws)"

fun sha_round :: "word32 \<times> word32 \<times> word32 \<times> word32 \<times> word32 \<times> word32 \<times> word32 \<times> word32 \<Rightarrow>
    word32 \<times> word32 \<Rightarrow> word32 \<times> word32 \<times> word32 \<times> word32 \<times> word32 \<times> word32 \<times> word32 \<times> word32" where
  "sha_round (a, b, c, d, e, f, g, h) (k, w) =
     (let t1 = h + big_sigma1 e + sha_ch e f g + k + w;
          t2 = big_sigma0 a + sha_maj a b c
      in (t1 + t2, a, b, c, d + t1, e, f, g))"

fun sha_block :: "word32 list \<Rightarrow> word32 list \<Rightarrow> word32 list" where
  "sha_block [a, b, c, d, e, f, g, h] ws =
     (case foldl sha_round (a, b, c, d, e, f, g, h) (zip sha_K (rev (sha_extend 48 (rev ws)))) of
        (a', b', c', d', e', f', g', h') \<Rightarrow>
          [a + a', b + b', c + c', d + d', e + e', f + f', g + g', h + h'])"
| "sha_block hs ws = hs"

text \<open>Big-endian numbers: of a byte list, and of a number in a fixed number of bytes.\<close>

definition be_nat :: "nat list \<Rightarrow> nat" where
  "be_nat bs = foldl (\<lambda>n b. 256 * n + b) 0 bs"

fun be_bytes :: "nat \<Rightarrow> nat \<Rightarrow> nat list" where
  "be_bytes 0 n = []"
| "be_bytes (Suc k) n = be_bytes k (n div 256) @ [n mod 256]"

definition sha_pad :: "nat list \<Rightarrow> nat list" where
  "sha_pad bs = bs @ [128] @ replicate ((119 - length bs mod 64) mod 64) 0 @ be_bytes 8 (8 * length bs)"

fun sha_words :: "nat list \<Rightarrow> word32 list" where
  "sha_words (a # b # c # d # bs) = of_nat (be_nat [a, b, c, d]) # sha_words bs"
| "sha_words _ = []"

fun sha_blocks :: "nat \<Rightarrow> word32 list \<Rightarrow> word32 list \<Rightarrow> word32 list" where
  "sha_blocks 0 hs ws = hs"
| "sha_blocks (Suc n) hs ws = sha_blocks n (sha_block hs (take 16 ws)) (drop 16 ws)"

definition sha256 :: "nat list \<Rightarrow> nat list" where
  "sha256 bs =
     (let ws = sha_words (sha_pad bs)
      in concat (map (\<lambda>w. be_bytes 4 (unat w)) (sha_blocks (length ws div 16) sha_H0 ws)))"

section \<open>Draws\<close>

definition utf8_bytes :: "string \<Rightarrow> nat list" where
  "utf8_bytes s =
     concat (map (\<lambda>c. let n = of_char c in if n < 128 then [n] else [192 + n div 64, 128 + n mod 64]) s)"

text \<open>\<open>"\x00".join(fields)\<close>, the material of a draw.\<close>

definition material :: "string list \<Rightarrow> string" where
  "material fields = join_str [CHR 0x00] fields"

definition draw :: "(nat list \<Rightarrow> nat list) \<Rightarrow> string list \<Rightarrow> rat" where
  "draw digest fields =
     int_truediv (int (be_nat (take 8 (digest (utf8_bytes (material fields)))))) (2 ^ 64)"

section \<open>The contract of a digest function\<close>

locale digest_function =
  fixes digest :: "nat list \<Rightarrow> nat list"
  assumes digest_length: "length (digest bs) = 32"
    and digest_bytes: "b \<in> set (digest bs) \<Longrightarrow> b < 256"
begin

lemma be_nat_digest: "be_nat (take 8 (digest bs)) < 2 ^ 64"
proof -
  have bound: "be_nat xs < 256 ^ length xs" if "\<forall>x \<in> set xs. x < 256" for xs
    using that
  proof (induction xs rule: rev_induct)
    case Nil
    then show ?case by (simp add: be_nat_def)
  next
    case (snoc x xs)
    then show ?case by (simp add: be_nat_def)
  qed
  have "be_nat (take 8 (digest bs)) < 256 ^ length (take 8 (digest bs))"
    using digest_bytes by (intro bound) (blast dest: in_set_takeD)
  then show ?thesis by (simp add: digest_length)
qed

lemma draw_unit: "0 \<le> draw digest fields" "draw digest fields \<le> 1"
proof -
  define n where "n = be_nat (take 8 (digest (utf8_bytes (material fields))))"
  have n: "n < 2 ^ 64" unfolding n_def by (rule be_nat_digest)
  have d: "draw digest fields = f64 (of_nat n / 2 ^ 64)" by (simp add: draw_def int_truediv_def n_def)
  show "0 \<le> draw digest fields" unfolding d by (rule f64_nonneg) simp
  have "(of_nat n :: rat) \<le> 2 ^ 64" using n by (metis less_imp_le of_nat_le_iff of_nat_numeral of_nat_power)
  then show "draw digest fields \<le> 1" unfolding d by (intro f64_le_1) (simp add: divide_le_eq)
qed

end

lemma length_be_bytes [simp]: "length (be_bytes k n) = k"
  by (induction k n rule: be_bytes.induct) auto

lemma be_bytes_byte: "b \<in> set (be_bytes k n) \<Longrightarrow> b < 256"
  by (induction k n rule: be_bytes.induct) auto

lemma length_sha_block: "length (sha_block hs ws) = length hs"
  by (induction hs ws rule: sha_block.induct) (auto split: prod.splits)

lemma length_sha_blocks: "length (sha_blocks n hs ws) = length hs"
  by (induction n hs ws rule: sha_blocks.induct) (auto simp: length_sha_block)

lemma length_sha_H0: "length sha_H0 = 8"
  by code_simp

interpretation sha: digest_function sha256
proof
  fix bs
  have "length (concat (map (\<lambda>w. be_bytes 4 (unat w)) hs)) = 4 * length hs" for hs :: "word32 list"
    by (induction hs) auto
  then show "length (sha256 bs) = 32"
    by (simp add: sha256_def Let_def length_sha_blocks length_sha_H0)
next
  fix b bs
  assume "b \<in> set (sha256 bs)"
  then show "b < 256" by (auto simp: sha256_def Let_def dest: be_bytes_byte)
qed

end
