(* ===== verification/Retry.thy ===== *)
theory Retry
  imports Config_Types Errors Sha256
begin

text \<open>
  \<open>worker/src/agentstorm_worker/retry.py\<close>: how long to wait before a full-Agent retry and whether
  an error may be retried at all. The digest of the jitter is an argument (theory \<open>Sha256\<close>).
\<close>

definition retry_backoff_ms ::
  "(nat list \<Rightarrow> nat list) \<Rightarrow> retry_config \<Rightarrow> int option \<Rightarrow> string \<Rightarrow> nat \<Rightarrow> nat \<Rightarrow> int res" where
  "retry_backoff_ms digest config seed case_id iteration failed_attempt =
     (let exponential = rt_initial_backoff_ms config * 2 ^ (failed_attempt - 1);
          capped = min exponential (rt_max_backoff_ms config)
      in if rt_jitter_ratio config = 0 then Inr capped
         else
           (let seed_or_0 = (case seed of None \<Rightarrow> 0 | Some s \<Rightarrow> s);
                d = draw digest [str_of_int seed_or_0, case_id, str_of_nat iteration,
                                 str_of_nat failed_attempt, ''retry-jitter''];
                factor = fadd (fsub 1 (rt_jitter_ratio config)) (fmul (fmul 2 (rt_jitter_ratio config)) d)
            in rbind (float_of_int capped) (\<lambda>x.
               Inr (min (rt_max_backoff_ms config) (max 0 (round_half_even (fmul x factor)))))))"

definition retry_eligibility :: "execution_error \<Rightarrow> retry_config \<Rightarrow> string" where
  "retry_eligibility error config =
     (if ee_category error \<noteq> ''provider'' \<or> ee_code error = ''circuit_open'' then ''not_retryable''
      else if ee_safe_to_retry error then ''retry_safe''
      else if ee_ambiguous error then
        (if rt_allow_ambiguous_retries config then ''retry_ambiguous'' else ''ambiguous_blocked'')
      else ''not_retryable'')"

text \<open>\<open>decision.startswith("retry_")\<close>, the test the runner makes of a decision.\<close>

definition is_retry :: "string \<Rightarrow> bool" where
  "is_retry decision = startswith decision ''retry_''"

section \<open>Eligibility\<close>

lemma is_retry_values [simp, py_simps]:
  "is_retry ''retry_safe''" "is_retry ''retry_ambiguous''"
  "\<not> is_retry ''not_retryable''" "\<not> is_retry ''ambiguous_blocked''" "\<not> is_retry ''not_needed''"
  "\<not> is_retry ''half_open_no_retry''" "\<not> is_retry ''attempt_limit''"
  "\<not> is_retry ''backoff_budget''" "\<not> is_retry ''time_budget''"
  by (simp_all add: is_retry_def)

lemma retry_eligibility_iff:
  "is_retry (retry_eligibility e c) \<longleftrightarrow>
     ee_category e = ''provider'' \<and> ee_code e \<noteq> ''circuit_open'' \<and>
     (ee_safe_to_retry e \<or> ee_ambiguous e \<and> rt_allow_ambiguous_retries c)"
  by (simp add: retry_eligibility_def)

lemma retry_eligibility_range:
  "retry_eligibility e c \<in> {''not_retryable'', ''retry_safe'', ''retry_ambiguous'', ''ambiguous_blocked''}"
  by (simp add: retry_eligibility_def)

section \<open>Backoff\<close>



text \<open>The backoff exists whenever the cap is a number that a double holds exactly.\<close>

lemma float_of_int_exact: "\<bar>i\<bar> \<le> 2 ^ 53 \<Longrightarrow> float_of_int i = Inr (of_int i)"
proof -
  assume i: "\<bar>i\<bar> \<le> 2 ^ 53"
  have "\<bar>of_int i :: rat\<bar> \<le> 2 ^ 53"
    using i by (metis of_int_abs of_int_le_iff of_int_numeral of_int_power)
  also have "(2 :: rat) ^ 53 < 2 ^ 1024" by (rule power_strict_increasing) simp_all
  finally show ?thesis using f64_of_int [OF i] by (simp add: float_of_int_def)
qed


text \<open>
  Jitter stays in its window. With a draw in the unit interval the factor lies between the double
  \<open>1 - jitter_ratio\<close> and the double sum at draw 1, so the wait lies between the two rounded ends,
  cut at the configured maximum.
\<close>

definition jitter_low :: "retry_config \<Rightarrow> rat" where
  "jitter_low c = fadd (fsub 1 (rt_jitter_ratio c)) 0"

definition jitter_high :: "retry_config \<Rightarrow> rat" where
  "jitter_high c = fadd (fsub 1 (rt_jitter_ratio c)) (fmul 2 (rt_jitter_ratio c))"

lemma fadd_mono: "a \<le> b \<Longrightarrow> x \<le> y \<Longrightarrow> fadd a x \<le> fadd b y"
  by (simp add: fadd_def f64_mono add_mono)

lemma fmul_mono: "0 \<le> a \<Longrightarrow> x \<le> y \<Longrightarrow> fmul a x \<le> fmul a y"
  by (simp add: fmul_def f64_mono mult_left_mono)

context digest_function
begin

lemma retry_backoff_window:
  assumes ok: "retry_ok c" and j: "rt_jitter_ratio c \<noteq> 0" and m: "rt_max_backoff_ms c \<le> 2 ^ 53"
    and b: "retry_backoff_ms digest c seed cid it n = Inr b"
  defines "capped \<equiv> min (rt_initial_backoff_ms c * 2 ^ (n - 1)) (rt_max_backoff_ms c)"
  shows "min (rt_max_backoff_ms c) (round_half_even (fmul (of_int capped) (jitter_low c))) \<le> b"
    and "b \<le> max 0 (round_half_even (fmul (of_int capped) (jitter_high c)))"
proof -
  have cap0: "0 \<le> capped" using ok by (simp add: capped_def retry_ok_def)
  have cap1: "\<bar>capped\<bar> \<le> 2 ^ 53" using cap0 m by (simp add: capped_def min_def split: if_splits)
  have jr: "0 \<le> rt_jitter_ratio c" using ok by (simp add: retry_ok_def)
  define d where "d = draw digest [str_of_int (case seed of None \<Rightarrow> 0 | Some s \<Rightarrow> s), cid, str_of_nat it,
      str_of_nat n, ''retry-jitter'']"
  have d: "0 \<le> d" "d \<le> 1" unfolding d_def by (rule draw_unit)+
  define g where "g = fmul 2 (rt_jitter_ratio c)"
  define h where "h = fadd (fsub 1 (rt_jitter_ratio c)) (fmul g d)"
  have g0: "0 \<le> g" using jr by (simp add: g_def fmul_def f64_nonneg)
  have g1: "fmul g 1 = g" by (simp add: g_def fmul_def)
  have gd: "0 \<le> fmul g d" "fmul g d \<le> g"
    using fmul_mono [OF g0 d(1)] fmul_mono [OF g0 d(2)] g1 by (simp_all add: fmul_def)
  have "jitter_low c \<le> h" unfolding h_def jitter_low_def by (rule fadd_mono) (simp_all add: gd)
  then have low: "round_half_even (fmul (of_int capped) (jitter_low c)) \<le> round_half_even (fmul (of_int capped) h)"
    using cap0 by (intro round_half_even_mono fmul_mono) simp_all
  have "h \<le> jitter_high c" unfolding h_def jitter_high_def g_def [symmetric] by (rule fadd_mono) (simp_all add: gd)
  then have high: "round_half_even (fmul (of_int capped) h) \<le> round_half_even (fmul (of_int capped) (jitter_high c))"
    using cap0 by (intro round_half_even_mono fmul_mono) simp_all
  have "b = min (rt_max_backoff_ms c) (max 0 (round_half_even (fmul (of_int capped) h)))"
    using b j float_of_int_exact [OF cap1]
    unfolding retry_backoff_ms_def Let_def capped_def [symmetric] d_def h_def g_def by simp
  then show "min (rt_max_backoff_ms c) (round_half_even (fmul (of_int capped) (jitter_low c))) \<le> b"
    and "b \<le> max 0 (round_half_even (fmul (of_int capped) (jitter_high c)))"
    using low high by auto
qed

end

section \<open>Properties\<close>



text \<open>Unless ambiguous retries are allowed, an exception that is not already an execution error is
  retried exactly when it is classified as a rate limit.\<close>

theorem only_rate_limits_retried:
  assumes "px_execution x = None" and "\<not> rt_allow_ambiguous_retries c"
  shows "is_retry (retry_eligibility (classify_adapter_exception a b x) c) \<longleftrightarrow>
    ee_code (classify_adapter_exception a b x) = ''rate_limited''"
  using assms
  by (auto simp: retry_eligibility_iff classify_adapter_exception_def classify_agents_exception_def
      classify_openai_exception_def ExecutionError_def Let_def split: option.splits if_splits)

theorem only_rate_limits_retried_witness:
  "is_retry (retry_eligibility (classify_adapter_exception False True
     \<lparr>px_name = ''APIStatusError'', px_classes = [APIStatusError], px_status_code = 429, px_execution = None\<rparr>)
     \<lparr>rt_max_attempts = 3, rt_initial_backoff_ms = 100, rt_max_backoff_ms = 1000,
      rt_max_cumulative_backoff_ms = 5000, rt_jitter_ratio = 0, rt_allow_ambiguous_retries = False\<rparr>)"
  by (subst only_rate_limits_retried)
     (simp_all add: classify_adapter_exception_def classify_agents_exception_def classify_openai_exception_def
        ExecutionError_def isinstance_def)

end
