(* ===== verification/Adapters.thy ===== *)
theory Adapters
  imports Errors
begin

text \<open>
  The adapter interface of \<open>worker/src/agentstorm_worker/adapters/base.py\<close> and the deterministic
  adapter of \<open>adapters/fake.py\<close>.

  One run of an adapter is an interaction tree: the adapter returns a response, raises, is stopped
  by the timeout around it or is cancelled, or it makes a call to its environment (a lifecycle
  callback or \<open>asyncio.sleep\<close>) and goes on according to the answer. A lifecycle callback may raise
  into the adapter, which is how a tool fault is injected; a sleep may be cut short by the timeout or
  by a cancellation. Adapters written against an SDK are trees the model is given.
\<close>

section \<open>Lifecycle events\<close>

text \<open>\<open>JNull\<close> in the two content fields is \<open>None\<close>.\<close>

record tool_lifecycle_event =
  te_invocation_id :: string
  te_name :: string
  te_tool_type :: string
  te_call_id :: "string option"
  te_agent_name :: "string option"
  te_arguments :: json
  te_result :: json

definition ToolLifecycleEvent :: "string \<Rightarrow> string \<Rightarrow> tool_lifecycle_event" where
  "ToolLifecycleEvent invocation_id name =
     \<lparr>te_invocation_id = invocation_id, te_name = name, te_tool_type = ''function'', te_call_id = None,
      te_agent_name = None, te_arguments = JNull, te_result = JNull\<rparr>"

record handoff_lifecycle_event =
  he_source_agent :: string
  he_target_agent :: string

section \<open>Runs\<close>

datatype adapter_call =
    ToolStarted tool_lifecycle_event
  | ToolFinished tool_lifecycle_event string
  | HandedOff handoff_lifecycle_event
  | Sleep rat

datatype answer = Done | Raised py_exc | Expired | Cancelled

datatype adapter_run =
    Returns adapter_response
  | Raises py_exc
  | TimesOut
  | IsCancelled
  | Calls adapter_call "answer \<Rightarrow> adapter_run"

text \<open>A call whose failure the adapter does not catch.\<close>

definition await_call :: "adapter_call \<Rightarrow> adapter_run \<Rightarrow> adapter_run" where
  "await_call c rest =
     Calls c (\<lambda>a. case a of Done \<Rightarrow> rest | Raised x \<Rightarrow> Raises x | Expired \<Rightarrow> TimesOut | Cancelled \<Rightarrow> IsCancelled)"

datatype outcome = ORet adapter_response | ORaise py_exc | OTimeout | OCancelled

text \<open>The run against an environment: a handler of calls over a state.\<close>

primrec interp :: "adapter_run \<Rightarrow> ('l \<Rightarrow> adapter_call \<Rightarrow> answer \<times> 'l) \<Rightarrow> 'l \<Rightarrow> outcome \<times> 'l" where
  "interp (Returns r) h l = (ORet r, l)"
| "interp (Raises x) h l = (ORaise x, l)"
| "interp TimesOut h l = (OTimeout, l)"
| "interp IsCancelled h l = (OCancelled, l)"
| "interp (Calls c k) h l = (case h l c of (a, l') \<Rightarrow> interp (k a) h l')"

lemma interp_await [simp]:
  "interp (await_call c rest) h l =
     (case h l c of (a, l') \<Rightarrow>
        (case a of Done \<Rightarrow> interp rest h l' | Raised x \<Rightarrow> (ORaise x, l')
         | Expired \<Rightarrow> (OTimeout, l') | Cancelled \<Rightarrow> (OCancelled, l')))"
  by (auto simp: await_call_def split: prod.splits answer.splits)

text \<open>A property of the state that every call keeps holds at the end of the run.\<close>

lemma interp_invariant:
  assumes "\<And>l c. P l \<Longrightarrow> P (snd (h l c))" and "P l"
  shows "P (snd (interp t h l))"
  using assms(2)
proof (induction t arbitrary: l)
  case (Calls c k)
  obtain a l' where h: "h l c = (a, l')" by force
  with assms(1) [OF Calls.prems, of c] have "P l'" by simp
  with Calls.IH [of "k a"] show ?case by (auto simp: h)
qed simp_all

text \<open>Every response the run can give, whatever it is answered.\<close>

primrec all_returns :: "(adapter_response \<Rightarrow> bool) \<Rightarrow> adapter_run \<Rightarrow> bool" where
  "all_returns P (Returns r) = P r"
| "all_returns P (Raises x) = True"
| "all_returns P TimesOut = True"
| "all_returns P IsCancelled = True"
| "all_returns P (Calls c k) = (\<forall>a. all_returns P (k a))"

lemma all_returns_await [simp]: "all_returns P (await_call c rest) = all_returns P rest"
  by (auto simp: await_call_def split: answer.splits)

lemma interp_all_returns:
  "all_returns P t \<Longrightarrow> interp t h l = (ORet r, l') \<Longrightarrow> P r"
  by (induction t arbitrary: l) (auto split: prod.splits)

section \<open>The fake adapter\<close>

definition fake_tool_event :: "test_case \<Rightarrow> tool_lifecycle_event" where
  "fake_tool_event c =
     (ToolLifecycleEvent ''fake-echo'' ''fake.echo'')
       \<lparr>te_agent_name := Some ''fake-router'', te_arguments := JObj [(''text'', JStr (tc_prompt c))]\<rparr>"

definition fake_response :: "test_case \<Rightarrow> adapter_response" where
  "fake_response c =
     \<lparr>ar_output = ''fake response: '' @ tc_prompt c, ar_input_tokens = Some 11, ar_output_tokens = Some 7,
      ar_model_call_count = Some 1, ar_tool_call_count = Some 1, ar_metadata = []\<rparr>"

text \<open>\<open>given\<close> says that a lifecycle was passed.\<close>

definition fake_run :: "rat \<Rightarrow> bool \<Rightarrow> test_case \<Rightarrow> adapter_run" where
  "fake_run delay_seconds given c =
     (let output = ''fake response: '' @ tc_prompt c in
      if given then
        await_call (ToolStarted (fake_tool_event c))
          (await_call (Sleep delay_seconds)
            (await_call (ToolFinished ((fake_tool_event c)\<lparr>te_result := JObj [(''text'', JStr output)]\<rparr>) [])
              (await_call (HandedOff \<lparr>he_source_agent = ''fake-router'', he_target_agent = ''fake-responder''\<rparr>)
                (Returns (fake_response c)))))
      else await_call (Sleep delay_seconds) (Returns (fake_response c)))"

section \<open>The contract of an adapter\<close>

text \<open>
  What the accounting of the runner needs from an adapter: whatever it is answered, the counts of a
  response it returns are not negative.
\<close>

definition usage_ok :: "adapter_response \<Rightarrow> bool" where
  "usage_ok r \<longleftrightarrow>
     (\<forall>n \<in> set_option (ar_input_tokens r). 0 \<le> n) \<and> (\<forall>n \<in> set_option (ar_output_tokens r). 0 \<le> n) \<and>
     (\<forall>n \<in> set_option (ar_model_call_count r). 0 \<le> n) \<and> (\<forall>n \<in> set_option (ar_tool_call_count r). 0 \<le> n)"

locale agent_adapter =
  fixes run :: "bool \<Rightarrow> test_case \<Rightarrow> adapter_run"
  assumes run_usage: "all_returns usage_ok (run given c)"
begin

lemma response_usage: "interp (run given c) h l = (ORet r, l') \<Longrightarrow> usage_ok r"
  by (rule interp_all_returns [OF run_usage])

end

lemma fake_run_returns: "all_returns (\<lambda>r. r = fake_response c) (fake_run d given c)"
  by (simp add: fake_run_def)

lemma all_returns_mono: "all_returns P t \<Longrightarrow> (\<And>r. P r \<Longrightarrow> Q r) \<Longrightarrow> all_returns Q t"
  by (induction t) auto

interpretation fake: agent_adapter "fake_run d" for d
proof
  fix given c
  show "all_returns usage_ok (fake_run d given c)"
    by (rule all_returns_mono [OF fake_run_returns]) (simp add: usage_ok_def fake_response_def)
qed

end
