(* ===== verification/Telemetry.thy ===== *)
theory Telemetry
  imports Config_Types
begin

text \<open>
  \<open>worker/src/agentstorm_worker/telemetry.py\<close>: spans, the sanitizer of content and the policy
  that decides whether spans pass through it.

  A span is a record of what the client exports for it. The regular expressions of the redaction
  configuration are compiled and applied by \<open>re\<close>; their effect is the argument \<open>sub\<close>, with
  \<open>sub pattern text\<close> the result of \<open>re.compile(pattern).sub("[REDACTED]", text)\<close>. The exporter
  behind the OpenTelemetry client is not modelled: a client is what it does to attributes.
\<close>

section \<open>Spans\<close>

datatype attribute_value = AStr string | ABool bool | AInt int | AFloat rat

record span =
  sp_name :: string
  sp_attributes :: "attribute_value dict"
  sp_error :: bool
  sp_ended :: bool

definition start_span :: "string \<Rightarrow> attribute_value dict \<Rightarrow> span" where
  "start_span name attributes = \<lparr>sp_name = name, sp_attributes = attributes, sp_error = False, sp_ended = False\<rparr>"

text \<open>The operations of \<open>_OpenTelemetryDetachedSpan\<close>: after \<open>end\<close> a span no longer changes.\<close>

definition set_attribute :: "string \<Rightarrow> attribute_value \<Rightarrow> span \<Rightarrow> span" where
  "set_attribute k v sp = (if sp_ended sp then sp else sp\<lparr>sp_attributes := dict_set (sp_attributes sp) k v\<rparr>)"

definition set_error :: "string \<Rightarrow> span \<Rightarrow> span" where
  "set_error error_type sp =
     (if sp_ended sp then sp
      else sp\<lparr>sp_attributes := dict_set (sp_attributes sp) ''error.type'' (AStr error_type), sp_error := True\<rparr>)"

definition end_span :: "span \<Rightarrow> span" where
  "end_span sp = sp\<lparr>sp_ended := True\<rparr>"

section \<open>The content sanitizer\<close>

definition SENSITIVE_KEY_SUFFIXES :: "string list" where
  "SENSITIVE_KEY_SUFFIXES =
     [''apikey'', ''auth'', ''authorization'', ''cookie'', ''credential'', ''credentials'', ''passphrase'',
      ''password'', ''privatekey'', ''secret'', ''sessionid'', ''token'']"

definition MAX_CONTENT_BYTES :: nat where
  "MAX_CONTENT_BYTES = 2048"

definition normalize_key :: "string \<Rightarrow> string" where
  "normalize_key value = filter (\<lambda>c. is_ascii_lower c \<or> py_isdigit c) (py_lower value)"

definition sensitive_key :: "string \<Rightarrow> bool" where
  "sensitive_key value = list_ex (\<lambda>suffix. endswith (normalize_key value) suffix) SENSITIVE_KEY_SUFFIXES"

text \<open>\<open>encoded[:n].decode("utf-8", errors="ignore")\<close>: the longest prefix that fits in \<open>n\<close> bytes.\<close>

fun utf8_take :: "nat \<Rightarrow> string \<Rightarrow> string" where
  "utf8_take n [] = []"
| "utf8_take n (c # s) = (if utf8_width c \<le> n then c # utf8_take (n - utf8_width c) s else [])"

definition sanitize_string :: "(string \<Rightarrow> string \<Rightarrow> string) \<Rightarrow> string list \<Rightarrow> string \<Rightarrow> string" where
  "sanitize_string sub patterns value =
     (let redacted = foldl (\<lambda>v p. sub p v) value patterns
      in if utf8_len redacted \<le> MAX_CONTENT_BYTES then redacted else utf8_take MAX_CONTENT_BYTES redacted)"

fun sanitize_attribute :: "(string \<Rightarrow> string \<Rightarrow> string) \<Rightarrow> string list \<Rightarrow> attribute_value \<Rightarrow> attribute_value" where
  "sanitize_attribute sub patterns (AStr s) = AStr (sanitize_string sub patterns s)"
| "sanitize_attribute sub patterns v = v"

text \<open>\<open>_clean\<close>: \<open>None\<close> is the marker \<open>_UNSUPPORTED\<close>.\<close>

fun clean :: "(string \<Rightarrow> string \<Rightarrow> string) \<Rightarrow> string list \<Rightarrow> json \<Rightarrow> json option" where
  "clean sub patterns (JStr s) = Some (JStr (sanitize_string sub patterns s))"
| "clean sub patterns (JObj d) =
     Some (JObj (concat (map (\<lambda>(k, v). if sensitive_key k then []
                                       else case clean sub patterns v of None \<Rightarrow> [] | Some w \<Rightarrow> [(k, w)]) d)))"
| "clean sub patterns (JList vs) =
     Some (JList (concat (map (\<lambda>v. case clean sub patterns v of None \<Rightarrow> [] | Some w \<Rightarrow> [w]) vs)))"
| "clean sub patterns (JOpaque t) = None"
| "clean sub patterns v = Some v"

definition content ::
  "(rat \<Rightarrow> string) \<Rightarrow> (string \<Rightarrow> string \<Rightarrow> string) \<Rightarrow> string list \<Rightarrow> json \<Rightarrow> string option" where
  "content frep sub patterns value =
     (case value of
        JStr s \<Rightarrow> Some (sanitize_string sub patterns s)
      | _ \<Rightarrow>
          (case clean sub patterns value of
             None \<Rightarrow> None
           | Some cleaned \<Rightarrow>
               if has_nonfinite cleaned then None
               else (case json_dumps frep cleaned of
                       Inl _ \<Rightarrow> None
                     | Inr rendered \<Rightarrow> Some (sanitize_string sub patterns rendered))))"

text \<open>
  The object \<open>ContentSanitizer\<close>: its patterns, and the two parameters it is modelled over (the
  shortest rendering of a double, and the substitution of a pattern).
\<close>

record content_sanitizer =
  san_frep :: "rat \<Rightarrow> string"
  san_sub :: "string \<Rightarrow> string \<Rightarrow> string"
  san_patterns :: "string list"

definition sanitizer_string :: "content_sanitizer \<Rightarrow> string \<Rightarrow> string" where
  "sanitizer_string s value = sanitize_string (san_sub s) (san_patterns s) value"

definition sanitizer_content :: "content_sanitizer \<Rightarrow> json \<Rightarrow> string option" where
  "sanitizer_content s value = content (san_frep s) (san_sub s) (san_patterns s) value"

section \<open>Clients and the policy\<close>

datatype telemetry_client = NoopTelemetry | OpenTelemetryClient | SanitizingTelemetry telemetry_client "string list"

definition telemetry_with_policy :: "telemetry_client \<Rightarrow> telemetry_config \<Rightarrow> telemetry_client" where
  "telemetry_with_policy client config =
     (if tl_content_mode config \<noteq> ''redacted'' then client
      else case client of
        SanitizingTelemetry _ _ \<Rightarrow> client
      | _ \<Rightarrow> SanitizingTelemetry client (td_patterns (tl_redaction config)))"

text \<open>
  What a client makes of the attributes of a span, given when it starts or set later, on their way to
  the exporter; \<open>None\<close> where nothing is exported at all.
\<close>

fun export_attributes ::
  "(string \<Rightarrow> string \<Rightarrow> string) \<Rightarrow> telemetry_client \<Rightarrow> attribute_value dict \<Rightarrow> attribute_value dict option" where
  "export_attributes sub NoopTelemetry d = None"
| "export_attributes sub OpenTelemetryClient d = Some d"
| "export_attributes sub (SanitizingTelemetry client patterns) d =
     export_attributes sub client (map (\<lambda>(k, v). (k, sanitize_attribute sub patterns v)) d)"

definition boolean_environment :: "string option \<Rightarrow> string \<Rightarrow> bool \<Rightarrow> bool res" where
  "boolean_environment value name fallback =
     (case value of
        None \<Rightarrow> Inr fallback
      | Some v \<Rightarrow>
          if v = [] then Inr fallback
          else (let normalized = py_lower (py_strip v) in
                if normalized = ''true'' then Inr True
                else if normalized = ''false'' then Inr False
                else Inl (ValueError (name @ '' must be true or false''))))"

text \<open>
  \<open>otel_installed\<close> says whether the OpenTelemetry packages can be imported.
\<close>

definition telemetry_from_environment ::
  "string option \<Rightarrow> bool \<Rightarrow> telemetry_config \<Rightarrow> telemetry_client res" where
  "telemetry_from_environment otel_enabled otel_installed config =
     rbind (boolean_environment otel_enabled ''AGENTSTORM_OTEL_ENABLED'' False) (\<lambda>enabled.
     if \<not> enabled then
       raise_if (tl_content_mode config = ''redacted'')
         (RuntimeError ''redacted telemetry requires OpenTelemetry to be enabled'') (Inr NoopTelemetry)
     else
       raise_if (\<not> otel_installed)
         (RuntimeError ''OpenTelemetry is enabled but telemetry dependencies are not installed; install agentstorm-worker[telemetry]'')
         (Inr (telemetry_with_policy OpenTelemetryClient config)))"

section \<open>What the sanitizer guarantees\<close>

lemma utf8_take_len: "utf8_len (utf8_take n s) \<le> n"
  by (induction n s rule: utf8_take.induct) auto

lemma utf8_take_prefix: "\<exists>t. s = utf8_take n s @ t"
  by (induction n s rule: utf8_take.induct) auto

text \<open>Nothing that fits is cut: the prefix cannot be extended by the next character.\<close>

lemma utf8_take_maximal:
  "s = utf8_take n s @ c # t \<Longrightarrow> n < utf8_len (utf8_take n s) + utf8_width c"
proof (induction n s rule: utf8_take.induct)
  case (2 n d s)
  then show ?case by (auto split: if_splits)
qed simp

lemma sanitize_string_len: "utf8_len (sanitize_string sub patterns s) \<le> MAX_CONTENT_BYTES"
  by (simp add: sanitize_string_def Let_def utf8_take_len)

lemma sanitize_string_short:
  "utf8_len s \<le> MAX_CONTENT_BYTES \<Longrightarrow> sanitize_string sub [] s = s"
  by (simp add: sanitize_string_def)

text \<open>No key of a cleaned value is sensitive, at any depth, and every string in it is bounded.\<close>

fun json_clean :: "json \<Rightarrow> bool" where
  "json_clean (JStr s) = (utf8_len s \<le> MAX_CONTENT_BYTES)"
| "json_clean (JObj d) = list_all (\<lambda>(k, v). \<not> sensitive_key k \<and> json_clean v) d"
| "json_clean (JList vs) = list_all json_clean vs"
| "json_clean (JOpaque t) = False"
| "json_clean v = True"

lemma clean_json_clean: "clean sub patterns v = Some w \<Longrightarrow> json_clean w"
proof (induction sub patterns v arbitrary: w rule: clean.induct)
  case (2 sub patterns d)
  then show ?case
    by (fastforce simp: list_all_iff split: if_splits option.splits)
next
  case (3 sub patterns vs)
  then show ?case
    by (fastforce simp: list_all_iff split: option.splits)
qed (auto simp: sanitize_string_len)

lemma content_len: "content frep sub patterns v = Some s \<Longrightarrow> utf8_len s \<le> MAX_CONTENT_BYTES"
  by (auto simp: content_def sanitize_string_len split: json.splits option.splits if_splits sum.splits)

lemma sanitizer_len:
  "utf8_len (sanitizer_string s v) \<le> MAX_CONTENT_BYTES"
  "sanitizer_content s w = Some t \<Longrightarrow> utf8_len t \<le> MAX_CONTENT_BYTES"
  by (simp_all add: sanitizer_string_def sanitizer_content_def sanitize_string_len content_len)

section \<open>The interface of a sanitizer\<close>

text \<open>
  The clients of a sanitizer (the spans of the runner and of the tool lifecycle) rely on one law: a
  sanitized text is bounded. The client lemma is about whatever a span exports.
\<close>

locale text_sanitizer =
  fixes san :: "string \<Rightarrow> string" and limit :: nat
  assumes san_len: "utf8_len (san s) \<le> limit"
begin

definition attr_bounded :: "attribute_value \<Rightarrow> bool" where
  "attr_bounded v = (case v of AStr s \<Rightarrow> utf8_len s \<le> limit | _ \<Rightarrow> True)"

definition san_attr :: "attribute_value \<Rightarrow> attribute_value" where
  "san_attr v = (case v of AStr s \<Rightarrow> AStr (san s) | _ \<Rightarrow> v)"

lemma san_attr_bounded: "attr_bounded (san_attr v)"
  by (cases v) (auto simp: attr_bounded_def san_attr_def san_len)

lemma san_dict_bounded: "(k, v) \<in> set (map (\<lambda>(k, v). (k, san_attr v)) d) \<Longrightarrow> attr_bounded v"
  by (auto simp: san_attr_bounded)

end

interpretation cs: text_sanitizer "sanitize_string sub patterns" MAX_CONTENT_BYTES for sub patterns
  by unfold_locales (rule sanitize_string_len)

lemma sanitize_attribute_eq: "sanitize_attribute sub patterns v = cs.san_attr sub patterns v"
  by (cases v) (simp_all add: cs.san_attr_def)

lemma export_bounded:
  assumes "export_attributes sub (SanitizingTelemetry client patterns) d = Some e"
    and "client \<in> {NoopTelemetry, OpenTelemetryClient}" and "(k, AStr s) \<in> set e"
  shows "utf8_len s \<le> MAX_CONTENT_BYTES"
proof -
  from assms(1,2) have "e = map (\<lambda>(k, v). (k, cs.san_attr sub patterns v)) d"
    by (auto simp: sanitize_attribute_eq)
  with assms(3) have "cs.attr_bounded (AStr s)" by (metis cs.san_dict_bounded)
  then show ?thesis by (simp add: cs.attr_bounded_def)
qed

section \<open>Properties\<close>

text \<open>C37: what is left of a value after cleaning has no sensitive key at any depth, no object that is not JSON,
  and no string of more than 2048 bytes.\<close>

theorem clean_removes_secrets:
  assumes "clean sub patterns v = Some w"
  shows "json_clean w"
  using assms by (rule clean_json_clean)

theorem clean_removes_secrets_witness:
  "json_clean (JObj [(''query'', JStr ''weather''), (''nested'', JObj [])])"
  by (rule clean_removes_secrets [of "\<lambda>_ s. s" "[]" "JObj [(''query'', JStr ''weather''), (''API-Key'', JStr ''sk-1''),
        (''nested'', JObj [(''access_token'', JStr ''t'')]), (''handle'', JOpaque ''socket'')]"]) code_simp

text \<open>In redacted mode the exporter gets no string attribute of more than 2048 bytes, whichever client was given.\<close>

theorem redacted_exports_bounded:
  assumes "tl_content_mode config = ''redacted''" and "client \<in> {NoopTelemetry, OpenTelemetryClient}"
    and "export_attributes sub (telemetry_with_policy client config) d = Some e" and "(k, AStr s) \<in> set e"
  shows "utf8_len s \<le> MAX_CONTENT_BYTES"
proof -
  have "telemetry_with_policy client config = SanitizingTelemetry client (td_patterns (tl_redaction config))"
    using assms(1,2) by (auto simp: telemetry_with_policy_def)
  with assms show ?thesis by (metis export_bounded)
qed

theorem redacted_exports_bounded_witness:
  "export_attributes (\<lambda>_ s. s) (telemetry_with_policy OpenTelemetryClient
     \<lparr>tl_content_mode = ''redacted'', tl_redaction = \<lparr>td_patterns = [], td_metadata_keys = []\<rparr>\<rparr>) [(''k'', AStr ''value'')]
     = Some [(''k'', AStr ''value'')] \<and> utf8_len ''value'' \<le> MAX_CONTENT_BYTES"
proof -
  let ?c = "\<lparr>tl_content_mode = ''redacted'', tl_redaction = \<lparr>td_patterns = [], td_metadata_keys = []\<rparr>\<rparr>"
  have e: "export_attributes (\<lambda>_ s. s) (telemetry_with_policy OpenTelemetryClient ?c) [(''k'', AStr ''value'')]
     = Some [(''k'', AStr ''value'')]" by code_simp
  show ?thesis using e redacted_exports_bounded [OF _ _ e, of "''k''" "''value''"] by simp
qed

end
