(* ===== verification/Lifecycle.thy ===== *)
theory Lifecycle
  imports Adapters Telemetry "HOL-Library.Multiset"
begin

text \<open>
  \<open>_CaseLifecycle\<close> of \<open>worker/src/agentstorm_worker/runner.py\<close>: the spans of tool calls and
  handoffs of one attempt, and the path of tools.
\<close>

section \<open>The lifecycle\<close>

text \<open>\<open>lc_spans\<close> holds the detached spans that have ended, in the order they ended.\<close>

record case_lifecycle =
  lc_tools :: "span dict"
  lc_tool_path :: "string list"
  lc_spans :: "span list"

definition CaseLifecycle :: case_lifecycle where
  "CaseLifecycle = \<lparr>lc_tools = [], lc_tool_path = [], lc_spans = []\<rparr>"

definition tool_attributes :: "content_sanitizer option \<Rightarrow> tool_lifecycle_event \<Rightarrow> attribute_value dict" where
  "tool_attributes san event =
     (let attributes = [(''gen_ai.operation.name'', AStr ''execute_tool''),
                        (''gen_ai.tool.name'', AStr (te_name event)),
                        (''gen_ai.tool.type'', AStr (te_tool_type event))];
          attributes = (case te_call_id event of None \<Rightarrow> attributes
                        | Some i \<Rightarrow> dict_set attributes ''gen_ai.tool.call.id'' (AStr i));
          attributes = (case te_agent_name event of None \<Rightarrow> attributes
                        | Some n \<Rightarrow> dict_set attributes ''gen_ai.agent.name'' (AStr n))
      in case san of
           None \<Rightarrow> attributes
         | Some s \<Rightarrow>
             if te_arguments event = JNull then attributes
             else (case sanitizer_content s (te_arguments event) of
                     None \<Rightarrow> attributes
                   | Some arguments \<Rightarrow>
                       dict_set attributes ''agentstorm.content.tool.arguments'' (AStr arguments)))"

definition tool_started :: "content_sanitizer option \<Rightarrow> tool_lifecycle_event \<Rightarrow> case_lifecycle \<Rightarrow> case_lifecycle" where
  "tool_started san event l =
     (let l = l\<lparr>lc_tool_path := lc_tool_path l @ [te_name event]\<rparr>;
          l = (case dict_get (lc_tools l) (te_invocation_id event) of
                 None \<Rightarrow> l
               | Some previous \<Rightarrow>
                   l\<lparr>lc_tools := dict_del (lc_tools l) (te_invocation_id event),
                     lc_spans := lc_spans l @ [end_span (set_error ''duplicate_tool_start'' previous)]\<rparr>)
      in l\<lparr>lc_tools := dict_set (lc_tools l) (te_invocation_id event)
                         (start_span ''gen_ai.execute_tool'' (tool_attributes san event))\<rparr>)"

text \<open>The span \<open>tool_finished\<close> ends: the open one, or the one it starts when there is none.\<close>

definition pop_tool ::
  "content_sanitizer option \<Rightarrow> tool_lifecycle_event \<Rightarrow> case_lifecycle \<Rightarrow> span \<times> case_lifecycle" where
  "pop_tool san event l =
     (let l = (if dict_get (lc_tools l) (te_invocation_id event) = None then tool_started san event l else l)
      in (the (dict_get (lc_tools l) (te_invocation_id event)),
          l\<lparr>lc_tools := dict_del (lc_tools l) (te_invocation_id event)\<rparr>))"

definition tool_finished ::
  "content_sanitizer option \<Rightarrow> tool_lifecycle_event \<Rightarrow> string \<Rightarrow> case_lifecycle \<Rightarrow> case_lifecycle" where
  "tool_finished san event error_type l =
     (let (span, l) = pop_tool san event l;
          span = (if error_type \<noteq> [] then set_error error_type span else span);
          span = (case san of
                    None \<Rightarrow> span
                  | Some s \<Rightarrow>
                      if te_result event = JNull then span
                      else (case sanitizer_content s (te_result event) of
                              None \<Rightarrow> span
                            | Some result \<Rightarrow> set_attribute ''agentstorm.content.tool.result'' (AStr result) span))
      in l\<lparr>lc_spans := lc_spans l @ [end_span span]\<rparr>)"

definition handed_off :: "handoff_lifecycle_event \<Rightarrow> case_lifecycle \<Rightarrow> case_lifecycle" where
  "handed_off event l =
     l\<lparr>lc_spans := lc_spans l @ [end_span (start_span ''agentstorm.handoff''
         [(''agentstorm.handoff.source_agent'', AStr (he_source_agent event)),
          (''agentstorm.handoff.target_agent'', AStr (he_target_agent event))])]\<rparr>"

definition close :: "string \<Rightarrow> case_lifecycle \<Rightarrow> case_lifecycle" where
  "close error_type l =
     l\<lparr>lc_spans := lc_spans l @ map (\<lambda>(_, span). end_span (set_error error_type span)) (lc_tools l),
       lc_tools := []\<rparr>"

text \<open>
  The lifecycle as the environment of an adapter run. It raises nothing. The \<open>n\<close>-th sleep of
  the run ends as \<open>sleeper n\<close> says, after the seconds asked for or before.
\<close>

fun case_handler ::
  "content_sanitizer option \<Rightarrow> (nat \<Rightarrow> rat \<Rightarrow> answer) \<Rightarrow> case_lifecycle \<times> nat \<Rightarrow> adapter_call \<Rightarrow>
   answer \<times> (case_lifecycle \<times> nat)" where
  "case_handler san sleeper (l, n) (ToolStarted event) = (Done, (tool_started san event l, n))"
| "case_handler san sleeper (l, n) (ToolFinished event error_type) = (Done, (tool_finished san event error_type l, n))"
| "case_handler san sleeper (l, n) (HandedOff event) = (Done, (handed_off event l, n))"
| "case_handler san sleeper (l, n) (Sleep seconds) = (sleeper n seconds, (l, Suc n))"

section \<open>Every tool call has its span\<close>

definition is_tool_span :: "span \<Rightarrow> bool" where
  "is_tool_span sp = (sp_name sp = ''gen_ai.execute_tool'')"

definition span_tool :: "span \<Rightarrow> string" where
  "span_tool sp = (case dict_get (sp_attributes sp) ''gen_ai.tool.name'' of Some (AStr n) \<Rightarrow> n | _ \<Rightarrow> [])"

text \<open>
  The invariant: the open spans are tool spans that have not ended, the others have ended, and the
  tools of all tool spans are, with multiplicity, the tool path.
\<close>

definition lifecycle_inv :: "case_lifecycle \<Rightarrow> bool" where
  "lifecycle_inv l \<longleftrightarrow>
     dict_ok (lc_tools l) \<and>
     (\<forall>sp \<in> snd ` set (lc_tools l). is_tool_span sp \<and> \<not> sp_ended sp) \<and>
     (\<forall>sp \<in> set (lc_spans l). sp_ended sp) \<and>
     mset (map span_tool (filter is_tool_span (lc_spans l))) + mset (map (span_tool \<circ> snd) (lc_tools l))
       = mset (lc_tool_path l)"

lemma span_tool_simps [simp]:
  "span_tool (end_span sp) = span_tool sp"
  "span_tool (set_error e sp) = span_tool sp"
  "is_tool_span (end_span sp) = is_tool_span sp"
  "is_tool_span (set_error e sp) = is_tool_span sp"
  "sp_ended (end_span sp)"
  "sp_ended (set_error e sp) = sp_ended sp"
  by (simp_all add: span_tool_def end_span_def set_error_def is_tool_span_def dict_get_set)

lemma set_attribute_simps [simp]:
  "k \<noteq> ''gen_ai.tool.name'' \<Longrightarrow> span_tool (set_attribute k v sp) = span_tool sp"
  "is_tool_span (set_attribute k v sp) = is_tool_span sp"
  "sp_ended (set_attribute k v sp) = sp_ended sp"
  by (simp_all add: span_tool_def set_attribute_def is_tool_span_def dict_get_set)

lemma tool_attributes_name: "dict_get (tool_attributes san event) ''gen_ai.tool.name'' = Some (AStr (te_name event))"
  by (simp add: tool_attributes_def Let_def dict_get_def split: option.splits)

lemma start_tool_span [simp]:
  "span_tool (start_span ''gen_ai.execute_tool'' (tool_attributes san event)) = te_name event"
  "is_tool_span (start_span ''gen_ai.execute_tool'' a)"
  "\<not> sp_ended (start_span n a)"
  by (simp_all add: span_tool_def start_span_def is_tool_span_def tool_attributes_name)

lemma mset_dict_set:
  "dict_get d k = None \<Longrightarrow> mset (map (f \<circ> snd) (dict_set d k v)) = add_mset (f v) (mset (map (f \<circ> snd) d))"
  by (induction d k v rule: dict_set.induct) (auto simp: dict_get_def split: if_splits)

lemma mset_dict_del:
  "dict_ok d \<Longrightarrow> dict_get d k = Some v \<Longrightarrow>
   mset (map (f \<circ> snd) d) = add_mset (f v) (mset (map (f \<circ> snd) (dict_del d k)))"
proof (induction d)
  case (Cons e d)
  have "fst e = k \<Longrightarrow> filter (\<lambda>e. fst e \<noteq> k) d = d"
    using Cons.prems(1) by (auto simp: dict_ok_def dict_keys_def filter_id_conv) (metis fst_conv image_eqI)
  then show ?case
    using Cons by (cases e) (auto simp: dict_ok_def dict_keys_def dict_del_def dict_get_def)
qed (simp add: dict_get_def)

lemma set_dict_set_subset: "snd ` set (dict_set d k v) \<subseteq> insert v (snd ` set d)"
  by (induction d k v rule: dict_set.induct) auto

lemma set_dict_del_subset: "snd ` set (dict_del d k) \<subseteq> snd ` set d"
  by (auto simp: dict_del_def)

lemma dict_get_in: "dict_get d k = Some v \<Longrightarrow> v \<in> snd ` set d"
  unfolding dict_get_def by (metis image_eqI map_of_SomeD snd_conv)

lemma lifecycle_inv_init: "lifecycle_inv CaseLifecycle"
  by (simp add: lifecycle_inv_def CaseLifecycle_def dict_ok_def dict_keys_def)

text \<open>Starting a tool when none is open under its invocation, and ending the open one.\<close>

definition push_tool :: "string \<Rightarrow> span \<Rightarrow> case_lifecycle \<Rightarrow> case_lifecycle" where
  "push_tool i sp l = l\<lparr>lc_tools := dict_set (lc_tools l) i sp, lc_tool_path := lc_tool_path l @ [span_tool sp]\<rparr>"

definition drop_tool :: "string \<Rightarrow> span \<Rightarrow> case_lifecycle \<Rightarrow> case_lifecycle" where
  "drop_tool i sp l = l\<lparr>lc_tools := dict_del (lc_tools l) i, lc_spans := lc_spans l @ [sp]\<rparr>"

lemma lifecycle_inv_push:
  assumes "lifecycle_inv l" and "dict_get (lc_tools l) i = None" and "is_tool_span sp" and "\<not> sp_ended sp"
  shows "lifecycle_inv (push_tool i sp l)"
proof -
  have "mset (map (span_tool \<circ> snd) (dict_set (lc_tools l) i sp))
      = add_mset (span_tool sp) (mset (map (span_tool \<circ> snd) (lc_tools l)))"
    using assms(2) by (rule mset_dict_set)
  moreover have "\<forall>sp \<in> snd ` set (dict_set (lc_tools l) i sp). is_tool_span sp \<and> \<not> sp_ended sp"
    using assms set_dict_set_subset [of "lc_tools l" i sp] unfolding lifecycle_inv_def by blast
  ultimately show ?thesis
    using assms by (simp add: lifecycle_inv_def push_tool_def dict_ok_set)
qed

lemma lifecycle_inv_drop:
  assumes "lifecycle_inv l" and "dict_get (lc_tools l) i = Some old"
    and "is_tool_span sp" and "sp_ended sp" and "span_tool sp = span_tool old"
  shows "lifecycle_inv (drop_tool i sp l)"
proof -
  have "mset (map (span_tool \<circ> snd) (lc_tools l))
      = add_mset (span_tool sp) (mset (map (span_tool \<circ> snd) (dict_del (lc_tools l) i)))"
    using assms mset_dict_del by (metis lifecycle_inv_def)
  moreover have "\<forall>sp \<in> snd ` set (dict_del (lc_tools l) i). is_tool_span sp \<and> \<not> sp_ended sp"
    using assms(1) set_dict_del_subset [of "lc_tools l" i] unfolding lifecycle_inv_def by blast
  ultimately show ?thesis
    using assms by (auto simp: lifecycle_inv_def drop_tool_def dict_ok_del)
qed

lemma open_is_tool:
  "lifecycle_inv l \<Longrightarrow> dict_get (lc_tools l) i = Some sp \<Longrightarrow> is_tool_span sp \<and> \<not> sp_ended sp"
  using dict_get_in unfolding lifecycle_inv_def by fast

text \<open>\<open>tool_started\<close> is at most one \<open>drop\<close> and then one \<open>push\<close>.\<close>

lemma tool_started_steps:
  "tool_started san event l =
     push_tool (te_invocation_id event) (start_span ''gen_ai.execute_tool'' (tool_attributes san event))
       (case dict_get (lc_tools l) (te_invocation_id event) of
          None \<Rightarrow> l
        | Some previous \<Rightarrow> drop_tool (te_invocation_id event) (end_span (set_error ''duplicate_tool_start'' previous)) l)"
  by (simp add: tool_started_def push_tool_def drop_tool_def Let_def split: option.splits)

lemma lifecycle_inv_started:
  assumes "lifecycle_inv l"
  shows "lifecycle_inv (tool_started san event l)"
proof (cases "dict_get (lc_tools l) (te_invocation_id event)")
  case None
  then show ?thesis by (simp add: tool_started_steps lifecycle_inv_push assms)
next
  case (Some previous)
  let ?l = "drop_tool (te_invocation_id event) (end_span (set_error ''duplicate_tool_start'' previous)) l"
  have "lifecycle_inv ?l"
    by (rule lifecycle_inv_drop [OF assms Some]) (simp_all add: open_is_tool [OF assms Some])
  moreover have "dict_get (lc_tools ?l) (te_invocation_id event) = None"
    by (simp add: drop_tool_def dict_get_del)
  ultimately show ?thesis by (simp add: tool_started_steps Some lifecycle_inv_push)
qed

lemma started_open: "dict_get (lc_tools (tool_started san event l)) (te_invocation_id event)
    = Some (start_span ''gen_ai.execute_tool'' (tool_attributes san event))"
  by (simp add: tool_started_steps push_tool_def dict_get_set)

text \<open>The span that \<open>tool_finished\<close> exports, from the span it pops.\<close>

definition finished_span :: "content_sanitizer option \<Rightarrow> tool_lifecycle_event \<Rightarrow> string \<Rightarrow> span \<Rightarrow> span" where
  "finished_span san event error_type sp =
     (let sp = (if error_type \<noteq> [] then set_error error_type sp else sp)
      in end_span (case san of
           None \<Rightarrow> sp
         | Some s \<Rightarrow>
             if te_result event = JNull then sp
             else (case sanitizer_content s (te_result event) of
                     None \<Rightarrow> sp
                   | Some result \<Rightarrow> set_attribute ''agentstorm.content.tool.result'' (AStr result) sp)))"

lemma finished_span_simps [simp]:
  "is_tool_span (finished_span san event e sp) = is_tool_span sp"
  "sp_ended (finished_span san event e sp)"
  "span_tool (finished_span san event e sp) = span_tool sp"
  by (simp_all add: finished_span_def Let_def split: option.splits)

lemma tool_finished_steps:
  "tool_finished san event e l =
     (let l = (if dict_get (lc_tools l) (te_invocation_id event) = None then tool_started san event l else l)
      in drop_tool (te_invocation_id event)
           (finished_span san event e (the (dict_get (lc_tools l) (te_invocation_id event)))) l)"
  by (simp add: tool_finished_def pop_tool_def drop_tool_def finished_span_def Let_def
      split: option.splits)

lemma lifecycle_inv_finished:
  assumes "lifecycle_inv l"
  shows "lifecycle_inv (tool_finished san event e l)"
proof -
  define l1 where
    "l1 = (if dict_get (lc_tools l) (te_invocation_id event) = None then tool_started san event l else l)"
  have inv: "lifecycle_inv l1" using assms by (simp add: l1_def lifecycle_inv_started)
  obtain sp where sp: "dict_get (lc_tools l1) (te_invocation_id event) = Some sp"
    by (cases "dict_get (lc_tools l) (te_invocation_id event)") (auto simp: l1_def started_open)
  have "lifecycle_inv (drop_tool (te_invocation_id event) (finished_span san event e sp) l1)"
    by (rule lifecycle_inv_drop [OF inv sp]) (simp_all add: open_is_tool [OF inv sp])
  then show ?thesis by (simp add: tool_finished_steps l1_def [symmetric] sp)
qed

lemma lifecycle_inv_handed_off: "lifecycle_inv l \<Longrightarrow> lifecycle_inv (handed_off event l)"
  by (simp add: lifecycle_inv_def handed_off_def is_tool_span_def start_span_def end_span_def)

lemma lifecycle_inv_handler:
  "lifecycle_inv (fst s) \<Longrightarrow> lifecycle_inv (fst (snd (case_handler san sleeper s c)))"
  by (cases s; cases c)
     (simp_all add: lifecycle_inv_started lifecycle_inv_finished lifecycle_inv_handed_off)

lemma lifecycle_inv_interp:
  "lifecycle_inv l \<Longrightarrow> lifecycle_inv (fst (snd (interp t (case_handler san sleeper) (l, n))))"
  by (rule interp_invariant [where P = "\<lambda>s. lifecycle_inv (fst s)"]) (simp_all add: lifecycle_inv_handler)

text \<open>After \<open>close\<close> every span has ended and the tool spans are the tool path.\<close>

lemma close_complete:
  assumes "lifecycle_inv l"
  shows "lc_tools (close e l) = []" and "\<forall>sp \<in> set (lc_spans (close e l)). sp_ended sp"
    and "mset (map span_tool (filter is_tool_span (lc_spans (close e l)))) = mset (lc_tool_path l)"
proof -
  show "lc_tools (close e l) = []" by (simp add: close_def)
  show "\<forall>sp \<in> set (lc_spans (close e l)). sp_ended sp"
    using assms by (auto simp: lifecycle_inv_def close_def)
  have "filter is_tool_span (map (\<lambda>(_, sp). end_span (set_error e sp)) (lc_tools l))
      = map (\<lambda>(_, sp). end_span (set_error e sp)) (lc_tools l)"
    using assms by (auto simp: lifecycle_inv_def filter_id_conv)
  moreover have "map span_tool (map (\<lambda>(_, sp). end_span (set_error e sp)) (lc_tools l))
      = map (span_tool \<circ> snd) (lc_tools l)"
    by auto
  ultimately show "mset (map span_tool (filter is_tool_span (lc_spans (close e l)))) = mset (lc_tool_path l)"
    using assms by (simp add: lifecycle_inv_def close_def del: map_map)
qed

section \<open>Content stays out of spans\<close>

text \<open>
  Content is what the attributes under \<open>agentstorm.content.\<close> and \<open>agentstorm.case.metadata.\<close>
  carry. A span is private when such an attribute is there only in redacted mode, and is a text of
  at most \<open>MAX_CONTENT_BYTES\<close> bytes.
\<close>

definition content_key :: "string \<Rightarrow> bool" where
  "content_key k = (startswith k ''agentstorm.content.'' \<or> startswith k ''agentstorm.case.metadata.'')"

fun attr_private :: "content_sanitizer option \<Rightarrow> string \<times> attribute_value \<Rightarrow> bool" where
  "attr_private san (k, v) =
     (content_key k \<longrightarrow>
        san \<noteq> None \<and> (case v of AStr s \<Rightarrow> utf8_len s \<le> MAX_CONTENT_BYTES | _ \<Rightarrow> False))"

definition span_private :: "content_sanitizer option \<Rightarrow> span \<Rightarrow> bool" where
  "span_private san sp = list_all (attr_private san) (sp_attributes sp)"

lemma content_key_tool [simp]:
  "\<not> content_key ''gen_ai.operation.name''" "\<not> content_key ''gen_ai.tool.name''"
  "\<not> content_key ''gen_ai.tool.type''" "\<not> content_key ''gen_ai.tool.call.id''"
  "\<not> content_key ''gen_ai.agent.name''" "\<not> content_key ''error.type''"
  "\<not> content_key ''agentstorm.handoff.source_agent''" "\<not> content_key ''agentstorm.handoff.target_agent''"
  by (simp_all add: content_key_def)

lemma list_all_dict_set:
  "list_all P d \<Longrightarrow> P (k, v) \<Longrightarrow> list_all P (dict_set d k v)"
  by (induction d k v rule: dict_set.induct) auto

lemma span_private_set_attribute:
  "span_private san sp \<Longrightarrow> attr_private san (k, v) \<Longrightarrow> span_private san (set_attribute k v sp)"
  by (simp add: span_private_def set_attribute_def list_all_dict_set)

lemma span_private_set_error: "span_private san sp \<Longrightarrow> span_private san (set_error e sp)"
  by (simp add: span_private_def set_error_def list_all_dict_set)

lemma span_private_end [simp]: "span_private san (end_span sp) = span_private san sp"
  by (simp add: span_private_def end_span_def)

lemma span_private_start: "list_all (attr_private san) d \<Longrightarrow> span_private san (start_span n d)"
  by (simp add: span_private_def start_span_def)

lemma tool_attributes_private: "list_all (attr_private san) (tool_attributes san event)"
  using sanitizer_len(2)
  by (simp add: tool_attributes_def Let_def list_all_dict_set del: dict_set.simps split: option.split)

lemma finished_span_private: "span_private san sp \<Longrightarrow> span_private san (finished_span san event e sp)"
  using sanitizer_len(2)
  by (auto simp: finished_span_def Let_def span_private_set_error span_private_set_attribute split: option.splits)

definition lifecycle_private :: "content_sanitizer option \<Rightarrow> case_lifecycle \<Rightarrow> bool" where
  "lifecycle_private san l \<longleftrightarrow>
     (\<forall>sp \<in> snd ` set (lc_tools l) \<union> set (lc_spans l). span_private san sp)"

lemma spans_push:
  "snd ` set (lc_tools (push_tool i sp l)) \<union> set (lc_spans (push_tool i sp l))
     \<subseteq> insert sp (snd ` set (lc_tools l) \<union> set (lc_spans l))"
  using set_dict_set_subset [of "lc_tools l" i sp] by (simp add: push_tool_def) blast

lemma spans_drop:
  "snd ` set (lc_tools (drop_tool i sp l)) \<union> set (lc_spans (drop_tool i sp l))
     \<subseteq> insert sp (snd ` set (lc_tools l) \<union> set (lc_spans l))"
  using set_dict_del_subset [of "lc_tools l" i] by (simp add: drop_tool_def) blast

lemma lifecycle_private_push:
  "lifecycle_private san l \<Longrightarrow> span_private san sp \<Longrightarrow> lifecycle_private san (push_tool i sp l)"
  unfolding lifecycle_private_def using spans_push [of i sp l] by blast

lemma lifecycle_private_drop:
  "lifecycle_private san l \<Longrightarrow> span_private san sp \<Longrightarrow> lifecycle_private san (drop_tool i sp l)"
  unfolding lifecycle_private_def using spans_drop [of i sp l] by blast

lemma open_private: "lifecycle_private san l \<Longrightarrow> dict_get (lc_tools l) i = Some sp \<Longrightarrow> span_private san sp"
  using dict_get_in unfolding lifecycle_private_def by fast

lemma lifecycle_private_started:
  assumes "lifecycle_private san l"
  shows "lifecycle_private san (tool_started san event l)"
  unfolding tool_started_steps
  by (intro lifecycle_private_push span_private_start tool_attributes_private)
     (auto simp: assms split: option.splits
        intro!: lifecycle_private_drop span_private_set_error intro: open_private [OF assms])

lemma lifecycle_private_finished:
  assumes "lifecycle_private san l"
  shows "lifecycle_private san (tool_finished san event e l)"
proof -
  define l1 where
    "l1 = (if dict_get (lc_tools l) (te_invocation_id event) = None then tool_started san event l else l)"
  have inv: "lifecycle_private san l1" using assms by (simp add: l1_def lifecycle_private_started)
  obtain sp where sp: "dict_get (lc_tools l1) (te_invocation_id event) = Some sp"
    by (cases "dict_get (lc_tools l) (te_invocation_id event)") (auto simp: l1_def started_open)
  have "lifecycle_private san (drop_tool (te_invocation_id event) (finished_span san event e sp) l1)"
    by (intro lifecycle_private_drop inv finished_span_private open_private [OF inv sp])
  then show ?thesis by (simp add: tool_finished_steps l1_def [symmetric] sp)
qed

lemma lifecycle_private_handed_off: "lifecycle_private san l \<Longrightarrow> lifecycle_private san (handed_off event l)"
  by (simp add: lifecycle_private_def handed_off_def span_private_start ball_Un)

lemma lifecycle_private_close: "lifecycle_private san l \<Longrightarrow> lifecycle_private san (close e l)"
  by (auto simp: lifecycle_private_def close_def span_private_set_error ball_Un)

lemma lifecycle_private_handler:
  "lifecycle_private san (fst s) \<Longrightarrow> lifecycle_private san (fst (snd (case_handler san sleeper s c)))"
  by (cases s; cases c)
     (simp_all add: lifecycle_private_started lifecycle_private_finished lifecycle_private_handed_off)

lemma lifecycle_private_interp:
  "lifecycle_private san l \<Longrightarrow> lifecycle_private san (fst (snd (interp t (case_handler san sleeper) (l, n))))"
  by (rule interp_invariant [where P = "\<lambda>s. lifecycle_private san (fst s)"])
     (simp_all add: lifecycle_private_handler)

lemma lifecycle_private_init: "lifecycle_private san CaseLifecycle"
  by (simp add: lifecycle_private_def CaseLifecycle_def)

section \<open>Properties\<close>

text \<open>C36: whatever calls an adapter makes, in whatever order, once the lifecycle is closed no tool span is
  open, every span has ended, and the tools of the tool spans are, with multiplicity, the tool path.\<close>

theorem tool_spans_complete:
  "let l = fst (snd (interp t (case_handler san sleeper) (CaseLifecycle, 0)))
   in lc_tools (close e l) = [] \<and> list_all sp_ended (lc_spans (close e l)) \<and>
      mset (map span_tool (filter is_tool_span (lc_spans (close e l)))) = mset (lc_tool_path l)"
proof -
  have "lifecycle_inv (fst (snd (interp t (case_handler san sleeper) (CaseLifecycle, 0))))"
    by (rule lifecycle_inv_interp [OF lifecycle_inv_init])
  from close_complete [OF this, of e] show ?thesis by (simp add: Let_def list_all_iff)
qed

end
