(* ===== verification/Faults.thy ===== *)
theory Faults
  imports Lifecycle Sha256
begin

text \<open>
  \<open>worker/src/agentstorm_worker/faults.py\<close>: which rule of a fault scenario fires for an attempt, and
  the middleware that puts the fault between the runner and the adapter. The middleware makes a run
  (an interaction tree of theory \<open>Adapters\<close>) out of the adapter's run. SHA-256 is the argument
  \<open>digest\<close> as everywhere.
\<close>

section \<open>Selection\<close>

definition rule_applies :: "fault_rule_config \<Rightarrow> string \<Rightarrow> nat \<Rightarrow> nat \<Rightarrow> bool" where
  "rule_applies rule case_id iteration attempt \<longleftrightarrow>
     \<not> (fr_case_ids rule \<noteq> [] \<and> case_id \<notin> set (fr_case_ids rule)) \<and>
     \<not> (fr_iterations rule \<noteq> [] \<and> int iteration \<notin> set (fr_iterations rule)) \<and>
     int attempt \<in> set (fr_attempts rule)"

definition rule_draw ::
  "(nat list \<Rightarrow> nat list) \<Rightarrow> string \<Rightarrow> int \<Rightarrow> string \<Rightarrow> nat \<Rightarrow> nat \<Rightarrow> fault_rule_config \<Rightarrow> rat" where
  "rule_draw digest scenario_digest seed case_id iteration attempt rule =
     draw digest [scenario_digest, str_of_int seed, case_id, str_of_nat iteration, str_of_nat attempt, fr_name rule]"

primrec select_rule ::
  "(fault_rule_config \<Rightarrow> rat) \<Rightarrow> string \<Rightarrow> nat \<Rightarrow> nat \<Rightarrow> fault_rule_config list \<Rightarrow> fault_rule_config option" where
  "select_rule dr case_id iteration attempt [] = None"
| "select_rule dr case_id iteration attempt (rule # rules) =
     (if \<not> rule_applies rule case_id iteration attempt then select_rule dr case_id iteration attempt rules
      else if dr rule < fr_probability rule then Some rule
      else select_rule dr case_id iteration attempt rules)"

definition select_fault_rule ::
  "(nat list \<Rightarrow> nat list) \<Rightarrow> fault_scenario_config option \<Rightarrow> int option \<Rightarrow> string \<Rightarrow> nat \<Rightarrow> nat \<Rightarrow> fault_rule_config option" where
  "select_fault_rule digest scenario seed case_id iteration attempt =
     (case (scenario, seed) of
        (Some sc, Some s) \<Rightarrow>
          select_rule (rule_draw digest (fs_digest sc) s case_id iteration attempt) case_id iteration attempt (fs_rules sc)
      | _ \<Rightarrow> None)"

section \<open>The middleware\<close>

definition with_injection :: "fault_rule_config \<Rightarrow> adapter_response \<Rightarrow> adapter_response" where
  "with_injection rule response =
     response\<lparr>ar_metadata :=
       dict_set (dict_set (ar_metadata response) ''agentstorm.injected_rule'' (JStr (fr_name rule)))
         ''agentstorm.injected_fault'' (JStr (fr_fault rule))\<rparr>"

definition injected_error ::
  "fault_rule_config \<Rightarrow> string \<Rightarrow> string \<Rightarrow> string \<Rightarrow> bool \<Rightarrow> bool \<Rightarrow> adapter_response option \<Rightarrow> bool \<Rightarrow> execution_error" where
  "injected_error rule category code failure_kind ambiguous safe_to_retry response usage_complete =
     (ExecutionError category code failure_kind)
       \<lparr>ee_ambiguous := ambiguous, ee_safe_to_retry := safe_to_retry, ee_response := response,
        ee_injected_rule := fr_name rule, ee_injected_fault := fr_fault rule,
        ee_usage_complete := usage_complete\<rparr>"

text \<open>An \<open>ExecutionError\<close> as an exception object.\<close>

definition execution_exc :: "execution_error \<Rightarrow> py_exc" where
  "execution_exc e = \<lparr>px_name = ''ExecutionError'', px_classes = [], px_status_code = 0, px_execution = Some e\<rparr>"

definition http_fault_code :: "int \<Rightarrow> string" where
  "http_fault_code status =
     (if status = 429 then ''rate_limited'' else if 500 \<le> status then ''http_5xx'' else ''http_4xx'')"

definition delay_seconds :: "fault_rule_config \<Rightarrow> rat" where
  "delay_seconds rule = int_truediv (case fr_delay_ms rule of None \<Rightarrow> 0 | Some d \<Rightarrow> d) 1000"

definition fault_status :: "fault_rule_config \<Rightarrow> int" where
  "fault_status rule =
     (case fr_status_code rule of None \<Rightarrow> 500 | Some s \<Rightarrow> if s = 0 then 500 else s)"

text \<open>What the middleware does with the response of the adapter, on every run that returns one.\<close>

primrec map_returns :: "(adapter_response \<Rightarrow> adapter_run) \<Rightarrow> adapter_run \<Rightarrow> adapter_run" where
  "map_returns f (Returns r) = f r"
| "map_returns f (Raises x) = Raises x"
| "map_returns f TimesOut = TimesOut"
| "map_returns f IsCancelled = IsCancelled"
| "map_returns f (Calls c k) = Calls c (\<lambda>a. map_returns f (k a))"

text \<open>
  \<open>_ToolFaultLifecycle\<close>: \<open>delegate\<close> says that there is a lifecycle behind it, \<open>injected\<close> that the
  fault has been raised. A start of a matching tool reaches the delegate first; if that does not
  raise, the adapter gets the fault as the exception of its call. A lifecycle callback runs
  synchronously, so only a sleep can be answered by the timeout or a cancellation.
\<close>

definition tool_fault_error :: "fault_rule_config \<Rightarrow> execution_error" where
  "tool_fault_error rule = injected_error rule ''tool'' ''injected_tool_error'' ''tool'' True False None False"

definition tool_matches :: "fault_rule_config \<Rightarrow> adapter_call \<Rightarrow> bool" where
  "tool_matches rule c =
     (case c of ToolStarted event \<Rightarrow> fr_tool_name rule = [] \<or> fr_tool_name rule = te_name event | _ \<Rightarrow> False)"

primrec tool_fault :: "fault_rule_config \<Rightarrow> bool \<Rightarrow> adapter_run \<Rightarrow> bool \<Rightarrow> adapter_run" where
  "tool_fault rule delegate (Returns r) injected = Returns r"
| "tool_fault rule delegate (Raises x) injected = Raises x"
| "tool_fault rule delegate TimesOut injected = TimesOut"
| "tool_fault rule delegate IsCancelled injected = IsCancelled"
| "tool_fault rule delegate (Calls c k) injected =
     (let after = (\<lambda>a. if a = Done \<and> \<not> injected \<and> tool_matches rule c
                        then tool_fault rule delegate (k (Raised (execution_exc (tool_fault_error rule)))) True
                        else tool_fault rule delegate (k a) injected)
      in case c of
           Sleep _ \<Rightarrow> Calls c after
         | _ \<Rightarrow> if delegate then Calls c after else after Done)"

definition middleware_run ::
  "(nat list \<Rightarrow> nat list) \<Rightarrow> fault_scenario_config option \<Rightarrow> int option \<Rightarrow> (bool \<Rightarrow> test_case \<Rightarrow> adapter_run) \<Rightarrow>
   test_case \<Rightarrow> nat \<Rightarrow> nat \<Rightarrow> bool \<Rightarrow> adapter_run" where
  "middleware_run digest scenario seed adapter c iteration attempt lifecycle =
     (case select_fault_rule digest scenario seed (tc_case_id c) iteration attempt of
        None \<Rightarrow> adapter lifecycle c
      | Some rule \<Rightarrow>
          if fr_fault rule = ''latency'' then
            await_call (Sleep (delay_seconds rule))
              (map_returns (\<lambda>r. Returns (with_injection rule r)) (adapter lifecycle c))
          else if fr_fault rule = ''timeout'' then
            await_call (Sleep (delay_seconds rule))
              (Raises (execution_exc (injected_error rule ''provider'' ''timeout'' ''timeout'' True False None True)))
          else if fr_fault rule = ''rate_limit'' then
            Raises (execution_exc (injected_error rule ''provider'' ''rate_limited'' ''provider'' False True None True))
          else if fr_fault rule = ''http_error'' then
            (let status = fault_status rule
             in Raises (execution_exc (injected_error rule ''provider'' (http_fault_code status) ''provider''
                          (500 \<le> status) (status = 429) None True)))
          else
            (let run = (if fr_fault rule = ''tool_error'' then tool_fault rule lifecycle (adapter True c) False
                        else adapter lifecycle c)
             in if fr_fault rule = ''malformed_response'' then
                  map_returns (\<lambda>r. Raises (execution_exc
                    (injected_error rule ''provider'' ''malformed_response'' ''provider'' True False (Some r)
                      (ar_input_tokens r \<noteq> None \<and> ar_output_tokens r \<noteq> None)))) run
                else run))"

section \<open>Which rule fires\<close>

text \<open>The rule that fires is the first of the scenario that applies and whose draw is below its probability.\<close>

lemma select_rule_skip:
  "\<forall>q \<in> set before. \<not> (rule_applies q cid it n \<and> dr q < fr_probability q) \<Longrightarrow>
   select_rule dr cid it n (before @ rest) = select_rule dr cid it n rest"
  by (induction before) auto

lemma select_rule_None_iff:
  "select_rule dr cid it n rules = None \<longleftrightarrow>
     (\<forall>q \<in> set rules. \<not> (rule_applies q cid it n \<and> dr q < fr_probability q))"
  by (induction rules) auto

lemma select_rule_split:
  assumes "select_rule dr cid it n rules = Some r"
  shows "\<exists>before after. rules = before @ r # after \<and> rule_applies r cid it n \<and> dr r < fr_probability r \<and>
        (\<forall>q \<in> set before. \<not> (rule_applies q cid it n \<and> dr q < fr_probability q))"
  using assms
proof (induction rules)
  case (Cons q rules)
  show ?case
  proof (cases "rule_applies q cid it n \<and> dr q < fr_probability q")
    case True
    with Cons.prems have "q = r" by simp
    with True show ?thesis by fastforce
  next
    case False
    with Cons.prems have "select_rule dr cid it n rules = Some r" by (auto split: if_splits)
    from Cons.IH [OF this] obtain before after where
      "rules = before @ r # after" "rule_applies r cid it n" "dr r < fr_probability r"
      "\<forall>q \<in> set before. \<not> (rule_applies q cid it n \<and> dr q < fr_probability q)" by blast
    with False show ?thesis by (intro exI [of _ "q # before"] exI [of _ after]) auto
  qed
qed simp

lemma select_rule_Some_iff:
  "select_rule dr cid it n rules = Some r \<longleftrightarrow>
     (\<exists>before after. rules = before @ r # after \<and> rule_applies r cid it n \<and> dr r < fr_probability r \<and>
        (\<forall>q \<in> set before. \<not> (rule_applies q cid it n \<and> dr q < fr_probability q)))"
  (is "?L \<longleftrightarrow> ?R")
proof
  assume ?L
  then show ?R by (rule select_rule_split)
next
  assume ?R
  then obtain before after where "rules = before @ r # after" "rule_applies r cid it n"
    "dr r < fr_probability r" "\<forall>q \<in> set before. \<not> (rule_applies q cid it n \<and> dr q < fr_probability q)" by blast
  then show ?L by (simp add: select_rule_skip)
qed

lemma select_fault_rule_sound:
  assumes "select_fault_rule digest scenario seed cid it n = Some r"
  obtains sc s where "scenario = Some sc" and "seed = Some s" and "r \<in> set (fs_rules sc)"
    and "rule_applies r cid it n" and "rule_draw digest (fs_digest sc) s cid it n r < fr_probability r"
  using assms by (auto simp: select_fault_rule_def select_rule_Some_iff split: option.splits)

section \<open>The draw and a certain rule\<close>

text \<open>
  A draw is the first eight bytes of the digest over \<open>2 ^ 64\<close> in floating point. The quotient
  rounds to 1 for the 1024 largest numerators, so the draw is not always below 1.
\<close>

definition draw_numerator :: "(nat list \<Rightarrow> nat list) \<Rightarrow> string list \<Rightarrow> nat" where
  "draw_numerator digest parts = be_nat (take 8 (digest (utf8_bytes (material parts))))"

lemma draw_numerator: "draw digest parts = f64 (of_nat (draw_numerator digest parts) / 2 ^ 64)"
  by (simp add: draw_def draw_numerator_def int_truediv_def)

lemma f64_top: "f64 (1 - 1024 / 2 ^ 64) = 1"
proof -
  have eq: "(1 - 1024 / 2 ^ 64) / 2 powi (-1 - 52) = (2 ^ 53 - 1 / 2 :: rat)"
    by (simp add: power_int_def field_simps)
  have "\<lfloor>2 ^ 53 - 1 / 2 :: rat\<rfloor> = 2 ^ 53 - 1" by (simp add: floor_eq_iff)
  then have "round_half_even (2 ^ 53 - 1 / 2) = 2 ^ 53"
    by (simp add: round_half_even_def Let_def)
  from f64_eqI [of "-1" "1 - 1024 / 2 ^ 64", OF _ _ this [folded eq]] show ?thesis
    by (simp add: power_int_def power_divide)
qed

lemma f64_below_top: "f64 (1 - 1025 / 2 ^ 64) < 1"
proof -
  have eq: "(1 - 1025 / 2 ^ 64) / 2 powi (-1 - 52) = (2 ^ 53 - 1025 / 2048 :: rat)"
    by (simp add: power_int_def field_simps)
  have "round_half_even (2 ^ 53 - 1025 / 2048) = 2 ^ 53 - 1"
    by (rule round_half_even_eqI) simp
  from f64_eqI [of "-1" "1 - 1025 / 2 ^ 64", OF _ _ this [folded eq]] show ?thesis
    by (simp add: power_int_def power_divide)
qed

lemma draw_below_1_iff:
  assumes "draw_numerator digest parts < 2 ^ 64"
  shows "draw digest parts < 1 \<longleftrightarrow> draw_numerator digest parts < 2 ^ 64 - 1024"
proof (cases "draw_numerator digest parts < 2 ^ 64 - 1024")
  case True
  let ?n = "draw_numerator digest parts"
  have "?n \<le> 2 ^ 64 - 1025" using True by simp
  then have "(of_nat ?n :: rat) \<le> of_nat (2 ^ 64 - 1025)" by (simp only: of_nat_le_iff)
  then have "(of_nat ?n :: rat) / 2 ^ 64 \<le> 1 - 1025 / 2 ^ 64" by (simp add: field_simps)
  from f64_mono [OF this] f64_below_top True show ?thesis by (simp add: draw_numerator)
next
  case False
  let ?n = "draw_numerator digest parts"
  have "(of_nat (2 ^ 64 - 1024) :: rat) \<le> of_nat ?n" using False by (simp only: of_nat_le_iff not_less)
  then have "1 - 1024 / 2 ^ 64 \<le> (of_nat ?n :: rat) / 2 ^ 64" by (simp add: field_simps)
  from f64_mono [OF this] f64_top False show ?thesis by (simp add: draw_numerator)
qed

context digest_function
begin

lemma draw_numerator_bound: "draw_numerator digest parts < 2 ^ 64"
  unfolding draw_numerator_def by (rule be_nat_digest)

text \<open>A rule of probability 0 never fires; a rule of probability 1 fires unless the draw rounds to 1.\<close>

lemma zero_never: "fr_probability r \<le> 0 \<Longrightarrow> select_fault_rule digest scenario seed cid it n \<noteq> Some r"
proof
  assume p: "fr_probability r \<le> 0" and sel: "select_fault_rule digest scenario seed cid it n = Some r"
  from sel obtain sc :: fault_scenario_config and s where "rule_draw digest (fs_digest sc) s cid it n r < fr_probability r"
    by (rule select_fault_rule_sound) blast
  then have "rule_draw digest (fs_digest sc) s cid it n r < 0" using p by linarith
  then show False unfolding rule_draw_def by (metis draw_unit(1) not_less)
qed

lemma certain_iff:
  assumes "fr_probability r = 1"
  shows "rule_draw digest sd s cid it n r < fr_probability r \<longleftrightarrow>
    draw_numerator digest [sd, str_of_int s, cid, str_of_nat it, str_of_nat n, fr_name r] < 2 ^ 64 - 1024"
  unfolding rule_draw_def assms by (rule draw_below_1_iff [OF draw_numerator_bound])

end

section \<open>What the middleware does to a run\<close>

text \<open>Once the tool fault has been raised the wrapped lifecycle is the delegate again.\<close>

lemma tool_fault_transparent: "tool_fault rule True t True = t"
proof (induction t)
  case (Calls c k)
  then have "(\<lambda>a. tool_fault rule True (k a) True) = k" by auto
  then show ?case by (cases c) simp_all
qed simp_all

lemma tool_fault_first:
  assumes "tool_matches rule (ToolStarted event)"
  shows "interp (tool_fault rule True (Calls (ToolStarted event) k) False) (case_handler san sleeper) (l, m) =
    interp (k (Raised (execution_exc (tool_fault_error rule)))) (case_handler san sleeper) (tool_started san event l, m)"
  using assms by (simp add: tool_fault_transparent)

text \<open>A run that starts no matching tool, whatever it is answered, is left as it is.\<close>

primrec no_matching_tool :: "fault_rule_config \<Rightarrow> adapter_run \<Rightarrow> bool" where
  "no_matching_tool rule (Returns r) = True"
| "no_matching_tool rule (Raises x) = True"
| "no_matching_tool rule TimesOut = True"
| "no_matching_tool rule IsCancelled = True"
| "no_matching_tool rule (Calls c k) = (\<not> tool_matches rule c \<and> (\<forall>a. no_matching_tool rule (k a)))"

lemma tool_fault_no_match: "no_matching_tool rule t \<Longrightarrow> tool_fault rule True t injected = t"
proof (induction t arbitrary: injected)
  case (Calls c k)
  then have "(\<lambda>a. tool_fault rule True (k a) injected) = k" by auto
  then show ?case using Calls.prems by (cases c) simp_all
qed simp_all

text \<open>The contract of an adapter survives the middleware.\<close>

lemma all_returns_map: "all_returns P t \<Longrightarrow> (\<And>r. P r \<Longrightarrow> all_returns Q (f r)) \<Longrightarrow> all_returns Q (map_returns f t)"
  by (induction t) auto

lemma all_returns_tool_fault: "all_returns P t \<Longrightarrow> all_returns P (tool_fault rule d t injected)"
  by (induction t arbitrary: injected) (auto simp: Let_def split: adapter_call.splits)

lemma usage_ok_with_injection [simp]: "usage_ok (with_injection rule r) = usage_ok r"
  by (simp add: usage_ok_def with_injection_def)

context agent_adapter
begin

lemma middleware_usage: "all_returns usage_ok (middleware_run digest scenario seed run c it n given)"
  by (auto simp: middleware_run_def Let_def run_usage all_returns_tool_fault split: option.splits
      intro!: all_returns_map [OF run_usage])

end

text \<open>
  The exceptions a run can raise when the exceptions it is answered with satisfy the same
  predicate; the middleware raises only errors that keep the contract of a classified error.
\<close>

primrec all_raises :: "(py_exc \<Rightarrow> bool) \<Rightarrow> adapter_run \<Rightarrow> bool" where
  "all_raises P (Returns r) = True"
| "all_raises P (Raises x) = P x"
| "all_raises P TimesOut = True"
| "all_raises P IsCancelled = True"
| "all_raises P (Calls c k) = (\<forall>a. (\<forall>x. a = Raised x \<longrightarrow> P x) \<longrightarrow> all_raises P (k a))"

lemma all_raises_await [simp]: "all_raises P (await_call c rest) = all_raises P rest"
  by (auto simp: await_call_def split: answer.splits)

lemma all_raises_map: "all_raises P t \<Longrightarrow> (\<And>r. all_raises P (f r)) \<Longrightarrow> all_raises P (map_returns f t)"
  by (induction t) auto

lemma all_raises_tool_fault:
  "P (execution_exc (tool_fault_error rule)) \<Longrightarrow> all_raises P t \<Longrightarrow> all_raises P (tool_fault rule d t injected)"
  by (induction t arbitrary: injected) (auto simp: Let_def split: adapter_call.splits)

definition exc_ok :: "bool \<Rightarrow> bool \<Rightarrow> py_exc \<Rightarrow> bool" where
  "exc_ok agents openai x = error_ok (classify_adapter_exception agents openai x)"

lemma exc_ok_execution [simp]: "exc_ok agents openai (execution_exc e) = error_ok e"
  by (simp add: exc_ok_def classify_adapter_exception_def execution_exc_def)

lemma injected_error_ok:
  "error_ok (injected_error rule ''provider'' code kind am False resp uc)"
  "error_ok (injected_error rule ''provider'' ''rate_limited'' kind False sf resp uc)"
  "error_ok (tool_fault_error rule)"
  by (auto simp: error_ok_def injected_error_def ExecutionError_def tool_fault_error_def)

lemma http_error_ok:
  "error_ok (injected_error rule ''provider'' (http_fault_code s) kind (500 \<le> s) (s = 429) resp uc)"
  by (auto simp: error_ok_def injected_error_def ExecutionError_def http_fault_code_def)

lemma middleware_raises:
  assumes "\<And>g. all_raises (exc_ok agents openai) (adapter g c)"
  shows "all_raises (exc_ok agents openai) (middleware_run digest scenario seed adapter c it n given)"
  using assms
  by (auto simp: middleware_run_def Let_def all_raises_map all_raises_tool_fault injected_error_ok http_error_ok
      split: option.splits)

lemma interp_all_raises:
  assumes "\<And>l c a l' x. h l c = (a, l') \<Longrightarrow> a = Raised x \<Longrightarrow> P x"
  shows "all_raises P t \<Longrightarrow> interp t h l = (ORaise x, l') \<Longrightarrow> P x"
proof (induction t arbitrary: l)
  case (Calls c k)
  obtain a m where h: "h l c = (a, m)" by force
  with Calls.prems have "all_raises P (k a)" and "interp (k a) h m = (ORaise x, l')"
    using assms [OF h] by auto
  then show ?case using Calls.IH [of "k a"] by blast
qed simp_all

section \<open>Properties\<close>

lemma select_rule_find:
  "select_rule dr cid it n rules = find (\<lambda>r. rule_applies r cid it n \<and> dr r < fr_probability r) rules"
  by (induction rules) auto

text \<open>The rule that fires for an attempt is the first rule of the scenario that applies to it and whose draw is below
  its probability; there is none when no rule qualifies.\<close>

theorem fault_selection:
  "select_fault_rule digest (Some sc) (Some seed) cid it n =
     find (\<lambda>r. rule_applies r cid it n \<and> rule_draw digest (fs_digest sc) seed cid it n r < fr_probability r) (fs_rules sc)"
  by (simp add: select_fault_rule_def select_rule_find)

text \<open>C35: an attempt with a timeout, rate-limit or HTTP fault never reaches the adapter: the run is the same for every
  adapter, and it returns no response.\<close>

theorem injected_fault_skips_adapter:
  assumes "select_fault_rule digest scenario seed (tc_case_id c) it n = Some rule"
    and "fr_fault rule \<in> {''timeout'', ''rate_limit'', ''http_error''}"
  shows "middleware_run digest scenario seed adapter c it n given = middleware_run digest scenario seed other c it n given \<and>
    all_returns (\<lambda>_. False) (middleware_run digest scenario seed adapter c it n given)"
  using assms by (auto simp: middleware_run_def Let_def)

definition demo_rule :: fault_rule_config where
  "demo_rule = \<lparr>fr_name = ''r'', fr_fault = ''rate_limit'', fr_probability = 1, fr_case_ids = [], fr_iterations = [],
     fr_attempts = [1], fr_delay_ms = None, fr_status_code = None, fr_tool_name = []\<rparr>"

definition demo_scenario :: fault_scenario_config where
  "demo_scenario = \<lparr>fs_source_name = ''s'', fs_source_key = ''k'', fs_digest = ''d'', fs_rules = [demo_rule]\<rparr>"

lemma demo_select: "select_fault_rule (\<lambda>_. replicate 32 0) (Some demo_scenario) (Some 1) cid it 1 = Some demo_rule"
  by (simp add: select_fault_rule_def demo_scenario_def demo_rule_def rule_applies_def rule_draw_def draw_def
      be_nat_def int_truediv_def numeral_eq_Suc)

theorem injected_fault_skips_adapter_witness:
  "all_returns (\<lambda>_. False) (middleware_run (\<lambda>_. replicate 32 0) (Some demo_scenario) (Some 1) (fake_run 0)
     \<lparr>tc_case_id = ''c'', tc_prompt = ''p'', tc_expected_contains = None, tc_assertions = [], tc_metadata = []\<rparr> 0 1 True)"
  by (rule injected_fault_skips_adapter [OF demo_select, THEN conjunct2]) (simp add: demo_rule_def)

text \<open>A tool fault is raised into the adapter at the first start of a matching tool, after the lifecycle has recorded
  that start, and never again in the attempt: from there on the adapter runs against the bare lifecycle.\<close>

theorem tool_fault_once:
  assumes "tool_matches rule (ToolStarted event)"
  shows "interp (tool_fault rule True (Calls (ToolStarted event) k) False) (case_handler san sleeper) (l, m) =
    interp (k (Raised (execution_exc (tool_fault_error rule)))) (case_handler san sleeper) (tool_started san event l, m)"
  using assms by (rule tool_fault_first)

theorem tool_fault_once_witness:
  "tool_matches demo_rule (ToolStarted (ToolLifecycleEvent ''1'' ''search'')) \<and>
   fst (interp (tool_fault demo_rule True (await_call (ToolStarted (ToolLifecycleEvent ''1'' ''search'')) TimesOut) False)
     (case_handler None (\<lambda>_ _. Done)) (CaseLifecycle, 0)) = ORaise (execution_exc (tool_fault_error demo_rule))"
proof -
  have m: "tool_matches demo_rule (ToolStarted (ToolLifecycleEvent ''1'' ''search''))"
    by (simp add: tool_matches_def demo_rule_def)
  show ?thesis using m by (simp add: await_call_def tool_fault_once del: tool_fault.simps)
qed

text \<open>A rule of probability 1 that applies does not fire for every attempt: the draw is a quotient in floating point that
  rounds to 1 for the 1024 largest values of the first eight digest bytes, and then the rule is skipped.\<close>

theorem certain_rule:
  assumes "fr_probability r = 1"
  shows "rule_draw sha256 sd s cid it n r < fr_probability r \<longleftrightarrow>
    draw_numerator sha256 [sd, str_of_int s, cid, str_of_nat it, str_of_nat n, fr_name r] < 2 ^ 64 - 1024"
  using assms by (rule sha.certain_iff)

theorem certain_rule_witness:
  "rule_draw sha256 ''d'' 1 ''c'' 0 1 demo_rule < fr_probability demo_rule \<longleftrightarrow>
    draw_numerator sha256 [''d'', str_of_int 1, ''c'', str_of_nat 0, str_of_nat 1, fr_name demo_rule] < 2 ^ 64 - 1024"
  by (rule certain_rule) (simp add: demo_rule_def)

text \<open>The middleware raises no error that breaks the contract of the retry policy when the adapter does not: none is both
  ambiguous and safe to retry, and only rate limits are safe to retry.\<close>

theorem middleware_errors:
  assumes "\<And>g. all_raises (exc_ok agents openai) (adapter g c)"
  shows "all_raises (exc_ok agents openai) (middleware_run digest scenario seed adapter c it n given)"
  using assms by (rule middleware_raises)

theorem middleware_errors_witness:
  "all_raises (exc_ok True True) (middleware_run (\<lambda>_. replicate 32 0) (Some demo_scenario) (Some 1) (fake_run 0)
     \<lparr>tc_case_id = ''c'', tc_prompt = ''p'', tc_expected_contains = None, tc_assertions = [], tc_metadata = []\<rparr> 0 1 True)"
  by (rule middleware_errors) (simp add: fake_run_def)

end
