(* ===== verification/Scheduler.thy ===== *)
theory Scheduler
  imports Faults
begin

text \<open>
  \<open>worker/src/agentstorm_worker/scheduler.py\<close>: the limiter that waits for a permit of the result
  API before an attempt and gives it back afterwards.

  The scheduler behind the result API is an oracle: what the n-th round of the wait sees (the stop
  event, the clock, the answer of the API, how the pause ended). The wait has no bound of its own; it
  is a partial function whose value \<open>None\<close> is a wait that never ends.
\<close>

section \<open>Waiting for a grant\<close>

record permit_grant =
  pg_permit_id :: string
  pg_lease_token :: string
  pg_renew_after_ms :: int

text \<open>
  The answer of \<open>acquire_permit\<close>: a grant, \<open>SchedulerBusy\<close> with the pause the API asked for, any
  other \<open>ResultSinkError\<close>, another exception, or a cancellation of the call.
\<close>

datatype scheduler_answer = Grants permit_grant | Busy int | SinkFails | CallRaises py_exc | CallCancelled

datatype wait_answer = WaitTimedOut | WaitStopSet | WaitCancelled

record grant_oracle =
  go_stop :: "nat \<Rightarrow> bool"
  go_clock :: "nat \<Rightarrow> rat"
  go_clock_busy :: "nat \<Rightarrow> rat"
  go_acquire :: "nat \<Rightarrow> scheduler_answer"
  go_wait :: "nat \<Rightarrow> wait_answer"

datatype permit_entry = Entered permit_grant | EntryRaises py_exc | EntryCancelled

definition limit_timeout :: execution_error where
  "limit_timeout = ExecutionError ''provider'' ''distributed_limit_timeout'' ''provider''"

definition scheduler_unavailable :: execution_error where
  "scheduler_unavailable = ExecutionError ''harness'' ''distributed_scheduler_unavailable'' ''harness''"

definition permit_lost :: execution_error where
  "permit_lost = ExecutionError ''harness'' ''distributed_permit_lost'' ''harness''"

text \<open>\<open>min(exc.retry_after_ms / 1000, remaining)\<close>; \<open>SchedulerBusy\<close> never asks for less than 1 ms.\<close>

definition busy_delay :: "int \<Rightarrow> rat \<Rightarrow> rat \<Rightarrow> rat" where
  "busy_delay retry_after_ms deadline now =
     min (int_truediv (max 1 retry_after_ms) 1000) (max 0 (fsub deadline now))"

partial_function (option) wait_for_grant :: "grant_oracle \<Rightarrow> rat \<Rightarrow> nat \<Rightarrow> permit_entry option" where
  "wait_for_grant orc deadline n =
     (if go_stop orc n then Some EntryCancelled
      else if deadline \<le> go_clock orc n then Some (EntryRaises (execution_exc limit_timeout))
      else case go_acquire orc n of
        Grants g \<Rightarrow> Some (Entered g)
      | CallRaises x \<Rightarrow> Some (EntryRaises x)
      | CallCancelled \<Rightarrow> Some EntryCancelled
      | SinkFails \<Rightarrow> Some (EntryRaises (execution_exc scheduler_unavailable))
      | Busy ms \<Rightarrow>
          if busy_delay ms deadline (go_clock_busy orc n) \<le> 0 then
            (if go_stop orc (Suc n) then Some EntryCancelled
             else Some (EntryRaises (execution_exc limit_timeout)))
          else (case go_wait orc n of
                  WaitCancelled \<Rightarrow> Some EntryCancelled
                | _ \<Rightarrow> wait_for_grant orc deadline (Suc n)))"

declare wait_for_grant.simps [code]

section \<open>The permit around an attempt\<close>

definition permit_enter :: "grant_oracle \<Rightarrow> rat \<Rightarrow> bool \<Rightarrow> permit_entry option" where
  "permit_enter orc deadline stopped =
     (case wait_for_grant orc deadline 0 of
        Some (Entered g) \<Rightarrow> Some (if stopped then EntryCancelled else Entered g)
      | r \<Rightarrow> r)"

text \<open>How the body of the permit leaves it, when the renewal of the lease has failed or not.\<close>

definition permit_exit :: "bool \<Rightarrow> outcome \<Rightarrow> outcome" where
  "permit_exit renewal_failed body =
     (case body of
        OCancelled \<Rightarrow> if renewal_failed then ORaise (execution_exc permit_lost) else OCancelled
      | ORet r \<Rightarrow> if renewal_failed then ORaise (execution_exc permit_lost) else ORet r
      | r \<Rightarrow> r)"

definition hex_byte :: "nat \<Rightarrow> string" where
  "hex_byte b = [hex_digit (b div 16), hex_digit (b mod 16)]"

definition permit_request_id ::
  "(nat list \<Rightarrow> nat list) \<Rightarrow> string \<Rightarrow> string \<Rightarrow> string \<Rightarrow> nat \<Rightarrow> nat \<Rightarrow> string" where
  "permit_request_id digest run_id worker_id case_id iteration attempt =
     concat (map hex_byte (digest (utf8_bytes
       (material [run_id, worker_id, case_id, str_of_nat iteration, str_of_nat attempt]))))"

section \<open>The wait ends at the deadline\<close>

text \<open>If some round reads a clock at or past the deadline, the wait returns.\<close>

lemma wait_for_grant_returns:
  assumes "deadline \<le> go_clock orc N"
  shows "n \<le> N \<Longrightarrow> \<exists>r. wait_for_grant orc deadline n = Some r"
proof (induction "N - n" arbitrary: n)
  case 0
  then have "n = N" by simp
  with assms show ?case by (simp add: wait_for_grant.simps [of orc deadline N])
next
  case (Suc m)
  then have "\<exists>r. wait_for_grant orc deadline (Suc n) = Some r" by simp
  then show ?case
    by (auto simp: wait_for_grant.simps [of orc deadline n] split: scheduler_answer.splits wait_answer.splits)
qed

text \<open>A permit is entered only on a grant that a round before the deadline got.\<close>

definition granted_round :: "grant_oracle \<Rightarrow> rat \<Rightarrow> nat \<Rightarrow> permit_grant \<Rightarrow> nat \<Rightarrow> bool" where
  "granted_round orc deadline n g m \<longleftrightarrow>
     n \<le> m \<and> go_acquire orc m = Grants g \<and> \<not> go_stop orc m \<and> go_clock orc m < deadline"

lemma granted_round_Suc: "granted_round orc deadline (Suc n) g m \<Longrightarrow> granted_round orc deadline n g m"
  by (simp add: granted_round_def)

lemma wait_for_grant_entered:
  assumes "wait_for_grant orc deadline n = Some (Entered g)"
  shows "\<exists>m. granted_round orc deadline n g m"
proof -
  let ?P = "\<lambda>orc deadline n r. \<forall>g. r = Entered g \<longrightarrow> (\<exists>m. granted_round orc deadline n g m)"
  have "?P orc deadline n (Entered g)"
  proof (rule wait_for_grant.raw_induct [of ?P, OF _ assms])
    fix wait orc deadline n r
    assume IH: "\<And>orc deadline n r. wait orc deadline n = Some r \<Longrightarrow> ?P orc deadline n r"
      and body: "(if go_stop orc n then Some EntryCancelled
        else if deadline \<le> go_clock orc n then Some (EntryRaises (execution_exc limit_timeout))
        else case go_acquire orc n of
          Grants g \<Rightarrow> Some (Entered g)
        | Busy ms \<Rightarrow>
            if busy_delay ms deadline (go_clock_busy orc n) \<le> 0 then
              (if go_stop orc (Suc n) then Some EntryCancelled
               else Some (EntryRaises (execution_exc limit_timeout)))
            else (case go_wait orc n of
                    WaitCancelled \<Rightarrow> Some EntryCancelled
                  | _ \<Rightarrow> wait orc deadline (Suc n))
        | SinkFails \<Rightarrow> Some (EntryRaises (execution_exc scheduler_unavailable))
        | CallRaises x \<Rightarrow> Some (EntryRaises x)
        | CallCancelled \<Rightarrow> Some EntryCancelled) = Some r"
    have here: "granted_round orc deadline n g n"
      if "go_acquire orc n = Grants g" "\<not> go_stop orc n" "\<not> deadline \<le> go_clock orc n" for g
      using that by (simp add: granted_round_def)
    show "?P orc deadline n r"
      using body here IH granted_round_Suc
      by (auto split: if_splits scheduler_answer.splits wait_answer.splits) blast+
  qed
  then show ?thesis by blast
qed

text \<open>What a body returned is lost exactly when the lease was lost; what it raised is kept.\<close>

lemma permit_exit_ret: "permit_exit lost body = ORet r \<longleftrightarrow> body = ORet r \<and> \<not> lost"
  by (auto simp: permit_exit_def split: outcome.splits)

lemma permit_exit_cancelled: "permit_exit lost body = OCancelled \<longleftrightarrow> body = OCancelled \<and> \<not> lost"
  by (auto simp: permit_exit_def split: outcome.splits)

section \<open>Properties\<close>

text \<open>C38: the wait for a permit returns once a round reads a clock at or past the deadline, whatever the scheduler
  answers before.\<close>

theorem wait_returns:
  assumes "deadline \<le> go_clock orc n"
  shows "\<exists>r. wait_for_grant orc deadline 0 = Some r"
  using wait_for_grant_returns [OF assms] by simp

definition busy_oracle :: grant_oracle where
  "busy_oracle = \<lparr>go_stop = (\<lambda>_. False), go_clock = of_nat, go_clock_busy = of_nat, go_acquire = (\<lambda>_. Busy 500),
     go_wait = (\<lambda>_. WaitTimedOut)\<rparr>"

theorem wait_returns_witness: "\<exists>r. wait_for_grant busy_oracle 30 0 = Some r"
  by (rule wait_returns [of _ _ 30]) (simp add: busy_oracle_def)

text \<open>An attempt runs under a permit only after some round of the wait, before the deadline and with no stop
  requested, got that grant from the scheduler.\<close>

theorem permit_needs_grant:
  assumes "permit_enter orc deadline stopped = Some (Entered g)"
  shows "\<not> stopped \<and> (\<exists>m. go_acquire orc m = Grants g \<and> \<not> go_stop orc m \<and> go_clock orc m < deadline)"
proof -
  have "wait_for_grant orc deadline 0 = Some (Entered g)" and "\<not> stopped"
    using assms by (auto simp: permit_enter_def split: option.splits permit_entry.splits if_splits)
  with wait_for_grant_entered [of orc deadline 0 g] show ?thesis by (auto simp: granted_round_def)
qed

theorem permit_needs_grant_witness:
  "let g = \<lparr>pg_permit_id = ''p'', pg_lease_token = ''t'', pg_renew_after_ms = 100\<rparr>;
       orc = busy_oracle\<lparr>go_acquire := (\<lambda>_. Grants g)\<rparr>
   in permit_enter orc 30 False = Some (Entered g) \<and> (\<exists>m. go_acquire orc m = Grants g \<and> go_clock orc m < 30)"
proof -
  define g where "g = \<lparr>pg_permit_id = ''p'', pg_lease_token = ''t'', pg_renew_after_ms = 100\<rparr>"
  define orc where "orc = busy_oracle\<lparr>go_acquire := (\<lambda>_. Grants g)\<rparr>"
  have "wait_for_grant orc 30 0 = Some (Entered g)"
    by (subst wait_for_grant.simps) (simp add: orc_def busy_oracle_def)
  then have e: "permit_enter orc 30 False = Some (Entered g)" by (simp add: permit_enter_def)
  show ?thesis
    unfolding Let_def g_def [symmetric] orc_def [symmetric] using e permit_needs_grant [OF e] by blast
qed

end
