(* ===== verification/Evaluators.thy ===== *)
theory Evaluators
  imports Models
begin

text \<open>
  \<open>worker/src/agentstorm_worker/evaluators.py\<close>: the assertions of a case, prepared once per run
  and evaluated on every response.

  What the registry relies on from outside is the record \<open>eval_env\<close>: the regular expressions of
  \<open>re\<close>, the validator of \<open>jsonschema\<close>, \<open>json.loads\<close>, the import of a Python entrypoint and the
  call of the function behind it. An exception is the name of its class and its text.
\<close>

section \<open>Environment and context\<close>

type_synonym eval_exc = "string \<times> string"

record eval_env =
  en_repr :: "string \<Rightarrow> string"
  en_re_compile :: "string \<Rightarrow> eval_exc option"
  en_re_search :: "string \<Rightarrow> string \<Rightarrow> bool"
  en_check_schema :: "json \<Rightarrow> eval_exc option"
  en_validate :: "json \<Rightarrow> json \<Rightarrow> eval_exc option"
  en_json_loads :: "string \<Rightarrow> eval_exc + json"
  en_callable :: "string \<Rightarrow> string \<Rightarrow> eval_exc + bool"
  en_call :: "string \<Rightarrow> json dict \<Rightarrow> json dict \<Rightarrow> eval_exc + json"

record evaluation_context =
  ec_case_id :: string
  ec_prompt :: string
  ec_output :: string
  ec_latency_ms :: rat
  ec_tool_path :: "string list"
  ec_metadata :: "json dict"

definition context_to_dict :: "evaluation_context \<Rightarrow> json dict" where
  "context_to_dict ctx =
     [(''case_id'', JStr (ec_case_id ctx)), (''prompt'', JStr (ec_prompt ctx)), (''output'', JStr (ec_output ctx)),
      (''latency_ms'', JFloat (Fin (ec_latency_ms ctx))), (''tool_path'', JList (map JStr (ec_tool_path ctx))),
      (''metadata'', JObj (ec_metadata ctx))]"

section \<open>Preparation\<close>

text \<open>
  The three dictionaries of the registry, keyed by case and index: the pattern that was compiled, the
  schema of the validator, the entrypoint of the function.
\<close>

record registry =
  rg_regexes :: "string \<times> nat \<Rightarrow> string option"
  rg_schemas :: "string \<times> nat \<Rightarrow> json option"
  rg_python :: "string \<times> nat \<Rightarrow> string option"

definition empty_registry :: registry where
  "empty_registry = \<lparr>rg_regexes = Map.empty, rg_schemas = Map.empty, rg_python = Map.empty\<rparr>"

definition assertion_error :: eval_exc where
  "assertion_error = (''AssertionError'', '''')"

text \<open>\<open>entrypoint.split(":", 1)\<close> unpacked into two names.\<close>

definition split_entrypoint :: "string \<Rightarrow> (string \<times> string) option" where
  "split_entrypoint e =
     (if CHR '':'' \<in> set e
      then Some (takeWhile (\<lambda>c. c \<noteq> CHR '':'') e, drop 1 (dropWhile (\<lambda>c. c \<noteq> CHR '':'') e))
      else None)"

definition prepare :: "eval_env \<Rightarrow> string \<Rightarrow> nat \<Rightarrow> assertion_spec \<Rightarrow> registry \<Rightarrow> eval_exc + registry" where
  "prepare env case_id index assertion reg =
     (let key = (case_id, index) in
      if as_type assertion = ''regex'' then
        (case as_pattern assertion of
           None \<Rightarrow> Inl assertion_error
         | Some pattern \<Rightarrow>
             (case en_re_compile env pattern of
                Some x \<Rightarrow> Inl x
              | None \<Rightarrow> Inr (reg\<lparr>rg_regexes := (rg_regexes reg)(key \<mapsto> pattern)\<rparr>)))
      else if as_type assertion = ''json_schema'' then
        (case as_schema assertion of
           None \<Rightarrow> Inl assertion_error
         | Some schema \<Rightarrow>
             (case en_check_schema env schema of
                Some x \<Rightarrow> Inl x
              | None \<Rightarrow> Inr (reg\<lparr>rg_schemas := (rg_schemas reg)(key \<mapsto> schema)\<rparr>)))
      else if as_type assertion = ''python'' then
        (case as_entrypoint assertion of
           None \<Rightarrow> Inl assertion_error
         | Some entrypoint \<Rightarrow>
             (case split_entrypoint entrypoint of
                None \<Rightarrow> Inl (''ValueError'', ''not enough values to unpack (expected 2, got 1)'')
              | Some (module_name, function_name) \<Rightarrow>
                  (case en_callable env module_name function_name of
                     Inl x \<Rightarrow> Inl x
                   | Inr callable \<Rightarrow>
                       if \<not> callable then
                         Inl (''ValueError'', ''python assertion entrypoint '' @ en_repr env entrypoint @ '' is not callable'')
                       else Inr (reg\<lparr>rg_python := (rg_python reg)(key \<mapsto> entrypoint)\<rparr>))))
      else Inr reg)"

fun prepare_from :: "eval_env \<Rightarrow> string \<Rightarrow> nat \<Rightarrow> assertion_spec list \<Rightarrow> registry \<Rightarrow> eval_exc + registry" where
  "prepare_from env case_id i [] reg = Inr reg"
| "prepare_from env case_id i (a # as) reg =
     (case prepare env case_id i a reg of Inl x \<Rightarrow> Inl x | Inr reg' \<Rightarrow> prepare_from env case_id (Suc i) as reg')"

fun prepare_cases :: "eval_env \<Rightarrow> test_case list \<Rightarrow> registry \<Rightarrow> eval_exc + registry" where
  "prepare_cases env [] reg = Inr reg"
| "prepare_cases env (c # cs) reg =
     (case prepare_from env (tc_case_id c) 0 (effective_assertions c) reg of
        Inl x \<Rightarrow> Inl x
      | Inr reg' \<Rightarrow> prepare_cases env cs reg')"

definition EvaluatorRegistry :: "eval_env \<Rightarrow> test_case list \<Rightarrow> eval_exc + registry" where
  "EvaluatorRegistry env cases = prepare_cases env cases empty_registry"

section \<open>Evaluation\<close>

definition verdict :: "bool \<Rightarrow> string \<Rightarrow> bool \<times> string \<times> string option" where
  "verdict passed reason = (passed, if passed then ''passed'' else reason, None)"

definition key_error :: "eval_env \<Rightarrow> string \<times> nat \<Rightarrow> eval_exc" where
  "key_error env key = (''KeyError'', ''('' @ en_repr env (fst key) @ '', '' @ str_of_nat (snd key) @ '')'')"

text \<open>What a Python assertion may return.\<close>

definition python_verdict :: "json \<Rightarrow> eval_exc + (bool \<times> string \<times> string option)" where
  "python_verdict raw =
     (case raw of
        JBool b \<Rightarrow> Inr (verdict b ''mismatch'')
      | JObj d \<Rightarrow>
          (case dict_get d ''passed'' of
             Some (JBool passed) \<Rightarrow>
               (case dict_get d ''message'' of
                  None \<Rightarrow> Inr (verdict passed ''mismatch'')
                | Some JNull \<Rightarrow> Inr (verdict passed ''mismatch'')
                | Some (JStr message) \<Rightarrow> Inr (passed, if passed then ''passed'' else ''mismatch'', Some message)
                | Some _ \<Rightarrow> Inl (''TypeError'', ''python assertion message must be a string''))
           | _ \<Rightarrow> Inl (''TypeError'', ''python assertion must return bool or a passed/message object''))
      | _ \<Rightarrow> Inl (''TypeError'', ''python assertion must return bool or a passed/message object''))"

definition invoke ::
  "eval_env \<Rightarrow> registry \<Rightarrow> string \<times> nat \<Rightarrow> assertion_spec \<Rightarrow> evaluation_context \<Rightarrow>
   eval_exc + (bool \<times> string \<times> string option)" where
  "invoke env reg key assertion ctx =
     (if as_type assertion = ''exact'' then
        Inr (verdict (Some (ec_output ctx) = as_value assertion) ''mismatch'')
      else if as_type assertion = ''contains'' then
        (case as_value assertion of
           None \<Rightarrow> Inl assertion_error
         | Some value \<Rightarrow> Inr (verdict (str_in value (ec_output ctx)) ''mismatch''))
      else if as_type assertion = ''regex'' then
        (case rg_regexes reg key of
           None \<Rightarrow> Inl (key_error env key)
         | Some pattern \<Rightarrow> Inr (verdict (en_re_search env pattern (ec_output ctx)) ''mismatch''))
      else if as_type assertion = ''json_schema'' then
        (case en_json_loads env (ec_output ctx) of
           Inl x \<Rightarrow>
             if fst x = ''JSONDecodeError'' then Inr (False, ''invalid_json'', Some (snd x)) else Inl x
         | Inr value \<Rightarrow>
             (case rg_schemas reg key of
                None \<Rightarrow> Inl (key_error env key)
              | Some schema \<Rightarrow>
                  (case en_validate env schema value of
                     Some x \<Rightarrow>
                       if fst x = ''ValidationError'' then Inr (False, ''schema_violation'', Some (snd x)) else Inl x
                   | None \<Rightarrow> Inr (True, ''passed'', None))))
      else if as_type assertion = ''tool_path'' then
        Inr (verdict (ec_tool_path ctx = as_path assertion) ''path_mismatch'')
      else if as_type assertion = ''latency'' then
        (case as_max_ms assertion of
           None \<Rightarrow> Inl assertion_error
         | Some max_ms \<Rightarrow> Inr (verdict (fl_le (Fin (ec_latency_ms ctx)) max_ms) ''latency_exceeded''))
      else if as_type assertion = ''python'' then
        (case rg_python reg key of
           None \<Rightarrow> Inl (key_error env key)
         | Some entrypoint \<Rightarrow>
             (case en_call env entrypoint (context_to_dict ctx) (as_config assertion) of
                Inl x \<Rightarrow> Inl x
              | Inr raw \<Rightarrow> python_verdict raw))
      else Inl (''ValueError'', ''unsupported assertion type '' @ en_repr env (as_type assertion)))"

definition outcome_of ::
  "nat \<Rightarrow> assertion_spec \<Rightarrow> eval_exc + (bool \<times> string \<times> string option) \<Rightarrow> assertion_outcome" where
  "outcome_of index assertion r =
     (case r of
        Inl (name, text) \<Rightarrow>
          \<lparr>ao_index = index, ao_type = as_type assertion, ao_passed = False, ao_reason_code = ''exception'',
           ao_message = Some (name @ '': '' @ text)\<rparr>
      | Inr (passed, reason_code, message) \<Rightarrow>
          \<lparr>ao_index = index, ao_type = as_type assertion, ao_passed = passed, ao_reason_code = reason_code,
           ao_message = message\<rparr>)"

definition evaluate_one ::
  "eval_env \<Rightarrow> registry \<Rightarrow> string \<Rightarrow> nat \<Rightarrow> assertion_spec \<Rightarrow> evaluation_context \<Rightarrow> assertion_outcome" where
  "evaluate_one env reg case_id index assertion ctx =
     outcome_of index assertion (invoke env reg (case_id, index) assertion ctx)"

definition evaluate :: "eval_env \<Rightarrow> registry \<Rightarrow> test_case \<Rightarrow> evaluation_context \<Rightarrow> assertion_outcome list" where
  "evaluate env reg c ctx =
     map (\<lambda>(index, assertion). evaluate_one env reg (tc_case_id c) index assertion ctx)
       (enum_from 0 (effective_assertions c))"

section \<open>The registry holds what the assertions say\<close>

text \<open>The entry of an assertion that needs preparation, and two registries that agree on a key.\<close>

definition prepared :: "registry \<Rightarrow> string \<times> nat \<Rightarrow> assertion_spec \<Rightarrow> bool" where
  "prepared reg key a \<longleftrightarrow>
     (as_type a = ''regex'' \<longrightarrow> as_pattern a \<noteq> None \<and> rg_regexes reg key = as_pattern a) \<and>
     (as_type a = ''json_schema'' \<longrightarrow> as_schema a \<noteq> None \<and> rg_schemas reg key = as_schema a) \<and>
     (as_type a = ''python'' \<longrightarrow> as_entrypoint a \<noteq> None \<and> rg_python reg key = as_entrypoint a)"

definition agree_on :: "registry \<Rightarrow> registry \<Rightarrow> string \<times> nat \<Rightarrow> bool" where
  "agree_on r r' key \<longleftrightarrow>
     rg_regexes r key = rg_regexes r' key \<and> rg_schemas r key = rg_schemas r' key \<and> rg_python r key = rg_python r' key"

lemma agree_on_refl [simp]: "agree_on r r key"
  and agree_on_trans: "agree_on r1 r2 key \<Longrightarrow> agree_on r2 r3 key \<Longrightarrow> agree_on r1 r3 key"
  and prepared_agree: "agree_on r r' key \<Longrightarrow> prepared r key a \<Longrightarrow> prepared r' key a"
  by (simp_all add: agree_on_def prepared_def)

lemma prepare_ok:
  assumes "prepare env cid i a reg = Inr reg'"
  shows "prepared reg' (cid, i) a" and "key \<noteq> (cid, i) \<Longrightarrow> agree_on reg reg' key"
  using assms
  by (auto simp: prepare_def prepared_def agree_on_def Let_def split: if_splits option.splits sum.splits)

lemma prepare_from_agree:
  "prepare_from env cid i as reg = Inr reg' \<Longrightarrow> fst key \<noteq> cid \<or> snd key < i \<Longrightarrow> agree_on reg reg' key"
proof (induction env cid i as reg arbitrary: reg' rule: prepare_from.induct)
  case (2 env cid i a as reg)
  from 2(2) obtain r1 where r1: "prepare env cid i a reg = Inr r1" and rest: "prepare_from env cid (Suc i) as r1 = Inr reg'"
    by (auto split: sum.splits)
  from 2(3) have "key \<noteq> (cid, i)" and "fst key \<noteq> cid \<or> snd key < Suc i" by auto
  then show ?case using 2(1) [OF r1 rest] prepare_ok(2) [OF r1] agree_on_trans by blast
qed simp

lemma prepare_from_ok:
  "prepare_from env cid i as reg = Inr reg' \<Longrightarrow> k < length as \<Longrightarrow> prepared reg' (cid, i + k) (as ! k)"
proof (induction env cid i as reg arbitrary: reg' k rule: prepare_from.induct)
  case (2 env cid i a as reg)
  from 2(2) obtain r1 where r1: "prepare env cid i a reg = Inr r1" and rest: "prepare_from env cid (Suc i) as r1 = Inr reg'"
    by (auto split: sum.splits)
  show ?case
  proof (cases k)
    case 0
    have "agree_on r1 reg' (cid, i)" by (rule prepare_from_agree [OF rest]) simp
    with prepare_ok(1) [OF r1] 0 show ?thesis by (auto intro: prepared_agree)
  next
    case (Suc j)
    with 2(1) [OF r1 rest, of j] 2(3) show ?thesis by simp
  qed
qed simp

lemma prepare_cases_agree:
  "prepare_cases env cs reg = Inr reg' \<Longrightarrow> fst key \<notin> tc_case_id ` set cs \<Longrightarrow> agree_on reg reg' key"
proof (induction env cs reg arbitrary: reg' rule: prepare_cases.induct)
  case (2 env c cs reg)
  from 2(2) obtain r1 where r1: "prepare_from env (tc_case_id c) 0 (effective_assertions c) reg = Inr r1"
    and rest: "prepare_cases env cs r1 = Inr reg'" by (auto split: sum.splits)
  from 2(3) have "fst key \<noteq> tc_case_id c" and "fst key \<notin> tc_case_id ` set cs" by auto
  then show ?case using 2(1) [OF r1 rest] prepare_from_agree [OF r1] agree_on_trans by blast
qed simp

lemma prepare_cases_ok:
  "prepare_cases env cs reg = Inr reg' \<Longrightarrow> distinct (map tc_case_id cs) \<Longrightarrow> c \<in> set cs \<Longrightarrow>
   k < length (effective_assertions c) \<Longrightarrow> prepared reg' (tc_case_id c, k) (effective_assertions c ! k)"
proof (induction env cs reg arbitrary: reg' rule: prepare_cases.induct)
  case (2 env d cs reg)
  from 2(2) obtain r1 where r1: "prepare_from env (tc_case_id d) 0 (effective_assertions d) reg = Inr r1"
    and rest: "prepare_cases env cs r1 = Inr reg'" by (auto split: sum.splits)
  show ?case
  proof (cases "c \<in> set cs")
    case True
    with 2(1) [OF r1 rest] 2(3,5) show ?thesis by simp
  next
    case False
    with 2(4) have c: "c = d" by simp
    have "agree_on r1 reg' (tc_case_id d, k)"
      by (rule prepare_cases_agree [OF rest]) (use 2(3) in auto)
    with prepare_from_ok [OF r1, of k] 2(5) c show ?thesis by (auto intro: prepared_agree)
  qed
qed simp

section \<open>A registry-free reference of an assertion\<close>

text \<open>What an assertion says about a response, read off its own attributes.\<close>

definition check_assertion ::
  "eval_env \<Rightarrow> assertion_spec \<Rightarrow> evaluation_context \<Rightarrow> eval_exc + (bool \<times> string \<times> string option)" where
  "check_assertion env a ctx =
     invoke env \<lparr>rg_regexes = (\<lambda>_. as_pattern a), rg_schemas = (\<lambda>_. as_schema a), rg_python = (\<lambda>_. as_entrypoint a)\<rparr>
       ('''', 0) a ctx"

lemma invoke_prepared: "prepared reg key a \<Longrightarrow> invoke env reg key a ctx = check_assertion env a ctx"
  by (auto simp: prepared_def check_assertion_def invoke_def split: option.splits sum.splits)

lemma evaluate_nth:
  assumes "k < length (effective_assertions c)"
  shows "evaluate env reg c ctx ! k = evaluate_one env reg (tc_case_id c) k (effective_assertions c ! k) ctx"
  using assms by (simp add: evaluate_def enum_from_def)

lemma length_evaluate [simp]: "length (evaluate env reg c ctx) = length (effective_assertions c)"
  by (simp add: evaluate_def)

lemma evaluate_reference:
  assumes "EvaluatorRegistry env cs = Inr reg" and "distinct (map tc_case_id cs)" and "c \<in> set cs"
  shows "evaluate env reg c ctx =
    map (\<lambda>(k, a). outcome_of k a (check_assertion env a ctx)) (enum_from 0 (effective_assertions c))"
proof (rule nth_equalityI)
  fix k
  assume "k < length (evaluate env reg c ctx)"
  then have k: "k < length (effective_assertions c)" by simp
  from prepare_cases_ok [OF assms(1) [unfolded EvaluatorRegistry_def] assms(2,3) k]
  show "evaluate env reg c ctx ! k =
      map (\<lambda>(k, a). outcome_of k a (check_assertion env a ctx)) (enum_from 0 (effective_assertions c)) ! k"
    using k by (simp add: evaluate_nth evaluate_one_def invoke_prepared enum_from_def)
qed simp

text \<open>An outcome passes exactly when its reason is \<open>passed\<close>.\<close>

lemma invoke_reason: "invoke env reg key a ctx = Inr (p, reason, msg) \<Longrightarrow> p \<longleftrightarrow> reason = ''passed''"
  by (auto simp: invoke_def verdict_def python_verdict_def split: if_splits option.splits sum.splits json.splits)

lemma outcome_reason:
  "ao_passed (evaluate_one env reg cid k a ctx) \<longleftrightarrow> ao_reason_code (evaluate_one env reg cid k a ctx) = ''passed''"
proof (cases "invoke env reg (cid, k) a ctx")
  case (Inl x)
  then show ?thesis by (cases x) (simp add: evaluate_one_def outcome_of_def)
next
  case (Inr v)
  then show ?thesis by (cases v) (auto simp: evaluate_one_def outcome_of_def dest: invoke_reason)
qed

section \<open>What it means to pass\<close>

definition python_passes :: "json \<Rightarrow> bool" where
  "python_passes raw \<longleftrightarrow>
     raw = JBool True \<or>
     (\<exists>d. raw = JObj d \<and> dict_get d ''passed'' = Some (JBool True) \<and>
        (dict_get d ''message'' \<in> {None, Some JNull} \<or> (\<exists>m. dict_get d ''message'' = Some (JStr m))))"

text \<open>The meaning of each kind of assertion, without the registry and without reasons.\<close>

definition assertion_holds :: "eval_env \<Rightarrow> assertion_spec \<Rightarrow> evaluation_context \<Rightarrow> bool" where
  "assertion_holds env a ctx \<longleftrightarrow>
     as_type a = ''exact'' \<and> as_value a = Some (ec_output ctx) \<or>
     as_type a = ''contains'' \<and> (\<exists>v p s. as_value a = Some v \<and> ec_output ctx = p @ v @ s) \<or>
     as_type a = ''regex'' \<and> (\<exists>p. as_pattern a = Some p \<and> en_re_search env p (ec_output ctx)) \<or>
     as_type a = ''json_schema'' \<and>
       (\<exists>s v. as_schema a = Some s \<and> en_json_loads env (ec_output ctx) = Inr v \<and> en_validate env s v = None) \<or>
     as_type a = ''tool_path'' \<and> as_path a = ec_tool_path ctx \<or>
     as_type a = ''latency'' \<and> (\<exists>m. as_max_ms a = Some m \<and> fl_le (Fin (ec_latency_ms ctx)) m) \<or>
     as_type a = ''python'' \<and>
       (\<exists>e raw. as_entrypoint a = Some e \<and>
          en_call env e (context_to_dict ctx) (as_config a) = Inr raw \<and> python_passes raw)"

definition passing :: "eval_exc + (bool \<times> string \<times> string option) \<Rightarrow> bool" where
  "passing r = (case r of Inl _ \<Rightarrow> False | Inr v \<Rightarrow> fst v)"

lemma passing_outcome [simp]: "ao_passed (outcome_of k a r) = passing r"
  by (auto simp: outcome_of_def passing_def split: sum.splits)

lemma passing_python: "passing (python_verdict raw) = python_passes raw"
  by (auto simp: python_verdict_def python_passes_def passing_def verdict_def
      split: json.splits option.splits bool.splits)

lemma passing_check: "passing (check_assertion env a ctx) = assertion_holds env a ctx"
proof (cases "as_type a = ''python''")
  case True
  then show ?thesis
    by (auto simp: check_assertion_def invoke_def assertion_holds_def passing_python passing_def [of "Inl _"]
        split: option.splits sum.splits)
next
  case False
  then show ?thesis
    by (auto simp: check_assertion_def invoke_def assertion_holds_def passing_def verdict_def str_in_iff
        split: option.splits sum.splits)
qed

section \<open>Properties\<close>

lemma outcome_of_simps [simp]: "ao_type (outcome_of k a r) = as_type a" "ao_index (outcome_of k a r) = k"
  by (simp_all add: outcome_of_def split: sum.splits prod.splits)

text \<open>C28: with the registry prepared from the cases of the run, the outcomes of a case are those of its assertions in order,
  and each passes exactly when its assertion holds of the response.\<close>

theorem evaluation_meaning:
  assumes "EvaluatorRegistry env cs = Inr reg" and "distinct (map tc_case_id cs)" and "c \<in> set cs"
  shows "map ao_passed (evaluate env reg c ctx) = map (\<lambda>a. assertion_holds env a ctx) (effective_assertions c) \<and>
    map ao_type (evaluate env reg c ctx) = map as_type (effective_assertions c) \<and>
    map ao_index (evaluate env reg c ctx) = [0..<length (effective_assertions c)]"
  unfolding evaluate_reference [OF assms]
  by (auto intro!: nth_equalityI simp: enum_from_def passing_check)

definition plain_env :: eval_env where
  "plain_env = \<lparr>en_repr = (\<lambda>s. s), en_re_compile = (\<lambda>_. None), en_re_search = (\<lambda>p s. str_in p s),
     en_check_schema = (\<lambda>_. None), en_validate = (\<lambda>_ _. None), en_json_loads = (\<lambda>s. Inr (JStr s)),
     en_callable = (\<lambda>_ _. Inr True), en_call = (\<lambda>_ _ _. Inr (JBool True))\<rparr>"

definition plain_case :: test_case where
  "plain_case = \<lparr>tc_case_id = ''c1'', tc_prompt = ''hello'', tc_expected_contains = Some ''hello'',
     tc_assertions = [(AssertionSpec ''regex'')\<lparr>as_pattern := Some ''fake''\<rparr>], tc_metadata = []\<rparr>"

theorem evaluation_meaning_witness:
  "\<exists>reg. EvaluatorRegistry plain_env [plain_case] = Inr reg \<and>
     length (evaluate plain_env reg plain_case
       \<lparr>ec_case_id = ''c1'', ec_prompt = ''hello'', ec_output = ''fake response: hello'', ec_latency_ms = 0,
        ec_tool_path = [], ec_metadata = []\<rparr>) = 2"
proof -
  obtain reg where reg: "EvaluatorRegistry plain_env [plain_case] = Inr reg"
    by (simp add: EvaluatorRegistry_def plain_case_def effective_assertions_def AssertionSpec_def prepare_def plain_env_def)
  from arg_cong [OF evaluation_meaning [OF reg, of plain_case, THEN conjunct1], of length] reg show ?thesis
    by (auto simp: plain_case_def effective_assertions_def)
qed

end
