(* ===== verification/Pricing.thy ===== *)
theory Pricing
  imports Config_Types
begin

text \<open>
  \<open>worker/src/agentstorm_worker/pricing.py\<close> over a model of the part of \<open>decimal\<close> it uses.

  A \<open>Decimal\<close> is a coefficient and an exponent. Arithmetic computes the exact result and rounds
  it, half to even, to the precision of the context: 64 digits inside \<open>token_cost_usd\<close>, the
  default 28 elsewhere. \<open>quantize\<close> raises InvalidOperation when the result needs more digits
  than the context has. Printing is \<open>format(d, "f")\<close>; reading is \<open>Decimal(text)\<close> on the texts that
  \<open>format\<close> and the price pattern of the configuration produce. Signed zeros, infinities, NaN and the
  exponent limits of a context are left out: token counts and prices are not negative.
\<close>

section \<open>Decimal arithmetic\<close>

datatype dec = Dec (coef: int) (dexp: int)

definition dec_val :: "dec \<Rightarrow> rat" where
  "dec_val d = of_int (coef d) * 10 powi dexp d"

definition ndigits :: "int \<Rightarrow> nat" where
  "ndigits c = Suc (ilog 10 (nat \<bar>c\<bar>))"

definition dec_fix :: "nat \<Rightarrow> dec \<Rightarrow> dec" where
  "dec_fix prec d =
     (if ndigits (coef d) \<le> prec then d
      else let s = ndigits (coef d) - prec;
               c = round_half_even (of_int (coef d) / 10 ^ s)
           in if prec < ndigits c then Dec (c div 10) (dexp d + int s + 1) else Dec c (dexp d + int s))"

definition dec_mul :: "nat \<Rightarrow> dec \<Rightarrow> dec \<Rightarrow> dec" where
  "dec_mul prec a b = dec_fix prec (Dec (coef a * coef b) (dexp a + dexp b))"

definition dec_add :: "nat \<Rightarrow> dec \<Rightarrow> dec \<Rightarrow> dec" where
  "dec_add prec a b =
     (let e = min (dexp a) (dexp b)
      in dec_fix prec (Dec (coef a * 10 ^ nat (dexp a - e) + coef b * 10 ^ nat (dexp b - e)) e))"

text \<open>After an exact division, trailing zeros go as long as the exponent is below the ideal one.\<close>

function strip_zeros :: "int \<Rightarrow> dec \<Rightarrow> dec" where
  "strip_zeros ideal d =
     (if dexp d < ideal \<and> coef d mod 10 = 0 then strip_zeros ideal (Dec (coef d div 10) (dexp d + 1)) else d)"
  by pat_completeness auto
termination
  by (relation "measure (\<lambda>(ideal, d). nat (ideal - dexp d))") auto

declare strip_zeros.simps [simp del]

definition dec_div :: "nat \<Rightarrow> dec \<Rightarrow> dec \<Rightarrow> dec" where
  "dec_div prec a b =
     (let shift = int (ndigits (coef b)) - int (ndigits (coef a)) + int prec + 1;
          num = coef a * 10 ^ nat shift;
          den = coef b * 10 ^ nat (- shift);
          e = dexp a - dexp b - shift;
          q = num div den
      in if num mod den \<noteq> 0
         then dec_fix prec (Dec (if q mod 5 = 0 then q + 1 else q) e)
         else dec_fix prec (strip_zeros (dexp a - dexp b) (Dec q e)))"

definition dec_rescale :: "dec \<Rightarrow> int \<Rightarrow> dec" where
  "dec_rescale d e =
     (if e \<le> dexp d then Dec (coef d * 10 ^ nat (dexp d - e)) e
      else Dec (round_half_even (of_int (coef d) / 10 ^ nat (e - dexp d))) e)"

definition dec_quantize :: "nat \<Rightarrow> dec \<Rightarrow> int \<Rightarrow> dec res" where
  "dec_quantize prec d e =
     (if coef d = 0 then Inr (dec_fix prec (Dec 0 e))
      else raise_if (int prec < dexp d + int (ndigits (coef d)) - 1 - e + 1) InvalidOperation
       (let r = dec_rescale d e
        in raise_if (prec < ndigits (coef r)) InvalidOperation (Inr (dec_fix prec r))))"

section \<open>Printing and reading\<close>

definition dec_format :: "dec \<Rightarrow> string" where
  "dec_format d =
     (if 0 < dexp d then fixed_str 0 (coef d * 10 ^ nat (dexp d)) else fixed_str (nat (- dexp d)) (coef d))"

definition dec_of_int :: "int \<Rightarrow> dec" where
  "dec_of_int i = Dec i 0"

definition dec_of_str :: "string \<Rightarrow> dec res" where
  "dec_of_str s =
     (let (neg, t) = (case s of c # r \<Rightarrow> if c = CHR ''-'' then (True, r) else (False, s) | [] \<Rightarrow> (False, s));
          sg = (\<lambda>n. if neg then - int n else int n)
      in case split_on (CHR ''.'') t of
           [i] \<Rightarrow> if i \<noteq> [] \<and> list_all py_isdigit i then Inr (Dec (sg (nat_of_str i)) 0) else Inl InvalidOperation
         | [i, f] \<Rightarrow>
             if i \<noteq> [] \<and> f \<noteq> [] \<and> list_all py_isdigit i \<and> list_all py_isdigit f
             then Inr (Dec (sg (nat_of_str (i @ f))) (- int (length f))) else Inl InvalidOperation
         | _ \<Rightarrow> Inl InvalidOperation)"

section \<open>The operations of the module\<close>

definition SCALE_EXP :: int where "SCALE_EXP = - 12"

definition token_cost_usd :: "int \<Rightarrow> string \<Rightarrow> string res" where
  "token_cost_usd tokens price_per_million =
     rbind (dec_of_str price_per_million) (\<lambda>price.
     let cost = dec_div 64 (dec_mul 64 (dec_of_int tokens) price) (dec_of_int 1000000)
     in rbind (dec_quantize 64 cost SCALE_EXP) (\<lambda>q. Inr (dec_format q)))"

definition case_costs ::
  "pricing_config option \<Rightarrow> int \<Rightarrow> int \<Rightarrow> (string option \<times> string option \<times> string option) res" where
  "case_costs pricing input_tokens output_tokens =
     (case pricing of
        None \<Rightarrow> Inr (None, None, None)
      | Some p \<Rightarrow>
          rbind (token_cost_usd input_tokens (pr_input_usd_per_million_tokens p)) (\<lambda>input_cost.
          rbind (token_cost_usd output_tokens (pr_output_usd_per_million_tokens p)) (\<lambda>output_cost.
          rbind (dec_of_str input_cost) (\<lambda>i.
          rbind (dec_of_str output_cost) (\<lambda>oc.
          rbind (dec_quantize 28 (dec_add 28 i oc) SCALE_EXP) (\<lambda>total.
          Inr (Some input_cost, Some output_cost, Some (dec_format total))))))))"

text \<open>The sum of \<open>sum_costs\<close>, which starts from \<open>Decimal(0)\<close> and adds from the left.\<close>

definition dec_sum :: "dec list \<Rightarrow> dec" where
  "dec_sum ds = foldl (dec_add 28) (dec_of_int 0) ds"

definition sum_costs :: "string option list \<Rightarrow> string option res" where
  "sum_costs values =
     (if None \<in> set values then Inr None
      else rbind (rmap_list dec_of_str (map the values)) (\<lambda>ds. Inr (Some (dec_format (dec_sum ds)))))"

section \<open>Digits and values\<close>

lemma ndigits_le_iff: "1 \<le> p \<Longrightarrow> ndigits c \<le> p \<longleftrightarrow> \<bar>c\<bar> < 10 ^ p"
proof (cases "c = 0")
  case True
  then show "1 \<le> p \<Longrightarrow> ?thesis" by (simp add: ndigits_def ilog.simps)
next
  case False
  assume p: "1 \<le> p"
  let ?n = "nat \<bar>c\<bar>"
  have b: "10 ^ ilog 10 ?n \<le> ?n \<and> ?n < 10 ^ Suc (ilog 10 ?n)"
    using False by (intro ilog_bounds) simp_all
  have "ndigits c \<le> p \<longleftrightarrow> ?n < 10 ^ p"
  proof
    assume "ndigits c \<le> p"
    then have "(10 :: nat) ^ Suc (ilog 10 ?n) \<le> 10 ^ p" by (intro power_increasing) (simp_all add: ndigits_def)
    then show "?n < 10 ^ p" using b by linarith
  next
    assume "?n < 10 ^ p"
    then have "(10 :: nat) ^ ilog 10 ?n < 10 ^ p" using b by linarith
    then show "ndigits c \<le> p" by (simp add: ndigits_def)
  qed
  also have "\<dots> \<longleftrightarrow> \<bar>c\<bar> < 10 ^ p" by (simp add: nat_less_iff)
  finally show ?thesis .
qed

lemma dec_fix_id [simp]: "ndigits (coef d) \<le> prec \<Longrightarrow> dec_fix prec d = d"
  by (simp add: dec_fix_def)

lemma dec_val_strip_zeros: "dec_val (strip_zeros ideal d) = dec_val d"
proof (induction ideal d rule: strip_zeros.induct)
  case (1 ideal d)
  show ?case
  proof (cases "dexp d < ideal \<and> coef d mod 10 = 0")
    case True
    then have c: "coef d = 10 * (coef d div 10)" by auto
    have "dec_val (Dec (coef d div 10) (dexp d + 1)) = of_int (10 * (coef d div 10)) * 10 powi dexp d"
      by (simp add: dec_val_def power_int_add)
    also have "\<dots> = dec_val d" using c by (simp add: dec_val_def)
    finally show ?thesis using 1 True by (simp add: strip_zeros.simps [of ideal d])
  next
    case False
    then show ?thesis by (auto simp: strip_zeros.simps [of ideal d])
  qed
qed

lemma coef_strip_zeros: "\<bar>coef (strip_zeros ideal d)\<bar> \<le> \<bar>coef d\<bar>"
proof (induction ideal d rule: strip_zeros.induct)
  case (1 ideal d)
  show ?case
  proof (cases "dexp d < ideal \<and> coef d mod 10 = 0")
    case True
    have "\<bar>coef d div 10\<bar> \<le> \<bar>coef d\<bar>" by linarith
    with 1 True show ?thesis by (simp add: strip_zeros.simps [of ideal d])
  next
    case False
    then show ?thesis by (auto simp: strip_zeros.simps [of ideal d])
  qed
qed

lemma dexp_strip_zeros: "dexp (strip_zeros ideal d) \<le> max ideal (dexp d)"
proof (induction ideal d rule: strip_zeros.induct)
  case (1 ideal d)
  then show ?case
    by (cases "dexp d < ideal \<and> coef d mod 10 = 0") (auto simp: strip_zeros.simps [of ideal d])
qed

lemma strip_zeros_power:
  "e + int m \<le> ideal \<Longrightarrow> strip_zeros ideal (Dec (k * 10 ^ m) e) = strip_zeros ideal (Dec k (e + int m))"
proof (induction m arbitrary: e)
  case 0
  then show ?case by simp
next
  case (Suc m)
  then have "strip_zeros ideal (Dec (k * 10 ^ Suc m) e) = strip_zeros ideal (Dec (k * 10 ^ m) (e + 1))"
    by (subst strip_zeros.simps) (simp add: ac_simps)
  also have "\<dots> = strip_zeros ideal (Dec k (e + int (Suc m)))"
    using Suc by (simp add: ac_simps)
  finally show ?case .
qed

lemma ndigits_pos: "c \<noteq> 0 \<Longrightarrow> 10 ^ (ndigits c - 1) \<le> \<bar>c\<bar>"
  using ndigits_le_iff [of "ndigits c - 1" c] by (cases "ndigits c - 1") (auto simp: ndigits_def)

lemma ndigits_mono: "\<bar>a\<bar> \<le> \<bar>b\<bar> \<Longrightarrow> ndigits a \<le> ndigits b"
  using ndigits_le_iff [of "ndigits b" a] ndigits_le_iff [of "ndigits b" b] by (simp add: ndigits_def)

text \<open>Division by a million moves the exponent and never rounds a product that fits the context.\<close>

lemma dec_div_million:
  assumes "ndigits (coef a) \<le> 64"
  shows "dec_div 64 a (dec_of_int 1000000) = strip_zeros (dexp a) (Dec (coef a) (dexp a - 6))"
proof -
  define n where "n = 66 - ndigits (coef a)"
  have nd: "ndigits 1000000 = 7" by (simp add: ndigits_def ilog.simps)
  have shift: "nat (int (ndigits (coef (dec_of_int 1000000))) - int (ndigits (coef a)) + int 64 + 1) = n + 6"
    using assms by (simp add: dec_of_int_def nd n_def)
  have p6: "coef a * 10 ^ (n + 6) = (coef a * 10 ^ n) * 1000000" by (simp add: power_add)
  have e: "dexp a - dexp (dec_of_int 1000000)
      - (int (ndigits (coef (dec_of_int 1000000))) - int (ndigits (coef a)) + int 64 + 1) = dexp a - 6 - int n"
    using assms by (simp add: dec_of_int_def nd n_def)
  have neg: "nat (- (int (ndigits (coef (dec_of_int 1000000))) - int (ndigits (coef a)) + int 64 + 1)) = 0"
    using assms by (simp add: dec_of_int_def nd)
  have strip: "strip_zeros (dexp a) (Dec (coef a * 10 ^ n) (dexp a - 6 - int n))
      = strip_zeros (dexp a) (Dec (coef a) (dexp a - 6))"
    using strip_zeros_power [of "dexp a - 6 - int n" n "dexp a" "coef a"] by simp
  have small: "ndigits (coef (strip_zeros (dexp a) (Dec (coef a) (dexp a - 6)))) \<le> 64"
    using ndigits_mono [OF coef_strip_zeros [of "dexp a" "Dec (coef a) (dexp a - 6)"]] assms by simp
  have "dec_div 64 a (dec_of_int 1000000)
      = dec_fix 64 (strip_zeros (dexp a) (Dec (coef a * 10 ^ n) (dexp a - 6 - int n)))"
    unfolding dec_div_def Let_def shift e neg p6 by (simp add: dec_of_int_def)
  then show ?thesis using strip small by simp
qed

lemma dec_val_scaled: "dec_val d * 10 powi (- e) = of_int (coef d) * 10 powi (dexp d - e)"
  by (simp add: dec_val_def power_int_diff power_int_minus divide_inverse mult.assoc)

lemma dec_rescale_val: "dec_rescale d e = Dec (round_half_even (dec_val d * 10 powi (- e))) e"
proof (cases "e \<le> dexp d")
  case True
  then have "of_int (coef d) * (10 :: rat) powi (dexp d - e) = of_int (coef d * 10 ^ nat (dexp d - e))"
    by (simp add: power_int_def)
  then show ?thesis
    using True by (simp only: dec_rescale_def dec_val_scaled round_half_even_of_int if_True)
next
  case False
  then have "(10 :: rat) powi (dexp d - e) = inverse (10 powi (e - dexp d))"
    by (metis minus_diff_eq power_int_minus)
  also have "10 powi (e - dexp d) = (10 :: rat) ^ nat (e - dexp d)"
    using False by (simp add: power_int_def)
  finally show ?thesis
    using False by (simp only: dec_rescale_def dec_val_scaled if_False divide_inverse)
qed

lemma dec_quantize_ok:
  assumes p: "1 \<le> prec" and v: "\<bar>dec_val d\<bar> * 10 powi (- e) \<le> 10 ^ prec - 1"
  shows "dec_quantize prec d e = Inr (Dec (round_half_even (dec_val d * 10 powi (- e))) e)"
proof (cases "coef d = 0")
  case True
  then show ?thesis
    using p by (simp add: dec_quantize_def dec_val_def ndigits_le_iff)
next
  case False
  let ?n = "ndigits (coef d)"
  have "(10 :: rat) powi (dexp d + int ?n - 1) = 10 ^ (?n - 1) * 10 powi dexp d"
    by (simp add: power_int_add power_int_diff ndigits_def)
  also have "\<dots> \<le> \<bar>of_int (coef d)\<bar> * 10 powi dexp d"
  proof (rule mult_right_mono)
    show "10 ^ (?n - 1) \<le> \<bar>of_int (coef d) :: rat\<bar>"
      using ndigits_pos [OF False] by (metis of_int_abs of_int_le_iff of_int_numeral of_int_power)
  qed simp
  also have "\<dots> = \<bar>dec_val d\<bar>" by (simp add: dec_val_def abs_mult)
  also have "\<dots> < 10 powi (int prec + e)"
  proof -
    have "\<bar>dec_val d\<bar> * 10 powi (- e) < 10 ^ prec" using v by simp
    then have "\<bar>dec_val d\<bar> < 10 ^ prec * 10 powi e"
      by (simp add: power_int_minus field_simps)
    then show ?thesis by (simp add: power_int_add)
  qed
  finally have "dexp d + int ?n - 1 < int prec + e"
    using powi_less_cancel [of 10] by simp
  moreover have r: "\<bar>round_half_even (dec_val d * 10 powi (- e))\<bar> < 10 ^ prec"
  proof -
    have "\<bar>dec_val d * 10 powi (- e)\<bar> \<le> of_int (10 ^ prec - 1)" using v by (simp add: abs_mult)
    then have "round_half_even (dec_val d * 10 powi (- e)) \<le> 10 ^ prec - 1"
      and "- (10 ^ prec - 1) \<le> round_half_even (dec_val d * 10 powi (- e))"
      by (intro round_half_even_le_int round_half_even_ge_int; linarith)+
    then show ?thesis by linarith
  qed
  ultimately show ?thesis
    using False p by (simp add: dec_quantize_def dec_rescale_val Let_def ndigits_le_iff not_less)
qed

section \<open>Reading what was printed\<close>

lemma dec_of_str_fixed:
  assumes "0 < d" and "0 \<le> n"
  shows "dec_of_str (fixed_str d n) = Inr (Dec n (- int d))"
proof -
  define i where "i = str_of_nat (nat n div 10 ^ d)"
  define f where "f = pad_digits d (nat n mod 10 ^ d)"
  have i: "i \<noteq> []" "list_all py_isdigit i" using str_of_nat_digits by (auto simp: i_def list_all_iff)
  have f: "list_all py_isdigit f" "length f = d" using pad_digits_digits by (auto simp: f_def list_all_iff)
  have dot: "CHR ''.'' \<notin> set i" "CHR ''.'' \<notin> set f"
    using i(2) f(1) by (auto simp: list_all_iff)
  have s: "fixed_str d n = i @ CHR ''.'' # f"
    using assms by (simp add: fixed_str_def i_def f_def Let_def)
  have sign: "(case fixed_str d n of c # r \<Rightarrow> if c = CHR ''-'' then (True, r) else (False, fixed_str d n)
      | [] \<Rightarrow> (False, fixed_str d n)) = (False, fixed_str d n)"
    using i by (cases i) (auto simp: s)
  have "nat_of_str (i @ f) = nat n"
    using div_mult_mod_eq [of "nat n" "10 ^ d"]
    by (simp add: nat_of_str_append_general f) (simp add: i_def f_def nat_of_str_pad_digits)
  then show ?thesis
    using assms i f unfolding dec_of_str_def sign
    by (auto simp: s split_on_append [OF dot(1)] split_on_notin [OF dot(2)])
qed

lemma price_parse:
  assumes "price_pattern s"
  obtains pc pe where "dec_of_str s = Inr (Dec pc pe)" and "0 \<le> pc" and "pc < 10 ^ 30"
    and "- 12 \<le> pe" and "pe \<le> 0"
proof -
  have ip: "i \<noteq> [] \<and> list_all py_isdigit i \<and> length i \<le> 18" if "price_int_part i" for i
    using that by (auto simp: price_int_part_def py_isdigit_def)
  have sign: "(case s of c # r \<Rightarrow> if c = CHR ''-'' then (True, r) else (False, s) | [] \<Rightarrow> (False, s)) = (False, s)"
    if "s = i @ t" "price_int_part i" for i t
    using ip [OF that(2)] that(1) by (cases i) auto
  consider i where "split_on (CHR ''.'') s = [i]" "price_int_part i"
    | i f where "split_on (CHR ''.'') s = [i, f]" "price_int_part i" "list_all py_isdigit f"
        "1 \<le> length f" "length f \<le> 12"
    using assms by (auto simp: price_pattern_def split: list.splits)
  then show thesis
  proof cases
    case 1
    then have s: "s = i @ []" using split_on_join [of "CHR ''.''" s] by simp
    have "int (nat_of_str i) < 10 ^ 30"
    proof -
      have "nat_of_str i < 10 ^ length i" using ip [OF 1(2)] by (intro nat_of_str_bound) simp
      also have "\<dots> \<le> 10 ^ 30" using ip [OF 1(2)] by (intro power_increasing) simp_all
      finally show ?thesis by simp
    qed
    then show ?thesis
      using that [of "int (nat_of_str i)" 0] 1 ip [OF 1(2)]
      unfolding dec_of_str_def sign [OF s 1(2)] by simp
  next
    case 2
    then have s: "s = i @ CHR ''.'' # f" using split_on_join [of "CHR ''.''" s] by simp
    have "int (nat_of_str (i @ f)) < 10 ^ 30"
    proof -
      have "nat_of_str (i @ f) < 10 ^ length (i @ f)"
        using ip [OF 2(2)] 2(3) by (intro nat_of_str_bound) simp
      also have "\<dots> \<le> 10 ^ 30" using ip [OF 2(2)] 2(5) by (intro power_increasing) simp_all
      finally show ?thesis by simp
    qed
    moreover have "f \<noteq> []" using 2(4) by auto
    ultimately show ?thesis
      using that [of "int (nat_of_str (i @ f))" "- int (length f)"] 2 ip [OF 2(2)]
      unfolding dec_of_str_def sign [OF s 2(2)] by simp
  qed
qed

section \<open>Exact costs\<close>

text \<open>
  The cost that the module means to compute, in units of a picodollar (\<open>10 ^ - 12\<close> USD): the exact
  product of tokens and price per million, rounded half to even.
\<close>

definition price_value :: "string \<Rightarrow> rat" where
  "price_value s = (case dec_of_str s of Inl _ \<Rightarrow> 0 | Inr d \<Rightarrow> dec_val d)"

definition cost_units :: "int \<Rightarrow> string \<Rightarrow> int" where
  "cost_units tokens price = round_half_even (of_int tokens * price_value price * 10 ^ 6)"

lemma cost_units_nonneg: "0 \<le> tokens \<Longrightarrow> price_pattern price \<Longrightarrow> 0 \<le> cost_units tokens price"
  unfolding cost_units_def
  by (rule round_half_even_nonneg) (auto elim!: price_parse simp: price_value_def dec_val_def)

lemma token_cost_exact:
  assumes pp: "price_pattern price" and t: "0 \<le> tokens" "tokens < 10 ^ 22"
  shows "token_cost_usd tokens price = Inr (fixed_str 12 (cost_units tokens price))"
proof -
  obtain pc pe where parse: "dec_of_str price = Inr (Dec pc pe)" and pc: "0 \<le> pc" "pc < 10 ^ 30"
    and pe: "- 12 \<le> pe" "pe \<le> 0"
    using price_parse [OF pp] by blast
  define c where "c = tokens * pc"
  have c0: "0 \<le> c" using t pc by (simp add: c_def)
  have c1: "c < 10 ^ 52"
  proof (cases "pc = 0")
    case False
    have "c < 10 ^ 22 * pc" using t pc False by (simp add: c_def)
    also have "\<dots> \<le> 10 ^ 22 * 10 ^ 30" using pc by simp
    finally show ?thesis by simp
  qed (simp add: c_def)
  have "ndigits c \<le> 52" using c0 c1 by (simp add: ndigits_le_iff)
  then have mul: "dec_mul 64 (dec_of_int tokens) (Dec pc pe) = Dec c pe"
    by (simp add: dec_mul_def dec_of_int_def c_def)
  define d where "d = strip_zeros pe (Dec c (pe - 6))"
  have div: "dec_div 64 (Dec c pe) (dec_of_int 1000000) = d"
    using dec_div_million [of "Dec c pe"] \<open>ndigits c \<le> 52\<close> by (simp add: d_def)
  have "(10 :: rat) powi (pe - 6) * 10 ^ 12 = 10 powi pe * 10 ^ 6" by (simp add: power_int_diff)
  then have val: "dec_val d * 10 powi 12 = of_int c * 10 powi pe * 10 ^ 6"
    unfolding d_def dec_val_strip_zeros by (simp add: dec_val_def)
  have "of_int c * (10 :: rat) powi pe * 10 ^ 6 \<le> 10 ^ 52 * 1 * 10 ^ 6"
  proof (intro mult_mono)
    show "(of_int c :: rat) \<le> 10 ^ 52"
      using c1 by (metis less_imp_le of_int_le_iff of_int_numeral of_int_power)
    show "(10 :: rat) powi pe \<le> 1" using pe power_int_increasing [of pe 0 "10 :: rat"] by simp
  qed (use c0 in simp_all)
  moreover have "0 \<le> of_int c * (10 :: rat) powi pe" using c0 by simp
  ultimately have small: "\<bar>dec_val d\<bar> * 10 powi (- SCALE_EXP) \<le> 10 ^ 64 - 1"
    using val by (simp add: SCALE_EXP_def flip: abs_mult)
  have units: "dec_val d * 10 powi (- SCALE_EXP) = of_int tokens * price_value price * 10 ^ 6"
    using val by (simp add: SCALE_EXP_def price_value_def parse dec_val_def c_def)
  have "dec_quantize 64 d SCALE_EXP = Inr (Dec (cost_units tokens price) SCALE_EXP)"
    using dec_quantize_ok [OF _ small] unfolding units cost_units_def by simp
  then show ?thesis
    by (simp add: token_cost_usd_def parse mul div dec_format_def SCALE_EXP_def)
qed

section \<open>Totals\<close>

lemma ndigits_ge: "10 ^ k \<le> \<bar>c\<bar> \<Longrightarrow> Suc k \<le> ndigits c"
  using ndigits_le_iff [of k c] by (cases "k = 0") (auto simp: ndigits_def not_less_eq_eq [symmetric])

lemma dec_fix_adjusted:
  assumes p: "1 \<le> prec" and c: "0 < coef d"
  shows "0 < coef (dec_fix prec d)"
    and "dexp d + int (ndigits (coef d)) \<le> dexp (dec_fix prec d) + int (ndigits (coef (dec_fix prec d)))"
proof -
  define s where "s = ndigits (coef d) - prec"
  define r where "r = round_half_even (of_int (coef d) / 10 ^ s)"
  have big: "10 ^ (prec - 1) \<le> r" if nd: "prec < ndigits (coef d)"
  proof -
    have "(10 :: int) ^ (prec - 1) * 10 ^ s = 10 ^ (ndigits (coef d) - 1)"
      using nd p by (simp add: s_def flip: power_add)
    also have "\<dots> \<le> coef d" using ndigits_pos [of "coef d"] c by simp
    finally have "of_int (10 ^ (prec - 1) * 10 ^ s) \<le> (of_int (coef d) :: rat)" by (simp only: of_int_le_iff)
    then have "of_int (10 ^ (prec - 1)) \<le> (of_int (coef d) :: rat) / 10 ^ s"
      by (simp add: pos_le_divide_eq)
    then show ?thesis unfolding r_def by (rule round_half_even_ge_int)
  qed
  have "0 < coef (dec_fix prec d) \<and>
    dexp d + int (ndigits (coef d)) \<le> dexp (dec_fix prec d) + int (ndigits (coef (dec_fix prec d)))"
  proof (cases "ndigits (coef d) \<le> prec")
    case True
    then show ?thesis using c by simp
  next
    case False
    then have r: "10 ^ (prec - 1) \<le> r" and r0: "0 < r"
      using big by (simp_all add: order_less_le_trans [of 0 "10 ^ (prec - 1)" r])
    show ?thesis
    proof (cases "prec < ndigits r")
      case True
      then have "10 ^ prec \<le> r" using ndigits_le_iff [OF p, of r] r0 by simp
      then have q: "10 ^ (prec - 1) \<le> r div 10"
        using p by (cases prec) (simp_all add: zdiv_mono1 [of "10 * 10 ^ _" r 10, simplified])
      then have "Suc (prec - 1) \<le> ndigits (r div 10)" by (intro ndigits_ge) simp
      moreover have "0 < r div 10" using q by (simp add: order_less_le_trans [of 0 "10 ^ (prec - 1)"])
      ultimately show ?thesis
        using False True by (simp add: dec_fix_def Let_def s_def [symmetric] r_def [symmetric]) (simp add: s_def)
    next
      case no: False
      have "Suc (prec - 1) \<le> ndigits r" using r r0 by (intro ndigits_ge) simp
      then show ?thesis
        using False no r0 by (simp add: dec_fix_def Let_def s_def [symmetric] r_def [symmetric]) (simp add: s_def)
    qed
  qed
  then show "0 < coef (dec_fix prec d)"
    and "dexp d + int (ndigits (coef d)) \<le> dexp (dec_fix prec d) + int (ndigits (coef (dec_fix prec d)))"
    by blast+
qed

lemma dec_add_units: "dec_add prec (Dec a e) (Dec b e) = dec_fix prec (Dec (a + b) e)"
  by (simp add: dec_add_def)

lemma quantize_total:
  assumes "0 \<le> n"
  shows "dec_quantize 28 (dec_fix 28 (Dec n SCALE_EXP)) SCALE_EXP =
    (if n < 10 ^ 28 then Inr (Dec n SCALE_EXP) else Inl InvalidOperation)"
proof (cases "n < 10 ^ 28")
  case True
  then have "ndigits n \<le> 28" using assms by (simp add: ndigits_le_iff)
  then have fixed: "dec_fix 28 (Dec n SCALE_EXP) = Dec n SCALE_EXP" by simp
  have v: "dec_val (Dec n SCALE_EXP) * 10 powi (- SCALE_EXP) = of_int n"
    by (simp add: dec_val_def SCALE_EXP_def power_int_minus)
  have "\<bar>dec_val (Dec n SCALE_EXP)\<bar> * 10 powi (- SCALE_EXP) \<le> 10 ^ 28 - 1"
  proof -
    have "\<bar>dec_val (Dec n SCALE_EXP)\<bar> * 10 powi (- SCALE_EXP) = \<bar>of_int n\<bar>"
      using v by (metis abs_mult abs_of_nonneg zero_le_numeral zero_le_power_int)
    moreover have "(of_int n :: rat) \<le> of_int (10 ^ 28 - 1)" using True by (subst of_int_le_iff) simp
    ultimately show ?thesis using assms by simp
  qed
  from dec_quantize_ok [OF _ this] show ?thesis using True by (simp add: fixed v)
next
  case False
  then have "0 < n" by simp
  have "29 \<le> ndigits n" using False ndigits_ge [of 28 n] by simp
  moreover note dec_fix_adjusted [of 28 "Dec n SCALE_EXP"]
  ultimately show ?thesis using False \<open>0 < n\<close> by (simp add: dec_quantize_def SCALE_EXP_def)
qed

text \<open>
  The exact behaviour of \<open>case_costs\<close> on a priced run: both costs and their total are exact, unless
  the total reaches \<open>10 ^ 16\<close> USD, where the default context has too few digits and the call raises.
\<close>

lemma case_costs_exact:
  assumes "price_pattern (pr_input_usd_per_million_tokens p)"
    and "price_pattern (pr_output_usd_per_million_tokens p)"
    and "0 \<le> input_tokens" "input_tokens < 10 ^ 22" "0 \<le> output_tokens" "output_tokens < 10 ^ 22"
  defines "ci \<equiv> cost_units input_tokens (pr_input_usd_per_million_tokens p)"
    and "co \<equiv> cost_units output_tokens (pr_output_usd_per_million_tokens p)"
  shows "case_costs (Some p) input_tokens output_tokens =
    (if ci + co < 10 ^ 28
     then Inr (Some (fixed_str 12 ci), Some (fixed_str 12 co), Some (fixed_str 12 (ci + co)))
     else Inl InvalidOperation)"
proof -
  have nn: "0 \<le> ci" "0 \<le> co" using assms(1-6) by (simp_all add: ci_def co_def cost_units_nonneg)
  have tc: "token_cost_usd input_tokens (pr_input_usd_per_million_tokens p) = Inr (fixed_str 12 ci)"
    "token_cost_usd output_tokens (pr_output_usd_per_million_tokens p) = Inr (fixed_str 12 co)"
    using token_cost_exact [OF assms(1,3,4)] token_cost_exact [OF assms(2,5,6)]
    by (simp_all only: ci_def co_def)
  have "case_costs (Some p) input_tokens output_tokens =
    rbind (dec_quantize 28 (dec_fix 28 (Dec (ci + co) SCALE_EXP)) SCALE_EXP)
      (\<lambda>total. Inr (Some (fixed_str 12 ci), Some (fixed_str 12 co), Some (dec_format total)))"
    using nn by (simp add: case_costs_def tc dec_of_str_fixed dec_add_units SCALE_EXP_def)
  then show ?thesis
    using quantize_total [of "ci + co"] nn by (simp add: dec_format_def SCALE_EXP_def)
qed

lemma dec_sum_units:
  assumes "\<And>n. n \<in> set ns \<Longrightarrow> 0 \<le> n" and "0 \<le> a" and "a + sum_list ns < 10 ^ 28"
  shows "foldl (dec_add 28) (Dec a SCALE_EXP) (map (\<lambda>n. Dec n SCALE_EXP) ns) = Dec (a + sum_list ns) SCALE_EXP"
  using assms
proof (induction ns arbitrary: a)
  case Nil
  then show ?case by simp
next
  case (Cons n ns)
  have n: "0 \<le> n" "0 \<le> sum_list ns" using Cons.prems(1) by (auto intro: sum_list_nonneg)
  then have "ndigits (a + n) \<le> 28" using Cons.prems by (simp add: ndigits_le_iff)
  then have "dec_add 28 (Dec a SCALE_EXP) (Dec n SCALE_EXP) = Dec (a + n) SCALE_EXP"
    by (simp add: dec_add_units)
  then show ?case using Cons.IH [of "a + n"] Cons.prems n by (simp add: ac_simps)
qed

lemma sum_costs_exact:
  assumes nn: "\<And>n. n \<in> set ns \<Longrightarrow> 0 \<le> n" and bound: "sum_list ns < 10 ^ 28" and ne: "ns \<noteq> []"
  shows "sum_costs (map (\<lambda>n. Some (fixed_str 12 n)) ns) = Inr (Some (fixed_str 12 (sum_list ns)))"
proof -
  have parse: "rmap_list dec_of_str (map (fixed_str 12) ns) = Inr (map (\<lambda>n. Dec n SCALE_EXP) ns)"
    using nn by (induction ns) (auto simp: dec_of_str_fixed SCALE_EXP_def)
  obtain m ms where ns: "ns = m # ms" using ne by (cases ns) auto
  have m: "0 \<le> m" "0 \<le> sum_list ms" using nn ns by (auto intro: sum_list_nonneg)
  have "ndigits m \<le> 28" using m bound by (simp add: ns ndigits_le_iff)
  then have "dec_add 28 (dec_of_int 0) (Dec m SCALE_EXP) = Dec m SCALE_EXP"
    by (simp add: dec_add_def dec_of_int_def SCALE_EXP_def)
  moreover have "foldl (dec_add 28) (Dec m SCALE_EXP) (map (\<lambda>n. Dec n SCALE_EXP) ms) = Dec (sum_list ns) SCALE_EXP"
    using dec_sum_units [of ms m] nn m bound by (simp add: ns)
  ultimately have "dec_sum (map (\<lambda>n. Dec n SCALE_EXP) ns) = Dec (sum_list ns) SCALE_EXP"
    by (simp add: dec_sum_def ns)
  moreover have "map the (map (\<lambda>n. Some (fixed_str 12 n)) ns) = map (fixed_str 12) ns" by simp
  ultimately show ?thesis
    using parse by (simp add: sum_costs_def comp_def dec_format_def SCALE_EXP_def image_iff)
qed

section \<open>Properties\<close>

text \<open>C29: the costs of a priced case are exact: input and output cost are tokens times price per million, rounded half
  to even to a picodollar, and the total is their sum, provided it is below 10 ^ 16 USD; from there on
  the call raises \<open>InvalidOperation\<close>, because the total is computed in the default context.\<close>

theorem costs_exact:
  assumes "price_pattern (pr_input_usd_per_million_tokens p)"
    and "price_pattern (pr_output_usd_per_million_tokens p)"
    and "0 \<le> input_tokens" "input_tokens < 10 ^ 22" "0 \<le> output_tokens" "output_tokens < 10 ^ 22"
  shows "case_costs (Some p) input_tokens output_tokens =
    (let ci = cost_units input_tokens (pr_input_usd_per_million_tokens p);
         co = cost_units output_tokens (pr_output_usd_per_million_tokens p)
     in if ci + co < 10 ^ 28
        then Inr (Some (fixed_str 12 ci), Some (fixed_str 12 co), Some (fixed_str 12 (ci + co)))
        else Inl InvalidOperation)"
  using case_costs_exact [OF assms] by (simp add: Let_def)

theorem costs_exact_witness:
  "case_costs (Some \<lparr>pr_input_usd_per_million_tokens = ''999999999999999999'', pr_output_usd_per_million_tokens = ''0''\<rparr>)
     1000000 0 = Inl InvalidOperation"
proof -
  let ?p = "\<lparr>pr_input_usd_per_million_tokens = ''999999999999999999'', pr_output_usd_per_million_tokens = ''0''\<rparr>"
  have pat: "price_pattern ''999999999999999999''" "price_pattern ''0''" by code_simp+
  have parse: "dec_of_str ''999999999999999999'' = Inr (Dec 999999999999999999 0)" "dec_of_str ''0'' = Inr (Dec 0 0)"
    by code_simp+
  then have "cost_units 1000000 ''999999999999999999'' = 999999999999999999000000000000" "cost_units 0 ''0'' = 0"
    by (simp_all add: cost_units_def price_value_def dec_val_def)
  then show ?thesis using costs_exact [of ?p 1000000 0] pat by (simp add: Let_def)
qed

text \<open>The text of a cost is read back as the cost: formatting a non-negative number of picodollars with twelve
  decimals and parsing it gives the same decimal.\<close>

theorem cost_text_roundtrip:
  assumes "0 \<le> n"
  shows "dec_of_str (dec_format (Dec n SCALE_EXP)) = Inr (Dec n SCALE_EXP)"
  using assms dec_of_str_fixed [of 12 n] by (simp add: dec_format_def SCALE_EXP_def)

theorem cost_text_roundtrip_witness:
  "dec_of_str (dec_format (Dec 1500000000001 SCALE_EXP)) = Inr (Dec 1500000000001 SCALE_EXP)"
  by (rule cost_text_roundtrip) simp

text \<open>The cost of a run is the exact sum of the costs of its cases, as long as it is below 10 ^ 16 USD.\<close>

theorem cost_sum_exact:
  assumes "list_all (\<lambda>n. 0 \<le> n) ns" and "ns \<noteq> []" and "sum_list ns < 10 ^ 28"
  shows "sum_costs (map (\<lambda>n. Some (fixed_str 12 n)) ns) = Inr (Some (fixed_str 12 (sum_list ns)))"
  using assms by (intro sum_costs_exact) (auto simp: list_all_iff)

theorem cost_sum_exact_witness:
  "sum_costs (map (\<lambda>n. Some (fixed_str 12 n)) [1, 2, 3]) = Inr (Some (fixed_str 12 6))"
  using cost_sum_exact [of "[1, 2, 3]"] by simp

end
