(* ===== verification/Summary.thy ===== *)
theory Summary
  imports Pricing "HOL-Library.Multiset"
begin

text \<open>
  The pure functions at the end of \<open>worker/src/agentstorm_worker/runner.py\<close>: the usage, calls and
  provider codes of the attempts of a case, its cost, and the summary of a run with its thresholds.
\<close>

section \<open>The attempts of a case\<close>

definition or_0 :: "int option \<Rightarrow> int" where
  "or_0 v = (case v of None \<Rightarrow> 0 | Some n \<Rightarrow> n)"

definition attempt_usage :: "attempt_result list \<Rightarrow> int \<times> int \<times> bool" where
  "attempt_usage attempts =
     (sum_list (map (or_0 \<circ> at_input_tokens) attempts),
      sum_list (map (or_0 \<circ> at_output_tokens) attempts),
      list_all at_usage_complete attempts)"

definition attempt_calls :: "attempt_result list \<Rightarrow> int option \<times> int" where
  "attempt_calls attempts =
     (if list_all (\<lambda>a. at_model_call_count a \<noteq> None) attempts
      then Some (sum_list (map (or_0 \<circ> at_model_call_count) attempts)) else None,
      sum_list (map at_tool_call_count attempts))"

definition costs_for_usage ::
  "run_config \<Rightarrow> int \<Rightarrow> int \<Rightarrow> bool \<Rightarrow> (string option \<times> string option \<times> string option) res" where
  "costs_for_usage config input_tokens output_tokens usage_complete =
     (if \<not> usage_complete then Inr (None, None, None)
      else case_costs (tg_pricing (rc_target config)) input_tokens output_tokens)"

definition case_provider_fields :: "attempt_result list \<Rightarrow> string \<times> int" where
  "case_provider_fields attempts =
     (foldl (\<lambda>code a. if at_provider_error_code a \<noteq> [] then at_provider_error_code a else code) [] attempts,
      sum_list (map at_rate_limit_events attempts))"

definition provider_token_chars :: string where
  "provider_token_chars = ''ABCDEFGHIJKLMNOPQRSTUVWXYZabcdefghijklmnopqrstuvwxyz0123456789_.-''"

definition provider_token :: "json option \<Rightarrow> string" where
  "provider_token value =
     (case value of
        Some (JStr s) \<Rightarrow>
          if s = [] \<or> 32 < length s then []
          else if list_ex (\<lambda>c. c \<notin> set provider_token_chars) s then [] else s
      | _ \<Rightarrow> [])"

definition last_rate_limit_code :: "json dict \<Rightarrow> string" where
  "last_rate_limit_code metadata =
     (case dict_get metadata ''agentstorm.provider.rate_limit_codes'' of
        Some (JList codes) \<Rightarrow>
          foldl (\<lambda>last code. let token = provider_token (Some code) in if token \<noteq> [] then token else last) [] codes
      | _ \<Rightarrow> [])"

text \<open>\<open>None\<close> is the metadata of an attempt without a response.\<close>

definition attempt_provider_code :: "json dict option \<Rightarrow> string" where
  "attempt_provider_code metadata =
     (case metadata of
        None \<Rightarrow> []
      | Some d \<Rightarrow>
          if d = [] then []
          else (let terminal = provider_token (dict_get d ''agentstorm.provider.error_code'')
                in if terminal \<noteq> [] then terminal else last_rate_limit_code d))"

definition rate_limit_events :: "json dict option \<Rightarrow> int" where
  "rate_limit_events metadata =
     (case metadata of
        None \<Rightarrow> 0
      | Some d \<Rightarrow>
          (case dict_get d ''agentstorm.provider.rate_limit_events'' of
             Some (JInt n) \<Rightarrow> if n < 0 then 0 else n
           | _ \<Rightarrow> 0))"

section \<open>The summary of a run\<close>

text \<open>\<open>f"{x:.df}"\<close> of any float.\<close>

fun format_float :: "nat \<Rightarrow> pyfloat \<Rightarrow> string" where
  "format_float d (Fin x) = format_fixed d x"
| "format_float d PosInf = ''inf''"
| "format_float d NegInf = ''-inf''"
| "format_float d NaN = ''nan''"

definition p95_index :: "nat \<Rightarrow> nat" where
  "p95_index n = nat (max 0 (\<lceil>fmul (of_nat n) (f64 (95 / 100))\<rceil> - 1))"

definition p95_latency :: "case_result list \<Rightarrow> rat" where
  "p95_latency results =
     (let latencies = sort (map cr_latency_ms results)
      in if latencies \<noteq> [] then latencies ! p95_index (length latencies) else 0)"

definition rate :: "nat \<Rightarrow> nat \<Rightarrow> rat" where
  "rate k n = (if n \<noteq> 0 then int_truediv (int k) (int n) else 0)"

definition threshold_failures :: "rat \<Rightarrow> rat \<Rightarrow> rat \<Rightarrow> evaluation_config \<Rightarrow> string list" where
  "threshold_failures success_rate error_rate p95 evaluation =
     (case ev_min_success_rate evaluation of
        None \<Rightarrow> []
      | Some m \<Rightarrow>
          if fl_lt (Fin success_rate) m
          then [''success_rate '' @ format_fixed 4 success_rate @ '' < '' @ format_float 4 m] else []) @
     (case ev_max_error_rate evaluation of
        None \<Rightarrow> []
      | Some m \<Rightarrow>
          if fl_lt m (Fin error_rate)
          then [''error_rate '' @ format_fixed 4 error_rate @ '' > '' @ format_float 4 m] else []) @
     (case ev_max_p95_latency_ms evaluation of
        None \<Rightarrow> []
      | Some m \<Rightarrow>
          if of_int m < p95
          then [''p95_latency_ms '' @ format_fixed 2 p95 @ '' > '' @ str_of_int m] else [])"

definition sum_model_calls :: "case_result list \<Rightarrow> int option" where
  "sum_model_calls results =
     (if list_all (\<lambda>r. cr_model_call_count r \<noteq> None) results
      then Some (sum_list (map (or_0 \<circ> cr_model_call_count) results)) else None)"

definition summarize ::
  "string \<Rightarrow> nat \<Rightarrow> nat \<Rightarrow> case_result list \<Rightarrow> evaluation_config \<Rightarrow> rat \<Rightarrow> run_summary res" where
  "summarize run_id shard_index shard_count results evaluation duration_ms =
     (let total = length results;
          successful_results = filter cr_success results;
          succeeded = length successful_results;
          failed = total - succeeded;
          success_rate = rate succeeded total;
          error_rate = rate failed total;
          p95 = p95_latency results;
          failures = threshold_failures success_rate error_rate p95 evaluation;
          successful_model_calls = (if successful_results \<noteq> [] then sum_model_calls successful_results else None)
      in rbind (sum_costs (map cr_input_cost_usd results)) (\<lambda>input_cost.
         rbind (sum_costs (map cr_output_cost_usd results)) (\<lambda>output_cost.
         rbind (sum_costs (map cr_cost_usd results)) (\<lambda>cost.
           Inr \<lparr>rs_run_id = run_id, rs_shard_index = shard_index, rs_shard_count = shard_count,
                rs_duration_ms = duration_ms, rs_total = total, rs_succeeded = succeeded, rs_failed = failed,
                rs_success_rate = success_rate, rs_error_rate = error_rate, rs_p95_latency_ms = p95,
                rs_input_tokens = sum_list (map (or_0 \<circ> cr_input_tokens) results),
                rs_output_tokens = sum_list (map (or_0 \<circ> cr_output_tokens) results),
                rs_thresholds_passed = (failures = []), rs_threshold_failures = failures,
                rs_model_call_count = sum_model_calls results,
                rs_tool_call_count = sum_list (map cr_tool_call_count results),
                rs_model_calls_per_successful_agent =
                  (case successful_model_calls of
                     Some n \<Rightarrow> if succeeded \<noteq> 0 then Some (int_truediv n (int succeeded)) else None
                   | None \<Rightarrow> None),
                rs_tool_calls_per_successful_agent =
                  (if succeeded \<noteq> 0
                   then Some (int_truediv (sum_list (map cr_tool_call_count successful_results)) (int succeeded))
                   else None),
                rs_input_cost_usd = input_cost, rs_output_cost_usd = output_cost, rs_cost_usd = cost,
                rs_usage_complete = list_all cr_usage_complete results\<rparr>))))"

section \<open>The 95th percentile\<close>

lemma double_095: "f64 (95 / 100) = 8556839292003942 / 2 ^ 53"
proof -
  have eq: "(95 / 100) / 2 powi (-1 - 52) = (8556839292003942 + 2 / 5 :: rat)"
    by (simp add: power_int_def field_simps)
  have "round_half_even (8556839292003942 + 2 / 5) = 8556839292003942"
    by (rule round_half_even_eqI) simp
  from f64_eqI [of "-1" "95 / 100", OF _ _ this [folded eq]] show ?thesis
    by (simp add: power_int_def power_divide)
qed

text \<open>The rounded product has the ceiling of the exact one, for every number of results up to \<open>2 ^ 40\<close>.\<close>

lemma ceiling_095:
  assumes "n \<le> 2 ^ 40"
  shows "\<lceil>fmul (of_nat n) (f64 (95 / 100))\<rceil> = int ((19 * n + 19) div 20)"
proof -
  define q where "q = int ((19 * n + 19) div 20)"
  define x where "x = of_nat n * (8556839292003942 / 2 ^ 53 :: rat)"
  have q: "19 * int n \<le> 20 * q" "20 * q \<le> 19 * int n + 19" and q0: "0 \<le> q"
    unfolding q_def by linarith+
  have n: "int n \<le> 2 ^ 40" using assms by simp
  then have "(of_int (int n) :: rat) \<le> of_int (2 ^ 40)" by (simp only: of_int_le_iff)
  then have n': "(of_nat n :: rat) \<le> 2 ^ 40" by simp
  have "q \<le> 2 ^ 40" using q n by simp
  have "(of_int (19 * int n) :: rat) \<le> of_int (20 * q)" "(of_int (20 * q) :: rat) \<le> of_int (19 * int n + 19)"
    using q by (simp_all only: of_int_le_iff)
  then have qr: "(19 :: rat) * of_nat n \<le> 20 * of_int q" "20 * (of_int q :: rat) \<le> 19 * of_nat n + 19" by simp_all
  have "x \<le> of_int q" using qr by (simp add: x_def field_simps)
  moreover have "f64 (of_int q) = of_int q" using q0 \<open>q \<le> 2 ^ 40\<close> by (intro f64_of_int) simp
  ultimately have up: "f64 x \<le> of_int q" using f64_mono [of x "of_int q"] by simp
  have "of_int (32 * (q - 1) + 1) * 2 powi (-5) \<le> x"
    using qr n' by (simp add: x_def field_simps power_int_def)
  moreover have "f64 (of_int (32 * (q - 1) + 1) * 2 powi (-5)) = of_int (32 * (q - 1) + 1) * 2 powi (-5)"
    using q0 \<open>q \<le> 2 ^ 40\<close> by (intro f64_exact) simp
  ultimately have "of_int (32 * (q - 1) + 1) * 2 powi (-5) \<le> f64 x" using f64_mono by metis
  then have "of_int q - 1 < f64 x" by (simp add: power_int_def field_simps)
  with up have "\<lceil>f64 x\<rceil> = q" by (simp add: ceiling_eq_iff)
  then show ?thesis unfolding fmul_def double_095 x_def q_def .
qed

lemma p95_index_eq:
  assumes "0 < n" and "n \<le> 2 ^ 40"
  shows "p95_index n = (19 * n + 19) div 20 - 1"
  unfolding p95_index_def ceiling_095 [OF assms(2)] using assms(1) by linarith

lemma sorted_count_le:
  assumes "sorted xs" and "i < length xs"
  shows "i < length (filter (\<lambda>x. x \<le> xs ! i) xs)"
proof -
  have "filter (\<lambda>x. x \<le> xs ! i) (take (Suc i) xs) = take (Suc i) xs"
    using assms by (auto simp: filter_id_conv in_set_conv_nth sorted_iff_nth_mono)
  then have "length (filter (\<lambda>x. x \<le> xs ! i) (take (Suc i) xs @ drop (Suc i) xs)) \<ge> Suc i"
    using assms(2) by (simp del: append_take_drop_id)
  then show ?thesis by simp
qed

lemma sorted_count_less:
  assumes "sorted xs" and "i < length xs"
  shows "length (filter (\<lambda>x. x < xs ! i) xs) \<le> i"
proof -
  have "filter (\<lambda>x. x < xs ! i) (drop i xs) = []"
    using assms by (auto simp: filter_empty_conv in_set_conv_nth not_less sorted_iff_nth_mono)
  then have "length (filter (\<lambda>x. x < xs ! i) (take i xs @ drop i xs)) \<le> i"
    by (simp del: append_take_drop_id add: le_trans [OF length_filter_le])
  then show ?thesis by simp
qed

lemma length_filter_sort_map: "length (filter P (sort (map f xs))) = length (filter (P \<circ> f) xs)"
  by (simp add: filter_sort filter_map)

lemma p95_rank_arith:
  fixes n :: nat
  assumes "0 < n"
  shows "19 * n \<le> 20 * Suc ((19 * n + 19) div 20 - 1)" and "20 * ((19 * n + 19) div 20 - 1) < 19 * n"
    and "(19 * n + 19) div 20 - 1 < n"
proof -
  obtain q where q: "q = (19 * n + 19) div 20" by simp
  then have "20 * q \<le> 19 * n + 19" "19 * n \<le> 20 * q" by linarith+
  with assms show "19 * n \<le> 20 * Suc ((19 * n + 19) div 20 - 1)" "20 * ((19 * n + 19) div 20 - 1) < 19 * n"
    "(19 * n + 19) div 20 - 1 < n"
    unfolding q [symmetric] by (cases q; simp)+
qed

text \<open>The value reported is a nearest-rank percentile: enough results are at most it, and not enough are below.\<close>

lemma p95_latency_rank:
  assumes "results \<noteq> []" and "length results \<le> 2 ^ 40"
  shows "p95_latency results \<in> cr_latency_ms ` set results"
    and "19 * length results \<le> 20 * length (filter (\<lambda>r. cr_latency_ms r \<le> p95_latency results) results)"
    and "20 * length (filter (\<lambda>r. cr_latency_ms r < p95_latency results) results) < 19 * length results"
proof -
  define xs where "xs = sort (map cr_latency_ms results)"
  define i where "i = (19 * length results + 19) div 20 - 1"
  have n: "0 < length results" using assms(1) by simp
  have len: "length xs = length results" by (simp add: xs_def)
  have i: "i < length xs" using p95_rank_arith(3) [OF n] by (simp add: i_def len)
  have i20: "19 * length results \<le> 20 * i + 20" "20 * i < 19 * length results"
    using p95_rank_arith [OF n] by (simp_all add: i_def)
  have p: "p95_latency results = xs ! i"
  proof -
    have "xs \<noteq> []" using n len by auto
    then show ?thesis
      unfolding p95_latency_def Let_def xs_def [symmetric] len p95_index_eq [OF n assms(2)] i_def by simp
  qed
  have "sorted xs" by (simp add: xs_def)
  note c = sorted_count_le [OF this i] sorted_count_less [OF this i]
  have f: "length (filter P xs) = length (filter (P \<circ> cr_latency_ms) results)" for P
    unfolding xs_def by (rule length_filter_sort_map)
  show "p95_latency results \<in> cr_latency_ms ` set results"
    using nth_mem [OF i] by (simp add: p xs_def)
  show "19 * length results \<le> 20 * length (filter (\<lambda>r. cr_latency_ms r \<le> p95_latency results) results)"
    using c(1) i20 unfolding p f comp_def by linarith
  show "20 * length (filter (\<lambda>r. cr_latency_ms r < p95_latency results) results) < 19 * length results"
    using c(2) i20 unfolding p f comp_def by linarith
qed

section \<open>Rates and thresholds\<close>

lemma rate_bounds: "k \<le> n \<Longrightarrow> 0 \<le> rate k n \<and> rate k n \<le> 1"
proof -
  assume "k \<le> n"
  then have "(of_int (int k) :: rat) / of_int (int n) \<le> 1" by (cases "n = 0") (simp_all add: divide_le_eq_1)
  then show ?thesis by (auto simp: rate_def int_truediv_def f64_nonneg f64_le_1)
qed


lemma rate_greater_real: "is_f64 m \<Longrightarrow> 0 < n \<Longrightarrow> m < rate k n \<Longrightarrow> m < of_nat k / of_nat n"
  by (rule f64_greater_imp_greater) (simp_all add: rate_def int_truediv_def)

lemma threshold_failures_empty:
  "threshold_failures sr er p ev = [] \<longleftrightarrow>
     (\<forall>m. ev_min_success_rate ev = Some m \<longrightarrow> \<not> fl_lt (Fin sr) m) \<and>
     (\<forall>m. ev_max_error_rate ev = Some m \<longrightarrow> \<not> fl_lt m (Fin er)) \<and>
     (\<forall>m. ev_max_p95_latency_ms ev = Some m \<longrightarrow> p \<le> of_int m)"
  by (auto simp: threshold_failures_def not_less split: option.splits)

section \<open>The order of the results does not matter\<close>

text \<open>
  Cases finish in any order. The decimal sums are exact below \<open>10 ^ 16\<close> USD, so they do not
  depend on it either.
\<close>

definition costs_ok :: "string option list \<Rightarrow> bool" where
  "costs_ok vs \<longleftrightarrow> None \<in> set vs \<or>
     (\<exists>u. (\<forall>v \<in> set vs. v = Some (fixed_str 12 (u v)) \<and> 0 \<le> u v) \<and> sum_list (map u vs) < 10 ^ 28)"

lemma sum_list_mset_cong: "mset xs = mset ys \<Longrightarrow> sum_list (map f xs) = (sum_list (map f ys) :: int)"
  by (metis mset_map sum_mset_sum_list)

lemma sum_costs_units:
  assumes "None \<notin> set vs" and "vs \<noteq> []" and "\<forall>v \<in> set vs. v = Some (fixed_str 12 (u v)) \<and> 0 \<le> u v"
    and "sum_list (map u vs) < 10 ^ 28"
  shows "sum_costs vs = Inr (Some (fixed_str 12 (sum_list (map u vs))))"
proof -
  have "vs = map (\<lambda>n. Some (fixed_str 12 n)) (map u vs)"
    using assms(3) by (simp add: map_idI [symmetric] comp_def)
  moreover have "sum_costs (map (\<lambda>n. Some (fixed_str 12 n)) (map u vs)) = Inr (Some (fixed_str 12 (sum_list (map u vs))))"
    using assms by (intro sum_costs_exact) auto
  ultimately show ?thesis by simp
qed

lemma sum_costs_perm:
  assumes m: "mset vs = mset ws" and ok: "costs_ok vs"
  shows "sum_costs vs = sum_costs ws"
proof (cases "None \<in> set vs \<or> vs = []")
  case True
  with m show ?thesis by (metis empty_iff mset_zero_iff_right set_mset_mset sum_costs_def)
next
  case False
  then obtain u where u: "\<forall>v \<in> set vs. v = Some (fixed_str 12 (u v)) \<and> 0 \<le> u v" "sum_list (map u vs) < 10 ^ 28"
    using ok by (auto simp: costs_ok_def)
  have s: "set ws = set vs" "sum_list (map u ws) = sum_list (map u vs)" "ws \<noteq> []"
    using m False mset_eq_setD sum_list_mset_cong by (metis, metis, metis mset_zero_iff)
  show ?thesis
    using sum_costs_units [of vs u] sum_costs_units [of ws u] u s False by simp
qed

lemma length_filter_mset_cong: "mset xs = mset ys \<Longrightarrow> length (filter P xs) = length (filter P ys)"
  by (metis mset_filter size_mset)

lemma list_all_mset_cong: "mset xs = mset ys \<Longrightarrow> list_all P xs = list_all P ys"
  by (metis list_all_iff mset_eq_setD)

lemma sum_model_calls_perm: "mset xs = mset ys \<Longrightarrow> sum_model_calls xs = sum_model_calls ys"
  by (simp add: sum_model_calls_def list_all_mset_cong [of xs ys] sum_list_mset_cong [of xs ys])

lemma p95_latency_perm: "mset xs = mset ys \<Longrightarrow> p95_latency xs = p95_latency ys"
proof -
  assume "mset xs = mset ys"
  then have "sort (map cr_latency_ms xs) = sort (map cr_latency_ms ys)"
    by (intro properties_for_sort) simp_all
  then show ?thesis by (simp add: p95_latency_def)
qed

lemma summarize_cong:
  assumes m: "mset xs = mset ys" and "costs_ok (map cr_input_cost_usd xs)"
    and "costs_ok (map cr_output_cost_usd xs)" and "costs_ok (map cr_cost_usd xs)"
  shows "summarize i s n xs ev d = summarize i s n ys ev d"
proof -
  have mf: "mset (filter cr_success xs) = mset (filter cr_success ys)" using m by simp
  have mm: "mset (map f xs) = mset (map f ys)" for f :: "case_result \<Rightarrow> string option" using m by simp
  have ne: "filter cr_success xs = [] \<longleftrightarrow> filter cr_success ys = []" using mf by (metis mset_zero_iff)
  have len: "length xs = length ys" using m by (metis size_mset)
  show ?thesis
    unfolding summarize_def Let_def len p95_latency_perm [OF m] sum_model_calls_perm [OF m] ne
      sum_model_calls_perm [OF mf] length_filter_mset_cong [OF m] list_all_mset_cong [OF m]
      sum_list_mset_cong [OF m] sum_list_mset_cong [OF mf]
      sum_costs_perm [OF mm assms(2)] sum_costs_perm [OF mm assms(3)] sum_costs_perm [OF mm assms(4)] ..
qed

section \<open>Provider codes\<close>

text \<open>A token that reaches a result is short and of a fixed alphabet, whatever the provider sent.\<close>

definition token_ok :: "string \<Rightarrow> bool" where
  "token_ok s \<longleftrightarrow> length s \<le> 32 \<and> set s \<subseteq> set provider_token_chars"

lemma token_ok_Nil [simp]: "token_ok []"
  by (simp add: token_ok_def)

lemma provider_token_ok: "token_ok (provider_token v)"
  by (auto simp: provider_token_def token_ok_def list_ex_iff split: option.splits json.splits)

lemma foldl_token_ok: "token_ok a \<Longrightarrow> (\<And>t x. x \<in> set xs \<Longrightarrow> token_ok t \<Longrightarrow> token_ok (f t x)) \<Longrightarrow> token_ok (foldl f a xs)"
  by (induction xs arbitrary: a) auto

lemma last_rate_limit_code_ok: "token_ok (last_rate_limit_code d)"
  by (auto simp: last_rate_limit_code_def Let_def provider_token_ok intro!: foldl_token_ok
      split: option.splits json.splits)

lemma attempt_provider_code_ok: "token_ok (attempt_provider_code m)"
  by (simp add: attempt_provider_code_def Let_def provider_token_ok last_rate_limit_code_ok split: option.splits)

lemma case_provider_code_ok:
  "(\<And>a. a \<in> set attempts \<Longrightarrow> token_ok (at_provider_error_code a)) \<Longrightarrow>
   token_ok (fst (case_provider_fields attempts))"
  by (auto simp: case_provider_fields_def intro!: foldl_token_ok)

text \<open>The code of a case is that of its last attempt that has one.\<close>

lemma case_provider_code_last:
  "fst (case_provider_fields attempts) =
     (case filter (\<lambda>c. c \<noteq> []) (map at_provider_error_code attempts) of [] \<Rightarrow> [] | cs \<Rightarrow> last cs)"
  by (induction attempts rule: rev_induct) (auto simp: case_provider_fields_def split: list.splits)

lemma rate_limit_events_nonneg: "0 \<le> rate_limit_events m"
  by (simp add: rate_limit_events_def split: option.splits json.splits)

section \<open>Properties\<close>

text \<open>The reported 95th percentile is the latency of one of the results; at least 95 percent of the results are at
  most it, and fewer than 95 percent are below it. The floating-point index is the exact one for up to
  2 ^ 40 results.\<close>

theorem p95_is_percentile:
  assumes "results \<noteq> []" and "length results \<le> 2 ^ 40"
  shows "p95_latency results \<in> cr_latency_ms ` set results \<and>
    19 * length results \<le> 20 * length (filter (\<lambda>r. cr_latency_ms r \<le> p95_latency results) results) \<and>
    20 * length (filter (\<lambda>r. cr_latency_ms r < p95_latency results) results) < 19 * length results"
  using p95_latency_rank [OF assms] by blast

definition demo_result :: "bool \<Rightarrow> rat \<Rightarrow> case_result" where
  "demo_result ok latency =
     \<lparr>cr_case_id = ''c'', cr_iteration = 0, cr_success = ok, cr_latency_ms = latency, cr_failure_kind = [],
      cr_failure_category = [], cr_error_code = [], cr_attempts = [], cr_usage_complete = True, cr_output = [],
      cr_error = None, cr_input_tokens = Some 11, cr_output_tokens = Some 7, cr_model_call_count = Some 1,
      cr_tool_call_count = 1, cr_tool_path = [], cr_assertions = [], cr_input_cost_usd = None,
      cr_output_cost_usd = None, cr_cost_usd = None, cr_provider_error_code = [], cr_in_call_retry_count = 0\<rparr>"

theorem p95_is_percentile_witness:
  "p95_latency [demo_result True 5, demo_result False 3] \<in> {5, 3}"
  using p95_is_percentile [of "[demo_result True 5, demo_result False 3]"] by (simp add: demo_result_def)



text \<open>C40: the summary does not depend on the order in which cases finished, when the cost texts are exact picodollar amounts
  that sum to less than 10 ^ 16 USD, or some are missing.\<close>

theorem summary_order_free:
  assumes "mset xs = mset ys" and "costs_ok (map cr_input_cost_usd xs)"
    and "costs_ok (map cr_output_cost_usd xs)" and "costs_ok (map cr_cost_usd xs)"
  shows "summarize i s n xs ev d = summarize i s n ys ev d"
  using assms by (rule summarize_cong)

theorem summary_order_free_witness:
  "summarize ''run'' 0 1 [demo_result True 5, demo_result False 3]
     \<lparr>ev_min_success_rate = None, ev_max_error_rate = None, ev_max_p95_latency_ms = Some 4\<rparr> 0 =
   summarize ''run'' 0 1 [demo_result False 3, demo_result True 5]
     \<lparr>ev_min_success_rate = None, ev_max_error_rate = None, ev_max_p95_latency_ms = Some 4\<rparr> 0"
  by (rule summary_order_free) (simp_all add: costs_ok_def demo_result_def)

text \<open>A provider code that reaches a result has at most 32 characters, all letters, digits, underscore, dot or hyphen,
  whatever the provider put into the metadata.\<close>

theorem provider_codes_safe:
  "token_ok (attempt_provider_code metadata)"
  by (rule attempt_provider_code_ok)

end
