(* ===== verification/Runner.thy ===== *)
theory Runner
  imports Circuit Retry Scheduler Evaluators Summary
begin

text \<open>
  \<open>WorkloadRunner\<close> of \<open>worker/src/agentstorm_worker/runner.py\<close>, one case at a time: an attempt, the
  loop of attempts with its retry decisions, the terminal record of the breaker, the evaluation and
  the result. Theory \<open>Pool\<close> has the workers that execute cases concurrently.

  A case is state passing. The state \<open>run_st\<close> counts the readings of \<open>time.perf_counter\<close> and the
  looks at the stop event, collects the spans that ended, and holds the breaker. What the outside does is the record
  \<open>case_oracle\<close>: the clock, the stop event, the adapter, how sleeps and pauses end, the permits of
  the limiter. A function returns \<open>Inl\<close> when an exception leaves it: a cancellation, or an error of
  the arithmetic that nothing catches.
\<close>

section \<open>Environment, oracle and state\<close>

record runner_env =
  rv_digest :: "nat list \<Rightarrow> nat list"
  rv_agents :: bool
  rv_openai :: bool
  rv_frep :: "rat \<Rightarrow> string"
  rv_sub :: "string \<Rightarrow> string \<Rightarrow> string"
  rv_rep :: "json \<Rightarrow> string"
  rv_eval :: eval_env

text \<open>
  \<open>or_limited\<close> says that there is a distributed limiter; \<open>or_permit n\<close> is how its wait ended before
  attempt \<open>n\<close> and \<open>or_lost n\<close> whether the lease was lost during the attempt. \<open>or_monotonic\<close> are the two
  readings of the clock of the breaker, and \<open>or_others\<close> is what the other tasks did to the breaker
  between them.
\<close>

record case_oracle =
  or_clock :: "nat \<Rightarrow> rat"
  or_stop :: "nat \<Rightarrow> bool"
  or_adapter :: "nat \<Rightarrow> bool \<Rightarrow> test_case \<Rightarrow> adapter_run"
  or_sleep :: "nat \<Rightarrow> nat \<Rightarrow> rat \<Rightarrow> answer"
  or_wait :: "nat \<Rightarrow> wait_answer"
  or_limited :: bool
  or_permit :: "nat \<Rightarrow> permit_entry"
  or_lost :: "nat \<Rightarrow> bool"
  or_monotonic :: "rat \<times> rat"
  or_others :: "breaker \<Rightarrow> breaker"

record run_st =
  st_clock :: nat
  st_stop :: nat
  st_spans :: "span list"
  st_breaker :: breaker

datatype stopped = CancelledError | Escapes py_error

type_synonym 'a action = "run_st \<Rightarrow> (stopped + 'a) \<times> run_st"

definition perf_counter :: "case_oracle \<Rightarrow> run_st \<Rightarrow> rat \<times> run_st" where
  "perf_counter orc st = (or_clock orc (st_clock st), st\<lparr>st_clock := Suc (st_clock st)\<rparr>)"

definition stop_is_set :: "case_oracle \<Rightarrow> run_st \<Rightarrow> bool \<times> run_st" where
  "stop_is_set orc st = (or_stop orc (st_stop st), st\<lparr>st_stop := Suc (st_stop st)\<rparr>)"

definition emit :: "span list \<Rightarrow> run_st \<Rightarrow> run_st" where
  "emit spans st = st\<lparr>st_spans := st_spans st @ spans\<rparr>"

text \<open>\<open>with telemetry.start_span(...) as span\<close>: the span ends however the body leaves.\<close>

definition with_span ::
  "string \<Rightarrow> attribute_value dict \<Rightarrow> (span \<Rightarrow> run_st \<Rightarrow> (stopped + 'a) \<times> span \<times> run_st) \<Rightarrow> 'a action" where
  "with_span name attributes body st =
     (case body (start_span name attributes) st of
        (r, sp, st') \<Rightarrow> (r, emit [end_span sp] st'))"

definition content_sanitizer_of :: "runner_env \<Rightarrow> run_config \<Rightarrow> content_sanitizer option" where
  "content_sanitizer_of env config =
     (if tl_content_mode (rc_telemetry config) = ''redacted''
      then Some \<lparr>san_frep = rv_frep env, san_sub = rv_sub env,
                 san_patterns = td_patterns (tl_redaction (rc_telemetry config))\<rparr>
      else None)"

section \<open>One attempt\<close>

definition timeout_exc :: py_exc where
  "timeout_exc = \<lparr>px_name = ''TimeoutError'', px_classes = [AsyncioTimeoutError, TimeoutErrorC],
                  px_status_code = 0, px_execution = None\<rparr>"

definition expired_error :: execution_error where
  "expired_error = (ExecutionError ''provider'' ''timeout'' ''timeout'')\<lparr>ee_ambiguous := True\<rparr>"

definition scenario_of :: "run_config \<Rightarrow> fault_scenario_config option" where
  "scenario_of config = (case rc_reliability config of None \<Rightarrow> None | Some r \<Rightarrow> rl_scenario r)"

definition seed_of :: "run_config \<Rightarrow> int option" where
  "seed_of config = (case rc_reliability config of None \<Rightarrow> None | Some r \<Rightarrow> rl_seed r)"

definition breaker_of :: "run_config \<Rightarrow> circuit_breaker_config option" where
  "breaker_of config = (case rc_reliability config of None \<Rightarrow> None | Some r \<Rightarrow> rl_circuit_breaker r)"

text \<open>The adapter behind the fault middleware, run against the lifecycle of the attempt.\<close>

definition run_adapter ::
  "runner_env \<Rightarrow> run_config \<Rightarrow> case_oracle \<Rightarrow> test_case \<Rightarrow> nat \<Rightarrow> nat \<Rightarrow> outcome \<times> case_lifecycle" where
  "run_adapter env config orc c iteration attempt =
     (case interp (middleware_run (rv_digest env) (scenario_of config) (seed_of config) (or_adapter orc attempt)
                     c iteration attempt True)
             (case_handler (content_sanitizer_of env config) (or_sleep orc attempt)) (CaseLifecycle, 0)
      of (r, l, _) \<Rightarrow> (r, l))"

text \<open>
  The \<open>try\<close> block of \<open>_invoke_attempt\<close>. With a limiter the clock is read once more, for the timeout
  of the call.
\<close>

definition call_provider ::
  "runner_env \<Rightarrow> run_config \<Rightarrow> case_oracle \<Rightarrow> test_case \<Rightarrow> nat \<Rightarrow> nat \<Rightarrow> rat \<Rightarrow> run_st \<Rightarrow>
   (outcome \<times> case_lifecycle) \<times> run_st" where
  "call_provider env config orc c iteration attempt remaining_seconds st =
     (if remaining_seconds \<le> 0 then ((ORaise (execution_exc expired_error), CaseLifecycle), st)
      else if \<not> or_limited orc then (run_adapter env config orc c iteration attempt, st)
      else case or_permit orc attempt of
        EntryRaises x \<Rightarrow> ((ORaise x, CaseLifecycle), st)
      | EntryCancelled \<Rightarrow> ((OCancelled, CaseLifecycle), st)
      | Entered _ \<Rightarrow>
          (case run_adapter env config orc c iteration attempt of
             (r, l) \<Rightarrow> ((permit_exit (or_lost orc attempt) r, l), snd (perf_counter orc st))))"

definition provider_attributes :: "run_config \<Rightarrow> nat \<Rightarrow> attribute_value dict" where
  "provider_attributes config attempt_number =
     (let attributes = [(''gen_ai.operation.name'', AStr ''invoke_agent''),
                        (''gen_ai.provider.name'', AStr (tg_provider (rc_target config))),
                        (''agentstorm.attempt.number'', AInt (int attempt_number))]
      in if tg_model (rc_target config) \<noteq> []
         then dict_set attributes ''gen_ai.request.model'' (AStr (tg_model (rc_target config))) else attributes)"

text \<open>What the exception handlers make of the outcome; \<open>None\<close> is the cancellation, which they re-raise.\<close>

definition provider_error :: "runner_env \<Rightarrow> outcome \<Rightarrow> (adapter_response option \<times> (string \<times> execution_error) option) option" where
  "provider_error env r =
     (let failed = (\<lambda>x. let e = classify_adapter_exception (rv_agents env) (rv_openai env) x
                        in Some (ee_response e, Some (px_name x, e)))
      in case r of
           ORet response \<Rightarrow> Some (Some response, None)
         | ORaise x \<Rightarrow> failed x
         | OTimeout \<Rightarrow> failed timeout_exc
         | OCancelled \<Rightarrow> None)"

definition set_option_attribute :: "string \<Rightarrow> int option \<Rightarrow> span \<Rightarrow> span" where
  "set_option_attribute k v sp = (case v of None \<Rightarrow> sp | Some n \<Rightarrow> set_attribute k (AInt n) sp)"

text \<open>The provider span after the call, from the response, the error and the sanitizer.\<close>

definition provider_span ::
  "content_sanitizer option \<Rightarrow> adapter_response option \<Rightarrow> (string \<times> execution_error) option \<Rightarrow> span \<Rightarrow> span" where
  "provider_span san response error sp =
     (let sp = (case error of
                  None \<Rightarrow> sp
                | Some (name, e) \<Rightarrow>
                    set_attribute ''agentstorm.error.code'' (AStr (ee_code e))
                      (set_attribute ''agentstorm.failure.category'' (AStr (ee_category e)) (set_error name sp)))
      in case response of
           None \<Rightarrow> sp
         | Some r \<Rightarrow>
             (let sp = set_option_attribute ''gen_ai.usage.output_tokens'' (ar_output_tokens r)
                         (set_option_attribute ''gen_ai.usage.input_tokens'' (ar_input_tokens r) sp)
              in case (error, san) of
                   (None, Some s) \<Rightarrow> set_attribute ''agentstorm.content.output'' (AStr (sanitizer_string s (ar_output r))) sp
                 | _ \<Rightarrow> sp))"

text \<open>The record of the attempt.\<close>

definition metadata_str :: "runner_env \<Rightarrow> adapter_response \<Rightarrow> string \<Rightarrow> string" where
  "metadata_str env r k = py_str (rv_rep env) (obj_get_default (ar_metadata r) k (JStr []))"

definition build_attempt ::
  "runner_env \<Rightarrow> nat \<Rightarrow> rat \<Rightarrow> adapter_response option \<Rightarrow> execution_error option \<Rightarrow> string list \<Rightarrow> attempt_result" where
  "build_attempt env attempt_number latency_ms response error tool_path =
     (let usage_complete =
            (case error of
               Some e \<Rightarrow> ee_usage_complete e
             | None \<Rightarrow> (case response of None \<Rightarrow> False
                        | Some r \<Rightarrow> ar_input_tokens r \<noteq> None \<and> ar_output_tokens r \<noteq> None));
          (input_tokens, output_tokens) =
            (case response of
               Some r \<Rightarrow> (ar_input_tokens r, ar_output_tokens r)
             | None \<Rightarrow> if usage_complete then (Some 0, Some 0) else (None, None));
          (injected_rule, injected_fault) =
            (case error of
               Some e \<Rightarrow> (ee_injected_rule e, ee_injected_fault e)
             | None \<Rightarrow> (case response of None \<Rightarrow> ([], [])
                        | Some r \<Rightarrow> (metadata_str env r ''agentstorm.injected_rule'',
                                      metadata_str env r ''agentstorm.injected_fault'')))
      in \<lparr>at_number = attempt_number, at_latency_ms = latency_ms,
          at_outcome = (if error \<noteq> None then ''failed'' else ''succeeded''),
          at_failure_category = (case error of Some e \<Rightarrow> ee_category e | None \<Rightarrow> []),
          at_error_code = (case error of Some e \<Rightarrow> ee_code e | None \<Rightarrow> []),
          at_injected_rule = injected_rule, at_injected_fault = injected_fault,
          at_ambiguous = (case error of Some e \<Rightarrow> ee_ambiguous e | None \<Rightarrow> False),
          at_retry_decision = ''not_needed'', at_backoff_ms = 0,
          at_input_tokens = input_tokens, at_output_tokens = output_tokens, at_usage_complete = usage_complete,
          at_model_call_count =
            (case response of
               Some r \<Rightarrow> ar_model_call_count r
             | None \<Rightarrow> if injected_fault \<in> {''timeout'', ''rate_limit'', ''http_error''} then Some 0 else None),
          at_tool_call_count =
            (if tool_path \<noteq> [] then int (length tool_path)
             else (case response of
                     Some r \<Rightarrow> (case ar_tool_call_count r of Some n \<Rightarrow> n | None \<Rightarrow> 0)
                   | None \<Rightarrow> 0)),
          at_circuit_events = (case error of Some e \<Rightarrow> ee_circuit_events e | None \<Rightarrow> []),
          at_provider_error_code = attempt_provider_code (map_option ar_metadata response),
          at_rate_limit_events = rate_limit_events (map_option ar_metadata response),
          at_finish_reason =
            provider_token (case response of
                              None \<Rightarrow> None
                            | Some r \<Rightarrow> dict_get (ar_metadata r) ''agentstorm.provider.finish_reason'')\<rparr>)"

type_synonym attempt_out =
  "adapter_response option \<times> execution_error option \<times> attempt_result \<times> string list"

definition elapsed_ms :: "rat \<Rightarrow> rat \<Rightarrow> rat" where
  "elapsed_ms started now = fmul (fsub now started) 1000"

definition invoke_attempt ::
  "runner_env \<Rightarrow> run_config \<Rightarrow> case_oracle \<Rightarrow> test_case \<Rightarrow> nat \<Rightarrow> nat \<Rightarrow> rat \<Rightarrow> attempt_out action" where
  "invoke_attempt env config orc c iteration attempt_number remaining_seconds =
     with_span ''gen_ai.invoke_agent'' (provider_attributes config attempt_number) (\<lambda>sp st.
       let (started, st) = perf_counter orc st;
           ((r, l), st) = call_provider env config orc c iteration attempt_number remaining_seconds st
       in case provider_error env r of
            None \<Rightarrow> (Inl CancelledError, set_error ''cancelled'' sp, emit (lc_spans (close ''cancelled'' l)) st)
          | Some (response, error) \<Rightarrow>
              let (now, st) = perf_counter orc st;
                  l = close (case error of None \<Rightarrow> ''incomplete_tool_call'' | Some (name, _) \<Rightarrow> name) l
              in (Inr (response, map_option snd error,
                       build_attempt env attempt_number (elapsed_ms started now) response (map_option snd error)
                         (lc_tool_path l),
                       lc_tool_path l),
                  provider_span (content_sanitizer_of env config) response error sp,
                  emit (lc_spans l) st))"

section \<open>The loop of attempts\<close>

text \<open>
  The decision after a failed attempt and its backoff. The clock is read only when the backoff fits
  the budget. \<open>reliability.retry\<close> is \<open>None\<close> when the run has no reliability section.
\<close>

definition retry_of :: "run_config \<Rightarrow> retry_config option" where
  "retry_of config = map_option rl_retry (rc_reliability config)"

definition retry_decision ::
  "runner_env \<Rightarrow> run_config \<Rightarrow> case_oracle \<Rightarrow> test_case \<Rightarrow> nat \<Rightarrow> circuit_permit \<Rightarrow> rat \<Rightarrow> nat \<Rightarrow> int \<Rightarrow>
   execution_error \<Rightarrow> (string \<times> int) action" where
  "retry_decision env config orc c iteration permit deadline attempt_number cumulative error st =
     (case retry_of config of
        None \<Rightarrow> (Inr (''not_retryable'', 0), st)
      | Some retry \<Rightarrow>
          (let decision = retry_eligibility error retry;
               decision = (if is_retry decision \<and> pm_probe permit then ''half_open_no_retry'' else decision);
               decision = (if is_retry decision \<and> rt_max_attempts retry \<le> int attempt_number
                           then ''attempt_limit'' else decision)
           in if \<not> is_retry decision then (Inr (decision, 0), st)
              else case retry_backoff_ms (rv_digest env) retry (seed_of config) (tc_case_id c) iteration attempt_number of
                Inl e \<Rightarrow> (Inl (Escapes e), st)
              | Inr backoff_ms \<Rightarrow>
                  if rt_max_cumulative_backoff_ms retry < cumulative + backoff_ms then (Inr (''backoff_budget'', 0), st)
                  else
                    (let (now, st) = perf_counter orc st
                     in if max 0 (fsub deadline now) \<le> int_truediv backoff_ms 1000 then (Inr (''time_budget'', 0), st)
                        else (Inr (decision, backoff_ms), st))))"

definition attempt_span_attributes :: "attempt_result \<Rightarrow> execution_error option \<Rightarrow> span \<Rightarrow> span" where
  "attempt_span_attributes a error sp =
     (let sp = set_attribute ''agentstorm.attempt.outcome'' (AStr (at_outcome a)) sp;
          sp = set_attribute ''agentstorm.retry.decision'' (AStr (at_retry_decision a)) sp;
          sp = set_attribute ''agentstorm.retry.backoff_ms'' (AInt (at_backoff_ms a)) sp;
          sp = set_attribute ''agentstorm.attempt.ambiguous'' (ABool (at_ambiguous a)) sp;
          sp = set_option_attribute ''agentstorm.agent.model_call_count'' (at_model_call_count a) sp;
          sp = set_attribute ''agentstorm.agent.tool_call_count'' (AInt (at_tool_call_count a)) sp;
          sp = (if at_injected_fault a \<noteq> [] then set_attribute ''agentstorm.fault.type'' (AStr (at_injected_fault a)) sp else sp)
      in case error of None \<Rightarrow> sp | Some e \<Rightarrow> set_error (ee_code e) sp)"

text \<open>The events of the permit and the retry decision go into the record of the attempt.\<close>

definition settle_attempt ::
  "runner_env \<Rightarrow> run_config \<Rightarrow> case_oracle \<Rightarrow> test_case \<Rightarrow> nat \<Rightarrow> circuit_permit \<Rightarrow> rat \<Rightarrow> nat \<Rightarrow> int \<Rightarrow>
   execution_error option \<Rightarrow> attempt_result \<Rightarrow> attempt_result action" where
  "settle_attempt env config orc c iteration permit deadline attempt_number cumulative error attempt st =
     (let attempt = (if attempt_number = 1
                     then attempt\<lparr>at_circuit_events := at_circuit_events attempt @ pm_events permit\<rparr> else attempt)
      in case error of
           None \<Rightarrow> (Inr (attempt\<lparr>at_retry_decision := ''not_needed''\<rparr>), st)
         | Some e \<Rightarrow>
             (case retry_decision env config orc c iteration permit deadline attempt_number cumulative e st of
                (Inl x, st) \<Rightarrow> (Inl x, st)
              | (Inr (decision, backoff_ms), st) \<Rightarrow>
                  (Inr (attempt\<lparr>at_retry_decision := decision, at_backoff_ms := backoff_ms\<rparr>), st)))"

text \<open>One round of the loop up to the end of the span \<open>agentstorm.attempt\<close>.\<close>

definition attempt_round ::
  "runner_env \<Rightarrow> run_config \<Rightarrow> case_oracle \<Rightarrow> test_case \<Rightarrow> nat \<Rightarrow> circuit_permit \<Rightarrow> rat \<Rightarrow> nat \<Rightarrow> int \<Rightarrow>
   attempt_out action" where
  "attempt_round env config orc c iteration permit deadline attempt_number cumulative st =
     (let (stop, st) = stop_is_set orc st in
      if stop then (Inl CancelledError, st)
      else
        (let (now, st) = perf_counter orc st;
             remaining = max 0 (fsub deadline now)
         in with_span ''agentstorm.attempt''
              [(''agentstorm.case.id'', AStr (tc_case_id c)), (''agentstorm.case.iteration'', AInt (int iteration)),
               (''agentstorm.attempt.number'', AInt (int attempt_number))]
              (\<lambda>sp st.
                 case invoke_attempt env config orc c iteration attempt_number remaining st of
                   (Inl x, st) \<Rightarrow> (Inl x, sp, st)
                 | (Inr (response, error, attempt, tools), st) \<Rightarrow>
                     (case settle_attempt env config orc c iteration permit deadline attempt_number cumulative error attempt st of
                        (Inl x, st) \<Rightarrow> (Inl x, sp, st)
                      | (Inr attempt, st) \<Rightarrow>
                          (Inr (response, error, attempt, tools), attempt_span_attributes attempt error sp, st)))
              st))"

text \<open>The pause before the next attempt: \<open>wait_for(stop_event.wait(), backoff)\<close> under a span.\<close>

definition backoff_pause :: "case_oracle \<Rightarrow> test_case \<Rightarrow> nat \<Rightarrow> attempt_result \<Rightarrow> unit action" where
  "backoff_pause orc c iteration attempt st =
     (let (stop, st) = stop_is_set orc st in
      if stop then (Inl CancelledError, st)
      else with_span ''agentstorm.retry''
        [(''agentstorm.case.id'', AStr (tc_case_id c)), (''agentstorm.case.iteration'', AInt (int iteration)),
         (''agentstorm.attempt.number'', AInt (int (at_number attempt))),
         (''agentstorm.retry.decision'', AStr (at_retry_decision attempt)),
         (''agentstorm.retry.backoff_ms'', AInt (at_backoff_ms attempt))]
        (\<lambda>sp st. (if or_wait orc (at_number attempt) = WaitTimedOut then Inr () else Inl CancelledError, sp, st)) st)"

lemma with_span_cases:
  "with_span n d body st = (r, st') \<longleftrightarrow> (\<exists>sp st1. body (start_span n d) st = (r, sp, st1) \<and> st' = emit [end_span sp] st1)"
  by (auto simp: with_span_def split: prod.splits)

text \<open>What a decision to retry implies.\<close>

lemma retry_decision_retry:
  assumes "retry_decision env config orc c it permit deadline n cumulative e st = (Inr (d, b), st')" and "is_retry d"
  obtains retry where "retry_of config = Some retry" and "int n < rt_max_attempts retry" and "\<not> pm_probe permit"
    and "d = retry_eligibility e retry" and "cumulative + b \<le> rt_max_cumulative_backoff_ms retry"
    and "retry_backoff_ms (rv_digest env) retry (seed_of config) (tc_case_id c) it n = Inr b"
  using assms
  by (auto simp: retry_decision_def Let_def perf_counter_def split: option.splits if_splits sum.splits)

lemma retry_decision_no_retry:
  assumes "retry_decision env config orc c it permit deadline n cumulative e st = (Inr (d, b), st')" and "\<not> is_retry d"
  shows "b = 0"
  using assms
  by (auto simp: retry_decision_def Let_def perf_counter_def split: option.splits if_splits sum.splits)

lemma build_attempt_number [simp]:
  "at_number (build_attempt env n l r e t) = n" "at_retry_decision (build_attempt env n l r e t) = ''not_needed''"
  "at_backoff_ms (build_attempt env n l r e t) = 0"
  by (simp_all add: build_attempt_def Let_def split: option.splits prod.splits)

text \<open>What an attempt returns: the record built from its response and error, whose circuit events the first attempt extends.\<close>

lemma invoke_attempt_out:
  assumes "invoke_attempt env config orc c it n remaining st = (Inr (response, error, a, tools), st')"
  obtains latency where "a = build_attempt env n latency response error tools"
  using assms
  by (auto simp: invoke_attempt_def with_span_cases Let_def split: prod.splits option.splits)

definition round_attempt ::
  "runner_env \<Rightarrow> circuit_permit \<Rightarrow> nat \<Rightarrow> rat \<Rightarrow> adapter_response option \<Rightarrow> execution_error option \<Rightarrow> string list \<Rightarrow>
   string \<Rightarrow> int \<Rightarrow> attempt_result" where
  "round_attempt env permit n latency response error tools decision backoff =
     (let a = build_attempt env n latency response error tools
      in a\<lparr>at_circuit_events := at_circuit_events a @ (if n = 1 then pm_events permit else []),
           at_retry_decision := decision, at_backoff_ms := backoff\<rparr>)"

lemma settle_attempt_out:
  assumes "settle_attempt env config orc c it permit deadline n cumulative error (build_attempt env n latency response error tools) st = (Inr a, st')"
  obtains decision backoff where "a = round_attempt env permit n latency response error tools decision backoff"
    and "error = None \<Longrightarrow> decision = ''not_needed'' \<and> backoff = 0"
    and "\<And>e. error = Some e \<Longrightarrow>
      retry_decision env config orc c it permit deadline n cumulative e st = (Inr (decision, backoff), st')"
proof (cases error)
  case None
  with assms show ?thesis
    by (intro that [of "''not_needed''" 0]) (auto simp: settle_attempt_def round_attempt_def Let_def)
next
  case (Some e)
  with assms obtain d b where d: "retry_decision env config orc c it permit deadline n cumulative e st = (Inr (d, b), st')"
    and a: "a = round_attempt env permit n latency response error tools d b"
    by (auto simp: settle_attempt_def round_attempt_def Let_def split: prod.splits sum.splits)
  show ?thesis by (rule that [OF a]) (use d Some in auto)
qed

lemma attempt_round_out:
  assumes "attempt_round env config orc c it permit deadline n cumulative st = (Inr (response, error, a, tools), st')"
  obtains latency decision backoff st1 st2 where
    "a = round_attempt env permit n latency response error tools decision backoff"
    and "error = None \<Longrightarrow> decision = ''not_needed'' \<and> backoff = 0"
    and "\<And>e. error = Some e \<Longrightarrow>
      retry_decision env config orc c it permit deadline n cumulative e st1 = (Inr (decision, backoff), st2)"
proof -
  from assms obtain remaining a0 st0 st1 st2 where
    inv: "invoke_attempt env config orc c it n remaining st0 = (Inr (response, error, a0, tools), st1)"
    and set: "settle_attempt env config orc c it permit deadline n cumulative error a0 st1 = (Inr a, st2)"
    by (auto simp: attempt_round_def Let_def with_span_cases split: prod.splits if_splits sum.splits)
  from inv obtain latency where "a0 = build_attempt env n latency response error tools" by (rule invoke_attempt_out)
  with set have "settle_attempt env config orc c it permit deadline n cumulative error
      (build_attempt env n latency response error tools) st1 = (Inr a, st2)" by simp
  then show ?thesis by (rule settle_attempt_out) (rule that)
qed

lemma round_attempt_simps [simp]:
  "at_number (round_attempt env permit n l r e t d b) = n"
  "at_retry_decision (round_attempt env permit n l r e t d b) = d"
  "at_backoff_ms (round_attempt env permit n l r e t d b) = b"
  by (simp_all add: round_attempt_def Let_def)

text \<open>A round that is to be retried is below the attempt limit: the measure of the loop.\<close>

lemma attempt_round_retry:
  assumes "attempt_round env config orc c it permit deadline n cumulative st = (Inr (response, Some e, a, tools), st')"
    and "is_retry (at_retry_decision a)"
  obtains retry where "retry_of config = Some retry" and "int n < rt_max_attempts retry" and "\<not> pm_probe permit"
    and "at_retry_decision a = retry_eligibility e retry"
    and "cumulative + at_backoff_ms a \<le> rt_max_cumulative_backoff_ms retry"
    and "retry_backoff_ms (rv_digest env) retry (seed_of config) (tc_case_id c) it n = Inr (at_backoff_ms a)"
proof -
  from assms(1) obtain latency d b st1 st2 where a: "a = round_attempt env permit n latency response (Some e) tools d b"
    and d: "retry_decision env config orc c it permit deadline n cumulative e st1 = (Inr (d, b), st2)"
    by (rule attempt_round_out) blast
  from d assms(2) a show ?thesis by (auto elim!: retry_decision_retry intro: that)
qed

definition attempt_limit :: "run_config \<Rightarrow> int" where
  "attempt_limit config = (case retry_of config of None \<Rightarrow> 1 | Some r \<Rightarrow> max 1 (rt_max_attempts r))"

lemma attempt_round_limit:
  assumes "attempt_round env config orc c it permit deadline n cumulative st = (Inr (response, error, a, tools), st')"
    and "error \<noteq> None" and "is_retry (at_retry_decision a)"
  shows "int n < attempt_limit config"
proof -
  from assms(2) obtain e where "error = Some e" by auto
  with assms(1) have "attempt_round env config orc c it permit deadline n cumulative st = (Inr (response, Some e, a, tools), st')" by simp
  from this assms(3) show ?thesis by (rule attempt_round_retry) (simp add: attempt_limit_def)
qed

section \<open>The whole loop\<close>

function attempt_loop ::
  "runner_env \<Rightarrow> run_config \<Rightarrow> case_oracle \<Rightarrow> test_case \<Rightarrow> nat \<Rightarrow> circuit_permit \<Rightarrow> rat \<Rightarrow> nat \<Rightarrow> int \<Rightarrow>
   attempt_result list \<Rightarrow> run_st \<Rightarrow>
   (stopped + adapter_response option \<times> execution_error option \<times> attempt_result list \<times> string list) \<times> run_st" where
  "attempt_loop env config orc c iteration permit deadline attempt_number cumulative attempts st =
     (case attempt_round env config orc c iteration permit deadline attempt_number cumulative st of
        (Inl x, st) \<Rightarrow> (Inl x, st)
      | (Inr (response, error, attempt, tools), st) \<Rightarrow>
          if error = None \<or> \<not> is_retry (at_retry_decision attempt)
          then (Inr (response, error, attempts @ [attempt], tools), st)
          else
            (case backoff_pause orc c iteration attempt st of
               (Inl x, st) \<Rightarrow> (Inl x, st)
             | (Inr _, st) \<Rightarrow>
                 attempt_loop env config orc c iteration permit deadline (Suc attempt_number)
                   (cumulative + at_backoff_ms attempt) (attempts @ [attempt]) st))"
  by pat_completeness auto
termination
proof (relation "measure (\<lambda>(env, config, orc, c, it, permit, deadline, n, cumulative, attempts, st).
    nat (attempt_limit config - int n))", goal_cases)
  case 1
  then show ?case by simp
next
  case (2 env config orc c it permit deadline n cumulative attempts st)
  then have "int n < attempt_limit config"
    by (metis attempt_round_limit)
  then show ?case by simp
qed

declare attempt_loop.simps [simp del]

section \<open>The result of a case\<close>

definition trace_circuit_events :: "run_config \<Rightarrow> string list \<Rightarrow> run_st \<Rightarrow> run_st" where
  "trace_circuit_events config events =
     emit (map (\<lambda>event. end_span (start_span ''agentstorm.circuit''
       [(''gen_ai.provider.name'', AStr (tg_provider (rc_target config))), (''agentstorm.circuit.event'', AStr event)])) events)"

definition failed_result ::
  "run_config \<Rightarrow> test_case \<Rightarrow> nat \<Rightarrow> execution_error \<Rightarrow> attempt_result list \<Rightarrow> string list \<Rightarrow> rat \<Rightarrow> case_result res" where
  "failed_result config c iteration error attempts tool_path latency_ms =
     (let (input_tokens, output_tokens, usage_complete) = attempt_usage attempts;
          (model_call_count, tool_call_count) = attempt_calls attempts;
          (provider_error_code, in_call_retry_count) = case_provider_fields attempts
      in rbind (costs_for_usage config input_tokens output_tokens usage_complete)
           (\<lambda>(input_cost, output_cost, total_cost).
              Inr \<lparr>cr_case_id = tc_case_id c, cr_iteration = iteration, cr_success = False,
                   cr_latency_ms = latency_ms, cr_failure_kind = ee_failure_kind error,
                   cr_failure_category = ee_category error, cr_error_code = ee_code error,
                   cr_attempts = attempts, cr_usage_complete = usage_complete, cr_output = [],
                   cr_error = Some (error_str error), cr_input_tokens = Some input_tokens,
                   cr_output_tokens = Some output_tokens, cr_model_call_count = model_call_count,
                   cr_tool_call_count = tool_call_count, cr_tool_path = tool_path, cr_assertions = [],
                   cr_input_cost_usd = input_cost, cr_output_cost_usd = output_cost, cr_cost_usd = total_cost,
                   cr_provider_error_code = provider_error_code, cr_in_call_retry_count = in_call_retry_count\<rparr>))"

definition evaluation_metadata :: "test_case \<Rightarrow> adapter_response \<Rightarrow> json dict" where
  "evaluation_metadata c r =
     dict_update (tc_metadata c) (filter (\<lambda>(k, _). startswith k ''agentstorm.'') (ar_metadata r))"

definition response_context :: "test_case \<Rightarrow> adapter_response \<Rightarrow> rat \<Rightarrow> string list \<Rightarrow> evaluation_context" where
  "response_context c r latency_ms tool_path =
     \<lparr>ec_case_id = tc_case_id c, ec_prompt = tc_prompt c, ec_output = ar_output r, ec_latency_ms = latency_ms,
      ec_tool_path = tool_path, ec_metadata = evaluation_metadata c r\<rparr>"

definition evaluate_spans :: "assertion_outcome list \<Rightarrow> span list" where
  "evaluate_spans outcomes =
     (if outcomes = [] then
        [end_span (start_span ''agentstorm.evaluate''
           [(''gen_ai.evaluation.name'', AStr ''none''), (''agentstorm.evaluation.index'', AInt 0),
            (''agentstorm.evaluation.deterministic'', ABool True), (''gen_ai.evaluation.score.label'', AStr ''pass'')])]
      else
        map (\<lambda>oc. let sp = start_span ''agentstorm.evaluate''
                 [(''gen_ai.evaluation.name'', AStr (ao_type oc)), (''agentstorm.evaluation.index'', AInt (int (ao_index oc))),
                  (''agentstorm.evaluation.deterministic'', ABool True),
                  (''gen_ai.evaluation.score.label'', AStr (if ao_passed oc then ''pass'' else ''fail''))]
               in end_span (if ao_passed oc then sp else set_error ''assertion'' sp)) outcomes)"

definition evaluated_result ::
  "run_config \<Rightarrow> test_case \<Rightarrow> nat \<Rightarrow> adapter_response \<Rightarrow> assertion_outcome list \<Rightarrow> attempt_result list \<Rightarrow> string list \<Rightarrow> rat \<Rightarrow>
   case_result res" where
  "evaluated_result config c iteration response outcomes attempts tool_path latency_ms =
     (let success = list_all ao_passed outcomes;
          (input_tokens, output_tokens, usage_complete) = attempt_usage attempts;
          (model_call_count, tool_call_count) = attempt_calls attempts;
          failed_types = map ao_type (filter (\<lambda>oc. \<not> ao_passed oc) outcomes);
          (provider_error_code, in_call_retry_count) = case_provider_fields attempts
      in rbind (costs_for_usage config input_tokens output_tokens usage_complete)
           (\<lambda>(input_cost, output_cost, total_cost).
              Inr \<lparr>cr_case_id = tc_case_id c, cr_iteration = iteration, cr_success = success,
                   cr_latency_ms = latency_ms, cr_failure_kind = (if success then [] else ''assertion''),
                   cr_failure_category = (if success then [] else ''evaluation''),
                   cr_error_code = (if success then [] else ''assertion_failed''),
                   cr_attempts = attempts, cr_usage_complete = usage_complete, cr_output = ar_output response,
                   cr_error = (if success then None else Some (''failed assertions: '' @ join_str '', '' failed_types)),
                   cr_input_tokens = Some input_tokens, cr_output_tokens = Some output_tokens,
                   cr_model_call_count = model_call_count, cr_tool_call_count = tool_call_count,
                   cr_tool_path = tool_path, cr_assertions = outcomes,
                   cr_input_cost_usd = input_cost, cr_output_cost_usd = output_cost, cr_cost_usd = total_cost,
                   cr_provider_error_code = provider_error_code, cr_in_call_retry_count = in_call_retry_count\<rparr>))"

definition lift_res :: "'a res \<Rightarrow> 'a action" where
  "lift_res r st = (case r of Inl e \<Rightarrow> (Inl (Escapes e), st) | Inr v \<Rightarrow> (Inr v, st))"

text \<open>\<open>attempts[-1].circuit_events.extend(circuit_events)\<close>.\<close>

definition extend_last :: "string list \<Rightarrow> attempt_result list \<Rightarrow> attempt_result list" where
  "extend_last events attempts =
     (if events = [] then attempts
      else butlast attempts @ [(last attempts)\<lparr>at_circuit_events := at_circuit_events (last attempts) @ events\<rparr>])"

text \<open>
  The code after the loop. \<open>evaluate\<close> returns for every input (theory \<open>Evaluators\<close>), so the handler
  for a failing evaluator is not reached and has no branch.
\<close>

definition finish_case ::
  "runner_env \<Rightarrow> run_config \<Rightarrow> registry \<Rightarrow> case_oracle \<Rightarrow> test_case \<Rightarrow> nat \<Rightarrow> circuit_permit \<Rightarrow> rat \<Rightarrow>
   adapter_response option \<times> execution_error option \<times> attempt_result list \<times> string list \<Rightarrow> case_result action" where
  "finish_case env config reg orc c iteration permit case_started out st =
     (let (response, error, attempts, tool_path) = out;
          final_provider_latency_ms = at_latency_ms (last attempts);
          provider_succeeded = (error = None \<and> response \<noteq> None);
          (events, b) = record_terminal (breaker_of config) (snd (or_monotonic orc)) permit provider_succeeded
                          (case error of None \<Rightarrow> [] | Some e \<Rightarrow> ee_category e) (st_breaker st);
          attempts = extend_last events attempts;
          st = trace_circuit_events config events (st\<lparr>st_breaker := b\<rparr>);
          (now, st) = perf_counter orc st;
          latency = elapsed_ms case_started now
      in case (error, response) of
           (Some e, _) \<Rightarrow> lift_res (failed_result config c iteration e attempts tool_path latency) st
         | (None, None) \<Rightarrow> (Inl (Escapes AssertionError), st)
         | (None, Some r) \<Rightarrow>
             (let outcomes = evaluate (rv_eval env) reg c (response_context c r final_provider_latency_ms tool_path)
              in lift_res (evaluated_result config c iteration r outcomes attempts tool_path latency)
                   (emit (evaluate_spans outcomes) st)))"

definition case_deadline :: "run_config \<Rightarrow> rat \<Rightarrow> rat" where
  "case_deadline config case_started = fadd case_started (f64 (of_int (wl_timeout_seconds (rc_workload config))))"

definition execute_permitted_case ::
  "runner_env \<Rightarrow> run_config \<Rightarrow> registry \<Rightarrow> case_oracle \<Rightarrow> test_case \<Rightarrow> nat \<Rightarrow> circuit_permit \<Rightarrow> rat \<Rightarrow> case_result action" where
  "execute_permitted_case env config reg orc c iteration permit case_started st =
     (case attempt_loop env config orc c iteration permit (case_deadline config case_started) 1 0 []
             (trace_circuit_events config (pm_events permit) st) of
        (Inl x, st) \<Rightarrow> (Inl x, st)
      | (Inr out, st) \<Rightarrow>
          finish_case env config reg orc c iteration permit case_started out
            (st\<lparr>st_breaker := or_others orc (st_breaker st)\<rparr>))"

section \<open>The case\<close>

definition case_attributes :: "runner_env \<Rightarrow> run_config \<Rightarrow> test_case \<Rightarrow> nat \<Rightarrow> attribute_value dict" where
  "case_attributes env config c iteration =
     (let attributes = [(''agentstorm.run.id'', AStr (rc_run_id config)), (''agentstorm.case.id'', AStr (tc_case_id c)),
                        (''agentstorm.case.iteration'', AInt (int iteration))]
      in case content_sanitizer_of env config of
           None \<Rightarrow> attributes
         | Some s \<Rightarrow>
             foldl (\<lambda>attrs key.
                 case dict_get (tc_metadata c) key of
                   None \<Rightarrow> attrs
                 | Some v \<Rightarrow>
                     if sensitive_key key then attrs
                     else (case sanitizer_content s v of
                             None \<Rightarrow> attrs
                           | Some t \<Rightarrow> dict_set attrs (''agentstorm.case.metadata.'' @ key) (AStr t)))
               (dict_set attributes ''agentstorm.content.prompt'' (AStr (sanitizer_string s (tc_prompt c))))
               (td_metadata_keys (tl_redaction (rc_telemetry config))))"

definition case_span_attributes :: "case_result \<Rightarrow> span \<Rightarrow> span" where
  "case_span_attributes r sp =
     (let sp = set_attribute ''agentstorm.case.success'' (ABool (cr_success r)) sp;
          sp = set_attribute ''agentstorm.case.failure_kind''
                 (AStr (if cr_failure_kind r = [] then ''none'' else cr_failure_kind r)) sp;
          sp = (if cr_success r then sp
                else set_attribute ''agentstorm.case.error_code'' (AStr (cr_error_code r))
                  (set_attribute ''agentstorm.case.failure_category'' (AStr (cr_failure_category r))
                    (set_error (if cr_failure_kind r = [] then ''failure'' else cr_failure_kind r) sp)));
          sp = set_option_attribute ''gen_ai.usage.input_tokens'' (cr_input_tokens r) sp;
          sp = set_option_attribute ''gen_ai.usage.output_tokens'' (cr_output_tokens r) sp;
          sp = set_option_attribute ''agentstorm.agent.model_call_count'' (cr_model_call_count r) sp
      in set_attribute ''agentstorm.agent.tool_call_count'' (AInt (cr_tool_call_count r)) sp)"

definition rejected_attempt :: "execution_error \<Rightarrow> attempt_result" where
  "rejected_attempt e =
     (AttemptResult 1 0 ''rejected'')
       \<lparr>at_failure_category := ee_category e, at_error_code := ee_code e, at_retry_decision := ''not_retryable'',
        at_input_tokens := Some 0, at_output_tokens := Some 0, at_usage_complete := True,
        at_model_call_count := Some 0, at_tool_call_count := 0, at_circuit_events := ee_circuit_events e\<rparr>"

text \<open>The body of the span \<open>agentstorm.case\<close>: a rejected case has one attempt, which called nothing.\<close>

definition case_body ::
  "runner_env \<Rightarrow> run_config \<Rightarrow> registry \<Rightarrow> case_oracle \<Rightarrow> test_case \<Rightarrow> nat \<Rightarrow> rat \<Rightarrow> case_result action" where
  "case_body env config reg orc c iteration case_started st =
     (case acquire (breaker_of config) (fst (or_monotonic orc)) (st_breaker st) of
        (Inl e, b) \<Rightarrow>
          (let (now, st) = perf_counter orc (trace_circuit_events config (ee_circuit_events e) (st\<lparr>st_breaker := b\<rparr>))
           in lift_res (failed_result config c iteration e [rejected_attempt e] [] (elapsed_ms case_started now)) st)
      | (Inr permit, b) \<Rightarrow>
          execute_permitted_case env config reg orc c iteration permit case_started (st\<lparr>st_breaker := b\<rparr>))"

definition execute_case ::
  "runner_env \<Rightarrow> run_config \<Rightarrow> registry \<Rightarrow> case_oracle \<Rightarrow> test_case \<Rightarrow> nat \<Rightarrow> case_result action" where
  "execute_case env config reg orc c iteration st =
     (let (case_started, st) = perf_counter orc st
      in with_span ''agentstorm.case'' (case_attributes env config c iteration)
           (\<lambda>sp st. case case_body env config reg orc c iteration case_started st of
                       (Inl x, st) \<Rightarrow> (Inl x, sp, st)
                     | (Inr r, st) \<Rightarrow> (Inr r, case_span_attributes r sp, st)) st)"

section \<open>What the loop of attempts guarantees\<close>

text \<open>An attempt that was retried: why it was allowed.\<close>

definition retried_ok :: "retry_config \<Rightarrow> circuit_permit \<Rightarrow> attempt_result \<Rightarrow> bool" where
  "retried_ok retry permit a \<longleftrightarrow>
     at_outcome a = ''failed'' \<and> at_failure_category a = ''provider'' \<and> at_error_code a \<noteq> ''circuit_open'' \<and>
     \<not> pm_probe permit \<and>
     (at_retry_decision a = ''retry_safe'' \<or>
      at_retry_decision a = ''retry_ambiguous'' \<and> at_ambiguous a \<and> rt_allow_ambiguous_retries retry)"

text \<open>The attempts of a case from number \<open>n\<close> on, with the backoff already spent.\<close>

definition attempts_ok ::
  "run_config \<Rightarrow> circuit_permit \<Rightarrow> nat \<Rightarrow> int \<Rightarrow> attempt_result list \<Rightarrow> bool" where
  "attempts_ok config permit n spent as \<longleftrightarrow>
     as \<noteq> [] \<and> map at_number as = [n..<n + length as] \<and>
     \<not> is_retry (at_retry_decision (last as)) \<and> at_backoff_ms (last as) = 0 \<and>
     (\<forall>a \<in> set (butlast as). \<exists>retry. retry_of config = Some retry \<and> retried_ok retry permit a) \<and>
     (butlast as \<noteq> [] \<longrightarrow>
        int (n + length (butlast as)) \<le> attempt_limit config \<and>
        (\<forall>retry. retry_of config = Some retry \<longrightarrow>
           spent + sum_list (map at_backoff_ms as) \<le> rt_max_cumulative_backoff_ms retry))"

lemma build_attempt_fields [simp]:
  "at_outcome (build_attempt env n l r e t) = (if e \<noteq> None then ''failed'' else ''succeeded'')"
  "at_failure_category (build_attempt env n l r e t) = (case e of Some x \<Rightarrow> ee_category x | None \<Rightarrow> [])"
  "at_error_code (build_attempt env n l r e t) = (case e of Some x \<Rightarrow> ee_code x | None \<Rightarrow> [])"
  "at_ambiguous (build_attempt env n l r e t) = (case e of Some x \<Rightarrow> ee_ambiguous x | None \<Rightarrow> False)"
  by (simp_all add: build_attempt_def Let_def split: option.splits prod.splits)

lemma round_attempt_fields [simp]:
  "at_outcome (round_attempt env permit n l r e t d b) = (if e \<noteq> None then ''failed'' else ''succeeded'')"
  "at_failure_category (round_attempt env permit n l r e t d b) = (case e of Some x \<Rightarrow> ee_category x | None \<Rightarrow> [])"
  "at_error_code (round_attempt env permit n l r e t d b) = (case e of Some x \<Rightarrow> ee_code x | None \<Rightarrow> [])"
  "at_ambiguous (round_attempt env permit n l r e t d b) = (case e of Some x \<Rightarrow> ee_ambiguous x | None \<Rightarrow> False)"
  by (simp_all add: round_attempt_def Let_def)

lemma attempt_round_retried_ok:
  assumes "attempt_round env config orc c it permit deadline n cumulative st = (Inr (response, Some e, a, tools), st')"
    and "is_retry (at_retry_decision a)"
  obtains retry where "retry_of config = Some retry" and "retried_ok retry permit a"
    and "int n < rt_max_attempts retry" and "cumulative + at_backoff_ms a \<le> rt_max_cumulative_backoff_ms retry"
proof -
  from assms obtain retry where retry: "retry_of config = Some retry" "int n < rt_max_attempts retry" "\<not> pm_probe permit"
    "at_retry_decision a = retry_eligibility e retry" "cumulative + at_backoff_ms a \<le> rt_max_cumulative_backoff_ms retry"
    by (rule attempt_round_retry)
  from assms(1) obtain latency d b where "a = round_attempt env permit n latency response (Some e) tools d b"
    by (rule attempt_round_out)
  with retry assms(2) have "retried_ok retry permit a"
    by (auto simp: retried_ok_def retry_eligibility_def split: if_splits)
  with retry show ?thesis by (intro that)
qed

lemma attempt_round_final:
  assumes "attempt_round env config orc c it permit deadline n cumulative st = (Inr (response, error, a, tools), st')"
    and "error = None \<or> \<not> is_retry (at_retry_decision a)"
  shows "attempts_ok config permit n cumulative [a]"
proof -
  from assms(1) obtain latency d b st1 st2 where a: "a = round_attempt env permit n latency response error tools d b"
    and none: "error = None \<Longrightarrow> d = ''not_needed'' \<and> b = 0"
    and some: "\<And>e. error = Some e \<Longrightarrow>
      retry_decision env config orc c it permit deadline n cumulative e st1 = (Inr (d, b), st2)"
    by (rule attempt_round_out) (rule that)
  have "\<not> is_retry d \<and> b = 0"
  proof (cases error)
    case None
    with none show ?thesis by simp
  next
    case (Some e)
    with assms(2) a have "\<not> is_retry d" by simp
    with retry_decision_no_retry [OF some [OF Some]] show ?thesis by simp
  qed
  then show ?thesis by (simp add: a attempts_ok_def)
qed

lemma attempts_ok_Cons:
  assumes "attempts_ok config permit (Suc n) (spent + at_backoff_ms a) as" and "at_number a = n"
    and "retry_of config = Some retry" and "retried_ok retry permit a" and "int n < rt_max_attempts retry"
    and "spent + at_backoff_ms a \<le> rt_max_cumulative_backoff_ms retry"
  shows "attempts_ok config permit n spent (a # as)"
proof -
  have ne: "as \<noteq> []" using assms(1) by (simp add: attempts_ok_def)
  have "map at_number (a # as) = [n..<n + length (a # as)]"
    using assms(1,2) by (simp add: attempts_ok_def upt_conv_Cons del: upt_Suc)
  moreover have "int (n + length (butlast (a # as))) \<le> attempt_limit config"
    using assms(1,3,5) ne by (cases "butlast as = []") (auto simp: attempts_ok_def attempt_limit_def)
  moreover have "spent + sum_list (map at_backoff_ms (a # as)) \<le> rt_max_cumulative_backoff_ms retry"
  proof (cases "butlast as = []")
    case True
    with ne have "as = [last as]" by (metis append_butlast_last_id append_Nil)
    then have "sum_list (map at_backoff_ms as) = 0"
      using assms(1) by (metis attempts_ok_def list.map(1) list.map(2) sum_list.Cons sum_list.Nil add_0)
    then show ?thesis using assms(6) by simp
  next
    case False
    with assms(1,3) show ?thesis by (simp add: attempts_ok_def ac_simps)
  qed
  ultimately show ?thesis using assms(1,3,4) ne by (auto simp: attempts_ok_def)
qed

lemma attempt_loop_ok:
  "attempt_loop env config orc c it permit deadline n cumulative attempts st = (Inr (response, error, attempts', tools), st') \<Longrightarrow>
   \<exists>new. attempts' = attempts @ new \<and> attempts_ok config permit n cumulative new"
proof (induction env config orc c it permit deadline n cumulative attempts st rule: attempt_loop.induct)
  case (1 env config orc c it permit deadline n cumulative attempts st)
  obtain r err a t st1 where round:
    "attempt_round env config orc c it permit deadline n cumulative st = (Inr (r, err, a, t), st1)"
    using 1(2) by (subst (asm) attempt_loop.simps) (auto split: prod.splits sum.splits)
  show ?case
  proof (cases "err = None \<or> \<not> is_retry (at_retry_decision a)")
    case True
    then have "attempts' = attempts @ [a]" using 1(2) round by (subst (asm) attempt_loop.simps) auto
    with attempt_round_final [OF round True] show ?thesis by blast
  next
    case False
    then obtain e where err: "err = Some e" and retry: "is_retry (at_retry_decision a)" by auto
    obtain u st2 where pause: "backoff_pause orc c it a st1 = (Inr u, st2)"
      and rest: "attempt_loop env config orc c it permit deadline (Suc n) (cumulative + at_backoff_ms a) (attempts @ [a]) st2
        = (Inr (response, error, attempts', tools), st')"
      using 1(2) round False by (subst (asm) attempt_loop.simps) (auto split: prod.splits sum.splits)
    from 1(1) [OF round [symmetric] refl refl refl refl False pause [symmetric] refl rest] obtain new where
      new: "attempts' = attempts @ a # new" "attempts_ok config permit (Suc n) (cumulative + at_backoff_ms a) new" by auto
    from round have "at_number a = n" by (rule attempt_round_out) simp
    from round [unfolded err] retry have "attempts_ok config permit n cumulative (a # new)"
      by (rule attempt_round_retried_ok) (rule attempts_ok_Cons [OF new(2) \<open>at_number a = n\<close>])
    with new(1) show ?thesis by blast
  qed
qed

text \<open>The last round of the loop is the one whose response and error the loop returns.\<close>

lemma attempt_loop_last_round:
  "attempt_loop env config orc c it permit deadline n cumulative attempts st = (Inr (response, error, attempts', tools), st') \<Longrightarrow>
   \<exists>n' cumulative' a st1 st2.
     attempt_round env config orc c it permit deadline n' cumulative' st1 = (Inr (response, error, a, tools), st2) \<and>
     attempts' \<noteq> [] \<and> last attempts' = a"
proof (induction env config orc c it permit deadline n cumulative attempts st rule: attempt_loop.induct)
  case (1 env config orc c it permit deadline n cumulative attempts st)
  obtain r err a t st1 where round:
    "attempt_round env config orc c it permit deadline n cumulative st = (Inr (r, err, a, t), st1)"
    using 1(2) by (subst (asm) attempt_loop.simps) (auto split: prod.splits sum.splits)
  show ?case
  proof (cases "err = None \<or> \<not> is_retry (at_retry_decision a)")
    case True
    then have "r = response" "err = error" "attempts' = attempts @ [a]" "t = tools"
      using 1(2) round by (subst (asm) attempt_loop.simps; auto)+
    with round show ?thesis by auto
  next
    case False
    obtain u st2 where pause: "backoff_pause orc c it a st1 = (Inr u, st2)"
      and rest: "attempt_loop env config orc c it permit deadline (Suc n) (cumulative + at_backoff_ms a) (attempts @ [a]) st2
        = (Inr (response, error, attempts', tools), st')"
      using 1(2) round False by (subst (asm) attempt_loop.simps) (auto split: prod.splits sum.splits)
    from 1(1) [OF round [symmetric] refl refl refl refl False pause [symmetric] refl rest] show ?thesis .
  qed
qed

lemma invoke_attempt_response:
  "invoke_attempt env config orc c it n remaining st = (Inr (response, None, a, tools), st') \<Longrightarrow> response \<noteq> None"
  by (auto simp: invoke_attempt_def with_span_cases Let_def provider_error_def
      split: prod.splits option.splits outcome.splits)

lemma attempt_round_response:
  "attempt_round env config orc c it permit deadline n cumulative st = (Inr (response, None, a, tools), st') \<Longrightarrow> response \<noteq> None"
  by (auto simp: attempt_round_def Let_def with_span_cases dest: invoke_attempt_response
      split: prod.splits if_splits sum.splits)

section \<open>Accounting\<close>

text \<open>The totals of a result are those of its attempts, and its costs are computed from them.\<close>

definition accounted :: "run_config \<Rightarrow> case_result \<Rightarrow> bool" where
  "accounted config r \<longleftrightarrow>
     (\<exists>i out. cr_input_tokens r = Some i \<and> cr_output_tokens r = Some out \<and>
        attempt_usage (cr_attempts r) = (i, out, cr_usage_complete r) \<and>
        costs_for_usage config i out (cr_usage_complete r) =
          Inr (cr_input_cost_usd r, cr_output_cost_usd r, cr_cost_usd r)) \<and>
     attempt_calls (cr_attempts r) = (cr_model_call_count r, cr_tool_call_count r) \<and>
     case_provider_fields (cr_attempts r) = (cr_provider_error_code r, cr_in_call_retry_count r)"

lemma failed_result_Inr:
  assumes "failed_result config c it e attempts tools latency = Inr r"
  shows "accounted config r" and "\<not> cr_success r" and "cr_attempts r = attempts" and "cr_case_id r = tc_case_id c"
    and "cr_iteration r = it" and "cr_tool_path r = tools" and "cr_latency_ms r = latency"
    and "cr_failure_category r = ee_category e" and "cr_error_code r = ee_code e" and "cr_failure_kind r = ee_failure_kind e"
    and "cr_assertions r = []"
  using assms by (auto simp: failed_result_def accounted_def Let_def split: prod.splits)

lemma evaluated_result_Inr:
  assumes "evaluated_result config c it response outcomes attempts tools latency = Inr r"
  shows "accounted config r" and "cr_success r = list_all ao_passed outcomes" and "cr_attempts r = attempts"
    and "cr_case_id r = tc_case_id c" and "cr_iteration r = it" and "cr_tool_path r = tools" and "cr_latency_ms r = latency"
    and "cr_output r = ar_output response" and "cr_assertions r = outcomes"
    and "cr_failure_category r = (if cr_success r then [] else ''evaluation'')"
  using assms by (auto simp: evaluated_result_def accounted_def Let_def split: prod.splits)

lemma lift_res_Inr: "lift_res r st = (Inr v, st') \<longleftrightarrow> r = Inr v \<and> st' = st"
  by (auto simp: lift_res_def split: sum.splits)

lemma extend_last_ok:
  assumes "attempts_ok config permit n spent as"
  shows "attempts_ok config permit n spent (extend_last events as)"
proof -
  obtain bs b where as: "as = bs @ [b]" using assms by (metis attempts_ok_def append_butlast_last_id)
  show ?thesis using assms by (auto simp: as extend_last_def attempts_ok_def)
qed

text \<open>How a permitted case comes to its result.\<close>

lemma finish_case_Inr:
  assumes "finish_case env config reg orc c it permit started (response, error, attempts, tools) st = (Inr r, st')"
  obtains events latency where
    "\<And>e. error = Some e \<Longrightarrow> failed_result config c it e (extend_last events attempts) tools latency = Inr r"
    and "error = None \<Longrightarrow> \<exists>resp. response = Some resp \<and>
      evaluated_result config c it resp
        (evaluate (rv_eval env) reg c (response_context c resp (at_latency_ms (last attempts)) tools))
        (extend_last events attempts) tools latency = Inr r"
proof -
  obtain events b where rt: "record_terminal (breaker_of config) (snd (or_monotonic orc)) permit (error = None \<and> response \<noteq> None)
      (case error of None \<Rightarrow> [] | Some e \<Rightarrow> ee_category e) (st_breaker st) = (events, b)" by force
  obtain now st1 where pc: "perf_counter orc (trace_circuit_events config events (st\<lparr>st_breaker := b\<rparr>)) = (now, st1)" by force
  show ?thesis
  proof (cases error)
    case None
    with assms rt pc show ?thesis
      by (intro that [of events "elapsed_ms started now"])
         (force simp: finish_case_def Let_def lift_res_Inr split: option.splits)+
  next
    case (Some e)
    with assms rt pc show ?thesis
      by (intro that [of events "elapsed_ms started now"])
         (auto simp: finish_case_def Let_def lift_res_Inr split: option.splits)
  qed
qed

section \<open>A case from end to end\<close>

lemma execute_case_body:
  assumes "execute_case env config reg orc c it st = (Inr r, st')"
  obtains started st1 st2 where "case_body env config reg orc c it started st1 = (Inr r, st2)"
    and "st_breaker st1 = st_breaker st"
  using assms
  by (auto simp: execute_case_def Let_def perf_counter_def with_span_cases split: prod.splits sum.splits)

lemma execute_permitted_case_Inr:
  assumes "execute_permitted_case env config reg orc c it permit started st = (Inr r, st')"
  obtains response error attempts tools st1 st2 st3 where
    "attempt_loop env config orc c it permit (case_deadline config started) 1 0 [] st1 =
       (Inr (response, error, attempts, tools), st2)"
    and "finish_case env config reg orc c it permit started (response, error, attempts, tools) st3 = (Inr r, st')"
  using assms by (auto simp: execute_permitted_case_def split: prod.splits sum.splits)

text \<open>What the result of a case says of its attempts and totals.\<close>

definition permitted_result_ok :: "run_config \<Rightarrow> test_case \<Rightarrow> nat \<Rightarrow> circuit_permit \<Rightarrow> case_result \<Rightarrow> bool" where
  "permitted_result_ok config c it permit r \<longleftrightarrow>
     cr_case_id r = tc_case_id c \<and> cr_iteration r = it \<and> accounted config r \<and>
     attempts_ok config permit 1 0 (cr_attempts r)"

lemma execute_permitted_case_ok:
  assumes "execute_permitted_case env config reg orc c it permit started st = (Inr r, st')"
  shows "permitted_result_ok config c it permit r"
proof -
  from assms obtain response error attempts tools st1 st2 st3 where
    loop: "attempt_loop env config orc c it permit (case_deadline config started) 1 0 [] st1 =
       (Inr (response, error, attempts, tools), st2)"
    and fin: "finish_case env config reg orc c it permit started (response, error, attempts, tools) st3 = (Inr r, st')"
    by (rule execute_permitted_case_Inr)
  have ok: "attempts_ok config permit 1 0 attempts" using attempt_loop_ok [OF loop] by simp
  from fin obtain events latency where
    f: "\<And>e. error = Some e \<Longrightarrow> failed_result config c it e (extend_last events attempts) tools latency = Inr r"
    and s: "error = None \<Longrightarrow> \<exists>resp. response = Some resp \<and>
      evaluated_result config c it resp
        (evaluate (rv_eval env) reg c (response_context c resp (at_latency_ms (last attempts)) tools))
        (extend_last events attempts) tools latency = Inr r"
    by (rule finish_case_Inr) (rule that)
  show ?thesis
  proof (cases error)
    case None
    from s [OF None] obtain resp where
      "evaluated_result config c it resp
        (evaluate (rv_eval env) reg c (response_context c resp (at_latency_ms (last attempts)) tools))
        (extend_last events attempts) tools latency = Inr r"
      by blast
    from evaluated_result_Inr [OF this] show ?thesis
      using extend_last_ok [OF ok] by (simp add: permitted_result_ok_def)
  next
    case (Some e)
    from failed_result_Inr [OF f [OF Some]] show ?thesis
      using extend_last_ok [OF ok] by (simp add: permitted_result_ok_def)
  qed
qed

lemma case_body_ok:
  assumes "case_body env config reg orc c it started st = (Inr r, st')"
  shows "(\<exists>e b. acquire (breaker_of config) (fst (or_monotonic orc)) (st_breaker st) = (Inl e, b) \<and>
            cr_attempts r = [rejected_attempt e] \<and> \<not> cr_success r \<and> accounted config r \<and>
            cr_case_id r = tc_case_id c \<and> cr_iteration r = it) \<or>
         (\<exists>permit b. acquire (breaker_of config) (fst (or_monotonic orc)) (st_breaker st) = (Inr permit, b) \<and>
            permitted_result_ok config c it permit r)"
proof (cases "acquire (breaker_of config) (fst (or_monotonic orc)) (st_breaker st)")
  case (Pair a b)
  show ?thesis
  proof (cases a)
    case (Inl e)
    with Pair assms obtain latency where "failed_result config c it e [rejected_attempt e] [] latency = Inr r"
      by (auto simp: case_body_def Let_def lift_res_Inr split: prod.splits)
    from failed_result_Inr [OF this] Pair Inl show ?thesis by auto
  next
    case (Inr permit)
    with Pair assms have "execute_permitted_case env config reg orc c it permit started (st\<lparr>st_breaker := b\<rparr>) = (Inr r, st')"
      by (simp add: case_body_def)
    from execute_permitted_case_ok [OF this] Pair Inr show ?thesis by blast
  qed
qed

text \<open>A case that succeeds: the provider answered, and every assertion holds of its answer.\<close>

lemma extend_last_last:
  assumes "as \<noteq> []"
  shows "at_outcome (last (extend_last events as)) = at_outcome (last as)"
    and "at_latency_ms (last (extend_last events as)) = at_latency_ms (last as)"
    and "extend_last events as \<noteq> []"
  using assms by (simp_all add: extend_last_def)

lemma evaluate_passed:
  assumes "EvaluatorRegistry env cs = Inr reg" and "distinct (map tc_case_id cs)" and "c \<in> set cs"
  shows "map ao_passed (evaluate env reg c ctx) = map (\<lambda>a. assertion_holds env a ctx) (effective_assertions c)"
  unfolding evaluate_reference [OF assms]
  by (rule nth_equalityI) (simp_all add: enum_from_def passing_check)

lemma execute_permitted_case_success:
  assumes run: "execute_permitted_case env config reg orc c it permit started st = (Inr r, st')"
    and reg: "EvaluatorRegistry (rv_eval env) cs = Inr reg" "distinct (map tc_case_id cs)" "c \<in> set cs"
  shows "if at_outcome (last (cr_attempts r)) = ''succeeded''
    then \<exists>resp. cr_output r = ar_output resp \<and>
      (let ctx = response_context c resp (at_latency_ms (last (cr_attempts r))) (cr_tool_path r)
       in map ao_passed (cr_assertions r) = map (\<lambda>a. assertion_holds (rv_eval env) a ctx) (effective_assertions c) \<and>
          (cr_success r \<longleftrightarrow> (\<forall>a \<in> set (effective_assertions c). assertion_holds (rv_eval env) a ctx)))
    else \<not> cr_success r \<and> cr_assertions r = []"
proof -
  from run obtain response error attempts tools st1 st2 st3 where
    loop: "attempt_loop env config orc c it permit (case_deadline config started) 1 0 [] st1 =
       (Inr (response, error, attempts, tools), st2)"
    and fin: "finish_case env config reg orc c it permit started (response, error, attempts, tools) st3 = (Inr r, st')"
    by (rule execute_permitted_case_Inr)
  from attempt_loop_last_round [OF loop] obtain n cum a st4 st5 where
    round: "attempt_round env config orc c it permit (case_deadline config started) n cum st4 = (Inr (response, error, a, tools), st5)"
    and a: "attempts \<noteq> []" "last attempts = a" by blast
  from round have oc: "at_outcome a = (if error \<noteq> None then ''failed'' else ''succeeded'')"
    by (rule attempt_round_out) simp
  from fin obtain events latency where
    f: "\<And>e. error = Some e \<Longrightarrow> failed_result config c it e (extend_last events attempts) tools latency = Inr r"
    and s: "error = None \<Longrightarrow> \<exists>resp. response = Some resp \<and>
      evaluated_result config c it resp
        (evaluate (rv_eval env) reg c (response_context c resp (at_latency_ms (last attempts)) tools))
        (extend_last events attempts) tools latency = Inr r"
    by (rule finish_case_Inr) (rule that)
  note ext = extend_last_last [OF a(1), of events]
  show ?thesis
  proof (cases error)
    case None
    from s [OF None] obtain resp where
      "evaluated_result config c it resp
        (evaluate (rv_eval env) reg c (response_context c resp (at_latency_ms (last attempts)) tools))
        (extend_last events attempts) tools latency = Inr r" by blast
    note ev = evaluated_result_Inr [OF this]
    define ctx where "ctx = response_context c resp (at_latency_ms (last attempts)) tools"
    have m: "map ao_passed (cr_assertions r) = map (\<lambda>a. assertion_holds (rv_eval env) a ctx) (effective_assertions c)"
      unfolding ev(9) ctx_def by (rule evaluate_passed [OF reg])
    have "cr_success r \<longleftrightarrow> list_all id (map ao_passed (cr_assertions r))"
      unfolding ev(2,9) by (simp add: list.pred_map comp_def)
    also have "\<dots> \<longleftrightarrow> (\<forall>a \<in> set (effective_assertions c). assertion_holds (rv_eval env) a ctx)"
      unfolding m by (simp add: list_all_iff)
    finally have s: "cr_success r \<longleftrightarrow> (\<forall>a \<in> set (effective_assertions c). assertion_holds (rv_eval env) a ctx)" .
    have "ctx = response_context c resp (at_latency_ms (last (cr_attempts r))) (cr_tool_path r)"
      unfolding ev(3,6) ctx_def ext(2) ..
    note m [unfolded this] s [unfolded this]
    moreover have "at_outcome (last (cr_attempts r)) = ''succeeded''"
      using oc None a ext(1) by (simp add: ev(3))
    ultimately show ?thesis using ev(8) unfolding Let_def by (simp only: if_True refl) blast
  next
    case (Some e)
    note fl = failed_result_Inr [OF f [OF Some]]
    show ?thesis using oc Some fl ext a by simp
  qed
qed

section \<open>Bounds and verdict of a case\<close>

lemma attempts_ok_bounds:
  assumes "attempts_ok config permit 1 0 as" and "retry_of config = Some retry" and "retry_ok retry"
  shows "as \<noteq> [] \<and> int (length as) \<le> rt_max_attempts retry \<and>
    sum_list (map at_backoff_ms as) \<le> rt_max_cumulative_backoff_ms retry"
proof (cases "butlast as = []")
  case True
  with assms(1) have "as = [last as]" by (metis append_butlast_last_id append_Nil attempts_ok_def)
  then obtain a where "as = [a]" by blast
  with assms show ?thesis by (simp add: attempts_ok_def retry_ok_def)
next
  case False
  have "1 + length (butlast as) = length as" using assms(1) by (cases as) (auto simp: attempts_ok_def)
  with False assms show ?thesis by (auto simp: attempts_ok_def attempt_limit_def retry_ok_def simp del: length_butlast)
qed

lemma rejected_attempt_bounds:
  assumes "retry_ok retry"
  shows "int (length [rejected_attempt e]) \<le> rt_max_attempts retry \<and>
    sum_list (map at_backoff_ms [rejected_attempt e]) \<le> rt_max_cumulative_backoff_ms retry"
  using assms by (simp add: rejected_attempt_def AttemptResult_def retry_ok_def)

lemma case_body_verdict:
  assumes body: "case_body env config reg orc c it started st = (Inr r, st')"
    and reg: "EvaluatorRegistry (rv_eval env) cs = Inr reg" "distinct (map tc_case_id cs)" "c \<in> set cs"
  shows "if at_outcome (last (cr_attempts r)) = ''succeeded''
    then \<exists>resp. cr_output r = ar_output resp \<and>
      (let ctx = response_context c resp (at_latency_ms (last (cr_attempts r))) (cr_tool_path r)
       in map ao_passed (cr_assertions r) = map (\<lambda>a. assertion_holds (rv_eval env) a ctx) (effective_assertions c) \<and>
          (cr_success r \<longleftrightarrow> (\<forall>a \<in> set (effective_assertions c). assertion_holds (rv_eval env) a ctx)))
    else \<not> cr_success r \<and> cr_assertions r = []"
proof (cases "acquire (breaker_of config) (fst (or_monotonic orc)) (st_breaker st)")
  case (Pair a b)
  show ?thesis
  proof (cases a)
    case (Inl e)
    with Pair body obtain latency where "failed_result config c it e [rejected_attempt e] [] latency = Inr r"
      by (auto simp: case_body_def Let_def lift_res_Inr split: prod.splits)
    then show ?thesis
      by (auto simp: failed_result_def Let_def rejected_attempt_def AttemptResult_def split: prod.splits)
  next
    case (Inr permit)
    with Pair body have "execute_permitted_case env config reg orc c it permit started (st\<lparr>st_breaker := b\<rparr>) = (Inr r, st')"
      by (simp add: case_body_def)
    then show ?thesis by (rule execute_permitted_case_success [OF _ reg])
  qed
qed

end
