(* ===== verification/Pool.thy ===== *)
theory Pool
  imports Runner
begin

text \<open>
  \<open>WorkloadRunner.__init__\<close> and \<open>execute\<close> of \<open>worker/src/agentstorm_worker/runner.py\<close>: the shard, the
  list of work, and the workers that take items from it concurrently.

  The workers are asyncio tasks. Between two awaits a task runs alone, so the steps of a worker are
  to take the next item under the lock, to finish its case, to leave, or to be stopped in the middle of
  a case by a cancellation or an exception; any interleaving of these steps may happen. The cases
  themselves are \<open>execute_case\<close> of theory \<open>Runner\<close>, for whatever the outside does meanwhile.
\<close>

section \<open>Sharding and the list of work\<close>

definition check_shard :: "int \<Rightarrow> int \<Rightarrow> unit res" where
  "check_shard shard_index shard_count =
     raise_if (shard_count < 1 \<or> \<not> (0 \<le> shard_index \<and> shard_index < shard_count))
       (ValueError ''shard index must be within shard count'') (Inr ())"

definition select_shard :: "'a list \<Rightarrow> nat \<Rightarrow> nat \<Rightarrow> 'a list" where
  "select_shard cases shard_count shard_index =
     map snd (filter (\<lambda>(index, _). index mod shard_count = shard_index) (enum_from 0 cases))"

definition work_list :: "nat \<Rightarrow> 'a list \<Rightarrow> ('a \<times> nat) list" where
  "work_list iterations selected =
     concat (map (\<lambda>iteration. map (\<lambda>c. (c, iteration)) selected) [0..<iterations])"

definition run_work :: "run_config \<Rightarrow> test_case list \<Rightarrow> nat \<Rightarrow> nat \<Rightarrow> (test_case \<times> nat) list" where
  "run_work config cases shard_count shard_index =
     work_list (nat (wl_iterations (rc_workload config))) (select_shard cases shard_count shard_index)"

definition worker_count :: "run_config \<Rightarrow> nat \<Rightarrow> nat" where
  "worker_count config work = nat (min (wl_concurrency (rc_workload config)) (int work))"

section \<open>The workers\<close>

datatype worker_state = Idle | Working nat | Gone

text \<open>
  \<open>po_results\<close> are the results with the index of their item, in the order they were appended;
  \<open>po_dropped\<close> are the items whose case was cut short; \<open>po_failed\<close> says that an exception left a worker.
\<close>

record pool =
  po_next :: nat
  po_workers :: "worker_state list"
  po_results :: "(nat \<times> case_result) list"
  po_dropped :: "nat list"
  po_stop :: bool
  po_failed :: bool

definition pool_start :: "nat \<Rightarrow> pool" where
  "pool_start workers =
     \<lparr>po_next = 0, po_workers = replicate workers Idle, po_results = [], po_dropped = [], po_stop = False,
      po_failed = False\<rparr>"

inductive pool_step ::
  "(test_case \<times> nat) list \<Rightarrow> (test_case \<times> nat \<Rightarrow> case_result \<Rightarrow> bool) \<Rightarrow> pool \<Rightarrow> pool \<Rightarrow> bool"
  for work :: "(test_case \<times> nat) list" and exec :: "test_case \<times> nat \<Rightarrow> case_result \<Rightarrow> bool" where
  take_item: "w < length (po_workers p) \<Longrightarrow> po_workers p ! w = Idle \<Longrightarrow> \<not> po_stop p \<Longrightarrow> po_next p < length work \<Longrightarrow>
    pool_step work exec p (p\<lparr>po_workers := (po_workers p)[w := Working (po_next p)], po_next := Suc (po_next p)\<rparr>)"
| leave: "w < length (po_workers p) \<Longrightarrow> po_workers p ! w = Idle \<Longrightarrow> po_stop p \<or> length work \<le> po_next p \<Longrightarrow>
    pool_step work exec p (p\<lparr>po_workers := (po_workers p)[w := Gone]\<rparr>)"
| finish: "w < length (po_workers p) \<Longrightarrow> po_workers p ! w = Working i \<Longrightarrow> exec (work ! i) r \<Longrightarrow>
    pool_step work exec p (p\<lparr>po_workers := (po_workers p)[w := Idle], po_results := po_results p @ [(i, r)]\<rparr>)"
| cancelled: "w < length (po_workers p) \<Longrightarrow> po_workers p ! w = Working i \<Longrightarrow> po_stop p \<Longrightarrow>
    pool_step work exec p (p\<lparr>po_workers := (po_workers p)[w := Gone], po_dropped := po_dropped p @ [i]\<rparr>)"
| crash: "w < length (po_workers p) \<Longrightarrow> po_workers p ! w = Working i \<Longrightarrow>
    pool_step work exec p (p\<lparr>po_workers := (po_workers p)[w := Gone], po_dropped := po_dropped p @ [i], po_failed := True\<rparr>)"
| stop: "\<not> po_stop p \<Longrightarrow> pool_step work exec p (p\<lparr>po_stop := True\<rparr>)"

inductive_cases pool_stepE: "pool_step work exec p q"

text \<open>The results a case may have: \<open>execute_case\<close> under some behaviour of the outside.\<close>

definition case_exec :: "runner_env \<Rightarrow> run_config \<Rightarrow> registry \<Rightarrow> test_case \<times> nat \<Rightarrow> case_result \<Rightarrow> bool" where
  "case_exec env config reg item r \<longleftrightarrow>
     (\<exists>orc st st'. execute_case env config reg orc (fst item) (snd item) st = (Inr r, st'))"

section \<open>Every item is executed at most once\<close>

fun working :: "worker_state \<Rightarrow> nat list" where
  "working (Working i) = [i]"
| "working _ = []"

definition in_work :: "pool \<Rightarrow> nat list" where
  "in_work p = concat (map working (po_workers p))"

definition pool_inv ::
  "(test_case \<times> nat) list \<Rightarrow> (test_case \<times> nat \<Rightarrow> case_result \<Rightarrow> bool) \<Rightarrow> nat \<Rightarrow> pool \<Rightarrow> bool" where
  "pool_inv work exec n p \<longleftrightarrow>
     length (po_workers p) = n \<and> po_next p \<le> length work \<and>
     mset (map fst (po_results p)) + mset (po_dropped p) + mset (in_work p) = mset [0..<po_next p] \<and>
     (\<forall>(i, r) \<in> set (po_results p). exec (work ! i) r) \<and>
     (po_dropped p \<noteq> [] \<longrightarrow> po_stop p \<or> po_failed p) \<and>
     (Gone \<in> set (po_workers p) \<longrightarrow> po_stop p \<or> po_failed p \<or> po_next p = length work)"

lemma mset_concat_map_update:
  "w < length ws \<Longrightarrow>
   mset (concat (map f (ws[w := x]))) + mset (f (ws ! w)) = mset (concat (map f ws)) + mset (f x)"
proof (induction ws arbitrary: w)
  case (Cons y ws)
  then show ?case by (cases w) (auto simp: ac_simps)
qed simp

lemma in_work_update:
  assumes "w < length (po_workers p)"
  shows "mset (concat (map working ((po_workers p)[w := x]))) + mset (working (po_workers p ! w)) =
    mset (in_work p) + mset (working x)"
  unfolding in_work_def by (rule mset_concat_map_update [OF assms])

lemma set_update_Gone: "w < length ws \<Longrightarrow> x \<noteq> Gone \<Longrightarrow> Gone \<in> set (ws[w := x]) \<Longrightarrow> Gone \<in> set ws"
  by (metis insertE set_update_subset_insert subsetD)

text \<open>Where the items are: done, cut short, or with a worker. A step moves an item or takes a new one.\<close>

definition pool_items :: "pool \<Rightarrow> nat multiset" where
  "pool_items p = mset (map fst (po_results p)) + mset (po_dropped p) + mset (in_work p)"

lemma pool_items_step:
  assumes "pool_step work exec p q" and "pool_items p = mset [0..<po_next p]"
  shows "pool_items q = mset [0..<po_next q]"
  using assms(1)
proof cases
  case (take_item w)
  then have "mset (in_work q) = add_mset (po_next p) (mset (in_work p))"
    using in_work_update [of w p "Working (po_next p)"] by (simp add: in_work_def)
  with take_item assms(2) show ?thesis by (simp add: pool_items_def)
next
  case (leave w)
  then have "mset (in_work q) = mset (in_work p)"
    using in_work_update [of w p Gone] by (simp add: in_work_def)
  with leave assms(2) show ?thesis by (simp add: pool_items_def)
next
  case (finish w i r)
  then have "mset (in_work p) = add_mset i (mset (in_work q))"
    using in_work_update [of w p Idle] by (simp add: in_work_def)
  with finish assms(2) show ?thesis by (simp add: pool_items_def)
next
  case (cancelled w i)
  then have "mset (in_work p) = add_mset i (mset (in_work q))"
    using in_work_update [of w p Gone] by (simp add: in_work_def)
  with cancelled assms(2) show ?thesis by (simp add: pool_items_def)
next
  case (crash w i)
  then have "mset (in_work p) = add_mset i (mset (in_work q))"
    using in_work_update [of w p Gone] by (simp add: in_work_def)
  with crash assms(2) show ?thesis by (simp add: pool_items_def)
next
  case stop
  with assms(2) show ?thesis by (simp add: pool_items_def in_work_def)
qed

lemma pool_inv_step:
  assumes inv: "pool_inv work exec n p" and step: "pool_step work exec p q"
  shows "pool_inv work exec n q"
proof -
  have "pool_items q = mset [0..<po_next q]"
    by (rule pool_items_step [OF step]) (use inv in \<open>simp add: pool_inv_def pool_items_def\<close>)
  moreover from step have "length (po_workers q) = n \<and> po_next q \<le> length work \<and>
      (\<forall>(i, r) \<in> set (po_results q). exec (work ! i) r) \<and>
      (po_dropped q \<noteq> [] \<longrightarrow> po_stop q \<or> po_failed q) \<and>
      (Gone \<in> set (po_workers q) \<longrightarrow> po_stop q \<or> po_failed q \<or> po_next q = length work)"
    using inv by cases (auto simp: pool_inv_def dest: set_update_Gone [rotated 2])
  ultimately show ?thesis by (simp add: pool_inv_def pool_items_def)
qed

lemma pool_inv_start: "pool_inv work exec n (pool_start n)"
  by (induction n) (auto simp: pool_inv_def pool_start_def in_work_def)

interpretation workers: invariant_system "\<lambda>p. p = pool_start n" "pool_step work exec" "pool_inv work exec n"
  for work exec n
  by unfold_locales (auto simp: pool_inv_start intro: pool_inv_step)

section \<open>What a finished run has done\<close>

definition pool_done :: "pool \<Rightarrow> bool" where
  "pool_done p \<longleftrightarrow> (\<forall>w \<in> set (po_workers p). w = Gone)"

lemma in_work_done: "pool_done p \<Longrightarrow> in_work p = []"
  by (auto simp: pool_done_def in_work_def)

lemma pool_complete:
  assumes inv: "pool_inv work exec n p" and "0 < n" and fin: "pool_done p"
    and ok: "\<not> po_stop p" "\<not> po_failed p"
  shows "mset (map fst (po_results p)) = mset [0..<length work]"
proof -
  have "po_workers p \<noteq> []" using inv \<open>0 < n\<close> by (auto simp: pool_inv_def)
  then have "Gone \<in> set (po_workers p)" using fin by (auto simp: pool_done_def neq_Nil_conv)
  then show ?thesis using inv ok in_work_done [OF fin] by (auto simp: pool_inv_def)
qed

text \<open>Also when the run is stopped or fails, no item has two results.\<close>

lemma pool_at_most_once:
  assumes "pool_inv work exec n p"
  shows "distinct (map fst (po_results p))" and "set (map fst (po_results p)) \<subseteq> {0..<length work}"
proof -
  let ?all = "map fst (po_results p) @ po_dropped p @ in_work p"
  have m: "mset ?all = mset [0..<po_next p]" and n: "po_next p \<le> length work"
    using assms by (simp_all add: pool_inv_def ac_simps)
  have "distinct ?all" using mset_eq_imp_distinct_iff [OF m] by simp
  then show "distinct (map fst (po_results p))" by simp
  have "set ?all = {0..<po_next p}" using mset_eq_setD [OF m] by simp
  then have "set (map fst (po_results p)) \<subseteq> {0..<po_next p}" by auto
  also have "\<dots> \<subseteq> {0..<length work}" using n by auto
  finally show "set (map fst (po_results p)) \<subseteq> {0..<length work}" .
qed

section \<open>The run ends\<close>

text \<open>Every step makes this number smaller, so no run of the workers is infinite.\<close>

definition pool_measure :: "(test_case \<times> nat) list \<Rightarrow> pool \<Rightarrow> nat" where
  "pool_measure work p =
     2 * (length work - po_next p) + length (in_work p) + length (filter (\<lambda>w. w \<noteq> Gone) (po_workers p)) +
     (if po_stop p then 0 else 1)"

lemma length_filter_update:
  "w < length ws \<Longrightarrow>
   length (filter P (ws[w := x])) + (if P (ws ! w) then 1 else 0) = length (filter P ws) + (if P x then 1 else 0)"
proof (induction ws arbitrary: w)
  case (Cons y ws)
  then show ?case by (cases w) auto
qed simp

lemma length_in_work_update:
  assumes "w < length (po_workers p)"
  shows "length (concat (map working ((po_workers p)[w := x]))) + length (working (po_workers p ! w)) =
    length (in_work p) + length (working x)"
  using arg_cong [OF in_work_update [OF assms, of x], of size] by simp

lemma pool_measure_step: "pool_step work exec p q \<Longrightarrow> pool_measure work q < pool_measure work p"
proof (induction rule: pool_step.induct)
  case (take_item w p)
  then show ?case
    using length_in_work_update [of w p "Working (po_next p)"]
      length_filter_update [of w "po_workers p" "\<lambda>w. w \<noteq> Gone" "Working (po_next p)"]
    by (simp add: pool_measure_def in_work_def)
next
  case (leave w p)
  then show ?case
    using length_in_work_update [of w p Gone] length_filter_update [of w "po_workers p" "\<lambda>w. w \<noteq> Gone" Gone]
    by (simp add: pool_measure_def in_work_def)
next
  case (finish w p i r)
  then show ?case
    using length_in_work_update [of w p Idle] length_filter_update [of w "po_workers p" "\<lambda>w. w \<noteq> Gone" Idle]
    by (simp add: pool_measure_def in_work_def)
next
  case (cancelled w p i)
  then show ?case
    using length_in_work_update [of w p Gone] length_filter_update [of w "po_workers p" "\<lambda>w. w \<noteq> Gone" Gone]
    by (simp add: pool_measure_def in_work_def)
next
  case (crash w p i)
  then show ?case
    using length_in_work_update [of w p Gone] length_filter_update [of w "po_workers p" "\<lambda>w. w \<noteq> Gone" Gone]
    by (simp add: pool_measure_def in_work_def)
next
  case (stop p)
  then show ?case by (simp add: pool_measure_def in_work_def)
qed

section \<open>The shards partition the cases\<close>

lemma mset_concat_filter_classes:
  assumes "\<forall>x \<in> set xs. f x < (k :: nat)"
  shows "mset (concat (map (\<lambda>i. filter (\<lambda>x. f x = i) xs) [0..<k])) = mset xs"
  using assms
proof (induction xs)
  case Nil
  then show ?case by (induction k) auto
next
  case (Cons x xs)
  have "mset (concat (map (\<lambda>i. filter (\<lambda>x. f x = i) (x # xs)) [0..<k])) =
      mset (concat (map (\<lambda>i. filter (\<lambda>x. f x = i) xs) [0..<k])) + (if f x < k then {#x#} else {#})" for k
    by (induction k) auto
  with Cons show ?case by simp
qed

lemma select_shard_partition:
  assumes "0 < k"
  shows "mset (concat (map (select_shard cases k) [0..<k])) = mset cases"
proof -
  let ?xs = "enum_from 0 cases"
  have "concat (map (select_shard cases k) [0..<k]) =
      map snd (concat (map (\<lambda>i. filter (\<lambda>x. fst x mod k = i) ?xs) [0..<k]))"
    unfolding map_concat map_map
    by (rule arg_cong [of _ _ concat], rule map_cong) (simp_all add: select_shard_def case_prod_unfold)
  then have "mset (concat (map (select_shard cases k) [0..<k])) =
      image_mset snd (mset (concat (map (\<lambda>i. filter (\<lambda>x. fst x mod k = i) ?xs) [0..<k])))" by (simp only: mset_map)
  also have "\<dots> = image_mset snd (mset ?xs)"
    by (subst mset_concat_filter_classes) (simp_all add: assms)
  also have "\<dots> = mset cases" by (simp add: enum_from_def flip: mset_map)
  finally show ?thesis .
qed

lemma length_work_list: "length (work_list n xs) = n * length xs"
  by (induction n) (simp_all add: work_list_def)

lemma set_work_list: "set (work_list n xs) = set xs \<times> {0..<n}"
  by (auto simp: work_list_def)

lemma distinct_work_list: "distinct xs \<Longrightarrow> distinct (work_list n xs)"
  by (induction n) (auto simp: work_list_def distinct_map inj_on_def)

section \<open>What \<open>execute\<close> returns\<close>

text \<open>
  The results in the order they were appended and their summary. An exception of a worker leaves
  \<open>execute\<close> unless the stop event is set by then, when the outcomes of the workers are only gathered.
\<close>

definition execute_return ::
  "run_config \<Rightarrow> nat \<Rightarrow> nat \<Rightarrow> rat \<Rightarrow> pool \<Rightarrow> (case_result list \<times> run_summary res) option" where
  "execute_return config shard_index shard_count duration_ms p =
     (if po_failed p \<and> \<not> po_stop p then None
      else let results = map snd (po_results p)
           in Some (results,
                summarize (rc_run_id config) shard_index shard_count results (rc_evaluation config) duration_ms))"

lemma summarize_total: "summarize run i k results ev d = Inr s \<Longrightarrow> rs_total s = length results"
  by (auto simp: summarize_def Let_def)

definition result_item :: "case_result \<Rightarrow> string \<times> nat" where
  "result_item r = (cr_case_id r, cr_iteration r)"

definition work_item :: "test_case \<times> nat \<Rightarrow> string \<times> nat" where
  "work_item item = (tc_case_id (fst item), snd item)"

lemma case_exec_item: "case_exec env config reg item r \<Longrightarrow> result_item r = work_item item"
proof -
  assume "case_exec env config reg item r"
  then obtain orc st st' where "execute_case env config reg orc (fst item) (snd item) st = (Inr r, st')"
    by (auto simp: case_exec_def)
  then obtain started st1 st2 where "case_body env config reg orc (fst item) (snd item) started st1 = (Inr r, st2)"
    by (rule execute_case_body)
  from case_body_ok [OF this] show ?thesis by (auto simp: result_item_def work_item_def permitted_result_ok_def)
qed

lemma pool_results_items:
  assumes "pool_inv work (case_exec env config reg) n p"
  shows "map result_item (map snd (po_results p)) = map (\<lambda>i. work_item (work ! i)) (map fst (po_results p))"
  using assms by (auto simp: pool_inv_def intro!: case_exec_item)

lemma pool_no_work: "pool_inv [] exec n p \<Longrightarrow> po_results p = []"
  using pool_at_most_once(2) [of "[]" exec n p] by simp

lemma map_nth_work: "mset (map (\<lambda>i. f (work ! i)) [0..<length work]) = mset (map f work)"
  by (rule arg_cong [of _ _ mset], rule nth_equalityI) simp_all

lemma pool_results_complete:
  assumes inv: "pool_inv work (case_exec env config reg) n p" and "pool_done p" "\<not> po_stop p" "\<not> po_failed p"
    and "work = [] \<or> 0 < n"
  shows "mset (map result_item (map snd (po_results p))) = mset (map work_item work)"
proof (cases "work = []")
  case True
  with inv show ?thesis using pool_no_work by simp
next
  case False
  with assms have "mset (map fst (po_results p)) = mset [0..<length work]" by (intro pool_complete) auto
  then have "mset (map (\<lambda>i. work_item (work ! i)) (map fst (po_results p))) = mset (map (\<lambda>i. work_item (work ! i)) [0..<length work])"
    by (metis mset_map)
  then show ?thesis by (simp only: pool_results_items [OF inv] map_nth_work)
qed

lemma pool_results_sub:
  assumes inv: "pool_inv work (case_exec env config reg) n p"
  shows "mset (map result_item (map snd (po_results p))) \<subseteq># mset (map work_item work)"
proof -
  have "distinct (map fst (po_results p))" "set (map fst (po_results p)) \<subseteq> set [0..<length work]"
    using pool_at_most_once [OF inv] by simp_all
  then have "mset (map fst (po_results p)) \<subseteq># mset [0..<length work]"
    by (metis List.finite_set distinct_upt mset_set_set subset_imp_msubset_mset_set)
  then have "mset (map (\<lambda>i. work_item (work ! i)) (map fst (po_results p))) \<subseteq># mset (map (\<lambda>i. work_item (work ! i)) [0..<length work])"
    unfolding mset_map [of "\<lambda>i. work_item (work ! i)"] by (rule image_mset_subseteq_mono)
  then show ?thesis by (simp only: pool_results_items [OF inv] map_nth_work)
qed

section \<open>Runs are bounded and can be completed\<close>

lemma pool_run_bounded: "(pool_step work exec ^^ k) p q \<Longrightarrow> k + pool_measure work q \<le> pool_measure work p"
proof (induction k arbitrary: q)
  case (Suc k)
  from Suc.prems obtain r where "(pool_step work exec ^^ k) p r" "pool_step work exec r q" by auto
  with Suc.IH pool_measure_step show ?case by fastforce
qed simp

lemma pool_measure_start: "pool_measure work (pool_start n) = 2 * length work + n + 1"
  by (simp add: pool_measure_def pool_start_def in_work_def map_replicate_const)

lemma in_work_bound:
  assumes inv: "pool_inv work exec n p" and w: "w < length (po_workers p)" "po_workers p ! w = Working i"
  shows "i < length work"
proof -
  have "Working i \<in> set (po_workers p)" using nth_mem [OF w(1)] w(2) by simp
  then have "i \<in> set (in_work p)" by (force simp: in_work_def)
  then have "i \<in># mset (map fst (po_results p)) + mset (po_dropped p) + mset (in_work p)" by simp
  then have "i \<in># mset [0..<po_next p]" and "po_next p \<le> length work"
    using inv unfolding pool_inv_def by metis+
  then show ?thesis by simp
qed

lemma pool_progress_ok:
  assumes inv: "pool_inv work exec n p" and "\<not> pool_done p" and ex: "\<forall>item \<in> set work. \<exists>r. exec item r"
  shows "\<exists>q. pool_step work exec p q \<and> po_stop q = po_stop p \<and> po_failed q = po_failed p"
proof -
  from assms(2) obtain w where w: "w < length (po_workers p)" "po_workers p ! w \<noteq> Gone"
    by (auto simp: pool_done_def in_set_conv_nth)
  show ?thesis
  proof (cases "po_workers p ! w")
    case Idle
    then show ?thesis
      using w take_item [of w p work exec] leave [of w p work exec] by (cases "po_stop p \<or> length work \<le> po_next p") fastforce+
  next
    case (Working i)
    moreover obtain r where "exec (work ! i) r" using ex nth_mem [OF in_work_bound [OF inv w(1) Working]] by blast
    ultimately show ?thesis using w finish [of w p i exec work r] by fastforce
  qed (use w in simp)
qed

lemma pool_can_finish:
  assumes "pool_inv work exec n p" and "\<forall>item \<in> set work. \<exists>r. exec item r"
  shows "\<exists>q. (pool_step work exec)\<^sup>*\<^sup>* p q \<and> pool_done q \<and> po_stop q = po_stop p \<and> po_failed q = po_failed p"
  using assms(1)
proof (induction "pool_measure work p" arbitrary: p rule: less_induct)
  case less
  show ?case
  proof (cases "pool_done p")
    case False
    then obtain q where q: "pool_step work exec p q" "po_stop q = po_stop p" "po_failed q = po_failed p"
      using pool_progress_ok [OF less.prems False assms(2)] by blast
    with less.hyps [OF pool_measure_step [OF q(1)] pool_inv_step [OF less.prems q(1)]] show ?thesis
      by (metis converse_rtranclp_into_rtranclp)
  qed blast
qed

section \<open>The work of the shards\<close>

lemma mset_work_list: "mset (work_list n xs) = (\<Sum>i\<in>#mset [0..<n]. image_mset (\<lambda>c. (c, i)) (mset xs))"
  by (induction n) (simp_all add: work_list_def)

lemma mset_work_list_append: "mset (work_list n (xs @ ys)) = mset (work_list n xs) + mset (work_list n ys)"
  by (simp add: mset_work_list sum_mset.distrib)

lemma mset_work_list_concat: "mset (work_list n (concat xss)) = mset (concat (map (work_list n) xss))"
proof (induction xss)
  case Nil
  then show ?case by (simp add: mset_work_list)
next
  case (Cons xs xss)
  then show ?case by (simp add: mset_work_list_append)
qed

lemma run_work_shards:
  assumes "0 < k"
  shows "mset (concat (map (run_work config cases k) [0..<k])) = mset (run_work config cases 1 0)"
proof -
  let ?n = "nat (wl_iterations (rc_workload config))"
  have one: "mset (select_shard cases 1 0) = mset cases" using select_shard_partition [of 1 cases] by simp
  have "mset (concat (map (run_work config cases k) [0..<k])) = mset (work_list ?n (concat (map (select_shard cases k) [0..<k])))"
    unfolding mset_work_list_concat map_map comp_def run_work_def by (rule refl)
  also have "\<dots> = mset (work_list ?n (select_shard cases 1 0))"
    using select_shard_partition [OF assms, of cases] one by (simp add: mset_work_list)
  finally show ?thesis by (simp add: run_work_def)
qed

end
