(* ===== verification/Runner_Telemetry.thy ===== *)
theory Runner_Telemetry
  imports Runner
begin

text \<open>
  The spans that the runner of theory \<open>Runner\<close> hands to the telemetry client: every span has ended
  when the case is over, however it is over, and content is in them only in redacted mode, cut to
  the size limit.
\<close>

section \<open>Good spans\<close>

definition good_span :: "content_sanitizer option \<Rightarrow> span \<Rightarrow> bool" where
  "good_span san sp \<longleftrightarrow> sp_ended sp \<and> span_private san sp"

definition good_spans :: "content_sanitizer option \<Rightarrow> run_st \<Rightarrow> bool" where
  "good_spans san st = list_all (good_span san) (st_spans st)"

lemma good_end [simp]: "good_span san (end_span sp) = span_private san sp"
  by (simp add: good_span_def)

lemma good_emit [simp]: "good_spans san (emit sps st) \<longleftrightarrow> good_spans san st \<and> list_all (good_span san) sps"
  by (simp add: good_spans_def emit_def)

lemma good_breaker [simp]: "good_spans san (st\<lparr>st_breaker := b\<rparr>) = good_spans san st"
  and good_perf_counter [simp]: "good_spans san (snd (perf_counter orc st)) = good_spans san st"
  and good_stop_is_set [simp]: "good_spans san (snd (stop_is_set orc st)) = good_spans san st"
  by (simp_all add: good_spans_def perf_counter_def stop_is_set_def)

text \<open>The attribute names of the runner that are not content.\<close>

lemma content_key_runner [simp]:
  "\<not> content_key ''gen_ai.provider.name''" "\<not> content_key ''gen_ai.request.model''"
  "\<not> content_key ''gen_ai.usage.input_tokens''" "\<not> content_key ''gen_ai.usage.output_tokens''"
  "\<not> content_key ''gen_ai.evaluation.name''" "\<not> content_key ''gen_ai.evaluation.score.label''"
  "\<not> content_key ''agentstorm.attempt.number''" "\<not> content_key ''agentstorm.attempt.outcome''"
  "\<not> content_key ''agentstorm.attempt.ambiguous''" "\<not> content_key ''agentstorm.error.code''"
  "\<not> content_key ''agentstorm.failure.category''" "\<not> content_key ''agentstorm.retry.decision''"
  "\<not> content_key ''agentstorm.retry.backoff_ms''" "\<not> content_key ''agentstorm.agent.model_call_count''"
  "\<not> content_key ''agentstorm.agent.tool_call_count''" "\<not> content_key ''agentstorm.fault.type''"
  "\<not> content_key ''agentstorm.circuit.event''" "\<not> content_key ''agentstorm.evaluation.index''"
  "\<not> content_key ''agentstorm.evaluation.deterministic''" "\<not> content_key ''agentstorm.run.id''"
  "\<not> content_key ''agentstorm.case.id''" "\<not> content_key ''agentstorm.case.iteration''"
  "\<not> content_key ''agentstorm.case.success''" "\<not> content_key ''agentstorm.case.failure_kind''"
  "\<not> content_key ''agentstorm.case.failure_category''" "\<not> content_key ''agentstorm.case.error_code''"
  by (simp_all add: content_key_def)

lemmas private_intros = span_private_set_attribute span_private_set_error span_private_start

lemma private_set_option: "\<not> content_key k \<Longrightarrow> span_private san sp \<Longrightarrow> span_private san (set_option_attribute k v sp)"
  by (simp add: set_option_attribute_def private_intros split: option.splits)

lemma private_provider_span:
  "span_private san sp \<Longrightarrow> span_private san (provider_span san response error sp)"
  by (auto simp: provider_span_def Let_def sanitizer_len split: option.splits
      intro!: private_intros private_set_option)

lemma private_attempt_span: "span_private san sp \<Longrightarrow> span_private san (attempt_span_attributes a e sp)"
  by (auto simp: attempt_span_attributes_def Let_def split: option.splits intro!: private_intros private_set_option)

lemma private_case_span: "span_private san sp \<Longrightarrow> span_private san (case_span_attributes r sp)"
  by (auto simp: case_span_attributes_def Let_def intro!: private_intros private_set_option)

lemma private_provider_attributes: "list_all (attr_private san) (provider_attributes config n)"
  by (simp add: provider_attributes_def Let_def list_all_dict_set del: dict_set.simps)

lemma good_trace: "good_spans san st \<Longrightarrow> good_spans san (trace_circuit_events config events st)"
  by (simp add: trace_circuit_events_def list.pred_map comp_def list.pred_True span_private_start)

lemma good_evaluate_spans: "list_all (good_span san) (evaluate_spans outcomes)"
  by (auto simp: evaluate_spans_def Let_def list_all_iff intro!: private_intros)

section \<open>The spans of a case\<close>

lemma run_adapter_lifecycle:
  assumes "run_adapter env config orc c it n = (r, l)"
  shows "lifecycle_inv l" and "lifecycle_private (content_sanitizer_of env config) l"
proof -
  obtain t where "(r, l) = (case interp t (case_handler (content_sanitizer_of env config) (or_sleep orc n)) (CaseLifecycle, 0)
      of (r, l, _) \<Rightarrow> (r, l))"
    using assms [unfolded run_adapter_def, symmetric] by blast
  then have l: "l = fst (snd (interp t (case_handler (content_sanitizer_of env config) (or_sleep orc n)) (CaseLifecycle, 0)))"
    by (simp split: prod.splits)
  show "lifecycle_inv l" unfolding l by (rule lifecycle_inv_interp [OF lifecycle_inv_init])
  show "lifecycle_private (content_sanitizer_of env config) l"
    unfolding l by (rule lifecycle_private_interp [OF lifecycle_private_init])
qed

lemma call_provider_lifecycle:
  assumes "call_provider env config orc c it n remaining st = ((r, l), st')"
  shows "lifecycle_inv l \<and> lifecycle_private (content_sanitizer_of env config) l \<and>
    good_spans san st' = good_spans san st"
  using assms run_adapter_lifecycle [of env config orc c it n] lifecycle_inv_init lifecycle_private_init
  by (auto simp: call_provider_def split: if_splits permit_entry.splits prod.splits)

lemma good_close:
  assumes "lifecycle_inv l" and "lifecycle_private san l"
  shows "list_all (good_span san) (lc_spans (close e l))"
  using close_complete(2) [OF assms(1), of e] lifecycle_private_close [OF assms(2), of e]
  by (auto simp: list_all_iff good_span_def lifecycle_private_def)

lemma good_with_span:
  assumes "good_spans san st" and "list_all (attr_private san) d"
    and "\<And>sp st r sp' st'. span_private san sp \<Longrightarrow> good_spans san st \<Longrightarrow> body sp st = (r, sp', st') \<Longrightarrow>
      span_private san sp' \<and> good_spans san st'"
  shows "good_spans san (snd (with_span n d body st))"
  using assms(3) [OF span_private_start [OF assms(2)] assms(1)]
  by (auto simp: with_span_def split: prod.splits)

lemma good_invoke_attempt:
  assumes "san = content_sanitizer_of env config" and "good_spans san st"
  shows "good_spans san (snd (invoke_attempt env config orc c it n remaining st))"
  unfolding invoke_attempt_def
proof (rule good_with_span [OF assms(2) private_provider_attributes])
  fix sp st r sp' st'
  assume sp: "span_private san sp" and st: "good_spans san st"
  let ?st1 = "snd (perf_counter orc st)"
  obtain oc l st2 where call: "call_provider env config orc c it n remaining ?st1 = ((oc, l), st2)" by (metis prod.exhaust)
  note lc = call_provider_lifecycle [OF call, of san]
  have g: "good_spans san st2" using st lc by simp
  have cl: "list_all (good_span san) (lc_spans (close e l))" for e using lc assms(1) by (simp add: good_close)
  assume "(let (started, st) = perf_counter orc st;
           ((r, l), st) = call_provider env config orc c it n remaining st
       in case provider_error env r of
            None \<Rightarrow> (Inl CancelledError, set_error ''cancelled'' sp, emit (lc_spans (close ''cancelled'' l)) st)
          | Some (response, error) \<Rightarrow>
              let (now, st) = perf_counter orc st;
                  l = close (case error of None \<Rightarrow> ''incomplete_tool_call'' | Some (name, _) \<Rightarrow> name) l
              in (Inr (response, map_option snd error,
                       build_attempt env n (elapsed_ms started now) response (map_option snd error)
                         (lc_tool_path l),
                       lc_tool_path l),
                  provider_span (content_sanitizer_of env config) response error sp,
                  emit (lc_spans l) st)) = (r, sp', st')"
  with call have "sp' = set_error ''cancelled'' sp \<and> st' = emit (lc_spans (close ''cancelled'' l)) st2 \<or>
    (\<exists>response error e. sp' = provider_span san response error sp \<and>
       st' = emit (lc_spans (close e l)) (snd (perf_counter orc st2)))"
    unfolding assms(1)
    by (cases "perf_counter orc st"; cases "perf_counter orc st2"; cases "provider_error env oc") (auto simp: Let_def)
  then show "span_private san sp' \<and> good_spans san st'"
    using sp g cl by (auto simp: span_private_set_error private_provider_span)
qed

lemma good_retry_decision:
  "good_spans san (snd (retry_decision env config orc c it permit deadline n cumulative e st)) = good_spans san st"
  by (auto simp: retry_decision_def Let_def perf_counter_def good_spans_def split: option.splits sum.splits)

lemma good_settle:
  "good_spans san (snd (settle_attempt env config orc c it permit deadline n cumulative error a st)) = good_spans san st"
proof (cases error)
  case (Some e)
  then show ?thesis
    using good_retry_decision [of san env config orc c it permit deadline n cumulative e st]
    by (auto simp: settle_attempt_def Let_def split: prod.splits sum.splits)
qed (simp add: settle_attempt_def Let_def)

lemma good_attempt_round:
  assumes san: "san = content_sanitizer_of env config" and "good_spans san st"
  shows "good_spans san (snd (attempt_round env config orc c it permit deadline n cumulative st))"
proof -
  let ?st1 = "snd (stop_is_set orc st)"
  let ?st2 = "snd (perf_counter orc ?st1)"
  let ?rem = "max 0 (fsub deadline (fst (perf_counter orc ?st1)))"
  have g: "good_spans san ?st2" using assms(2) by simp
  let ?body = "\<lambda>sp st. case invoke_attempt env config orc c it n ?rem st of
      (Inl x, st) \<Rightarrow> (Inl x, sp, st)
    | (Inr (response, error, attempt, tools), st) \<Rightarrow>
        (case settle_attempt env config orc c it permit deadline n cumulative error attempt st of
           (Inl x, st) \<Rightarrow> (Inl x, sp, st)
         | (Inr attempt, st) \<Rightarrow>
             (Inr (response, error, attempt, tools), attempt_span_attributes attempt error sp, st))"
  have "good_spans san (snd (with_span ''agentstorm.attempt''
      [(''agentstorm.case.id'', AStr (tc_case_id c)), (''agentstorm.case.iteration'', AInt (int it)),
       (''agentstorm.attempt.number'', AInt (int n))] ?body ?st2))"
  proof (rule good_with_span [OF g])
    fix sp st and r :: "stopped + attempt_out" and sp' st'
    assume sp: "span_private san sp" and st: "good_spans san st" and body: "?body sp st = (r, sp', st')"
    have inv: "good_spans san (snd (invoke_attempt env config orc c it n ?rem st))"
      by (rule good_invoke_attempt [OF san st])
    show "span_private san sp' \<and> good_spans san st'"
      using body inv sp good_settle [of san env config orc c it permit deadline n cumulative]
      by (auto split: prod.splits sum.splits simp: private_attempt_span) (metis snd_conv)+
  qed simp
  then show ?thesis
    using assms(2) by (auto simp: attempt_round_def Let_def split: prod.splits) (metis good_stop_is_set snd_conv)+
qed

lemma good_backoff_pause:
  assumes "good_spans san st"
  shows "good_spans san (snd (backoff_pause orc c it a st))"
proof -
  have "good_spans san (snd (with_span ''agentstorm.retry''
        [(''agentstorm.case.id'', AStr (tc_case_id c)), (''agentstorm.case.iteration'', AInt (int it)),
         (''agentstorm.attempt.number'', AInt (int (at_number a))),
         (''agentstorm.retry.decision'', AStr (at_retry_decision a)),
         (''agentstorm.retry.backoff_ms'', AInt (at_backoff_ms a))]
        (\<lambda>sp st. (if or_wait orc (at_number a) = WaitTimedOut then Inr () else Inl CancelledError, sp, st))
        (snd (stop_is_set orc st))))"
    by (rule good_with_span) (simp_all add: assms)
  then show ?thesis
    using assms by (auto simp: backoff_pause_def Let_def split: prod.splits) (metis good_stop_is_set snd_conv)+
qed

lemma good_attempt_loop:
  "san = content_sanitizer_of env config \<Longrightarrow> good_spans san st \<Longrightarrow>
   good_spans san (snd (attempt_loop env config orc c it permit deadline n cumulative attempts st))"
proof (induction env config orc c it permit deadline n cumulative attempts st rule: attempt_loop.induct)
  case (1 env config orc c it permit deadline n cumulative attempts st)
  obtain x st1 where round: "attempt_round env config orc c it permit deadline n cumulative st = (x, st1)" by force
  have g1: "good_spans san st1" using good_attempt_round [OF 1(2,3)] round by (metis snd_conv)
  show ?case
  proof (cases x)
    case (Inl y)
    then show ?thesis using g1 round by (subst attempt_loop.simps) simp
  next
    case (Inr out)
    obtain r err a t where out: "out = (r, err, a, t)" by (metis prod.exhaust)
    note round' = round [unfolded Inr out]
    show ?thesis
    proof (cases "err = None \<or> \<not> is_retry (at_retry_decision a)")
      case True
      then show ?thesis using g1 round' by (subst attempt_loop.simps) auto
    next
      case False
      obtain u st2 where pause: "backoff_pause orc c it a st1 = (u, st2)" by force
      have g2: "good_spans san st2" using good_backoff_pause [OF g1] pause by (metis snd_conv)
      show ?thesis
      proof (cases u)
        case (Inl y)
        then show ?thesis using g2 round' pause False by (subst attempt_loop.simps) auto
      next
        case (Inr v)
        from 1(1) [OF round' [symmetric] refl refl refl refl False pause [unfolded Inr, symmetric] refl 1(2) g2]
        show ?thesis using round' pause False Inr by (subst attempt_loop.simps) auto
      qed
    qed
  qed
qed

lemma good_lift_res [simp]: "snd (lift_res r st) = st"
  by (simp add: lift_res_def split: sum.splits)

lemma good_finish_case:
  assumes "good_spans san st"
  shows "good_spans san (snd (finish_case env config reg orc c it permit started out st))"
proof -
  obtain response error attempts tools where out: "out = (response, error, attempts, tools)" by (metis prod.exhaust)
  obtain events b where rt: "record_terminal (breaker_of config) (snd (or_monotonic orc)) permit (error = None \<and> response \<noteq> None)
      (case error of None \<Rightarrow> [] | Some e \<Rightarrow> ee_category e) (st_breaker st) = (events, b)" by force
  obtain now st1 where pc: "perf_counter orc (trace_circuit_events config events (st\<lparr>st_breaker := b\<rparr>)) = (now, st1)" by force
  have "good_spans san (trace_circuit_events config events (st\<lparr>st_breaker := b\<rparr>))" using assms by (simp add: good_trace)
  then have g: "good_spans san st1" using pc by (metis good_perf_counter snd_conv)
  show ?thesis
    unfolding finish_case_def out Let_def prod.case rt pc
    using g by (cases error; cases response) (simp_all add: good_evaluate_spans)
qed

lemma good_execute_permitted_case:
  assumes san: "san = content_sanitizer_of env config" and "good_spans san st"
  shows "good_spans san (snd (execute_permitted_case env config reg orc c it permit started st))"
proof -
  obtain x st1 where loop: "attempt_loop env config orc c it permit (case_deadline config started) 1 0 []
      (trace_circuit_events config (pm_events permit) st) = (x, st1)" by force
  have "good_spans san st1"
    using good_attempt_loop [OF san good_trace [OF assms(2)]] loop by (metis snd_conv)
  then show ?thesis
    unfolding execute_permitted_case_def loop by (cases x) (simp_all add: good_finish_case)
qed

lemma good_case_body:
  assumes san: "san = content_sanitizer_of env config" and "good_spans san st"
  shows "good_spans san (snd (case_body env config reg orc c it started st))"
proof -
  obtain x b where ac: "acquire (breaker_of config) (fst (or_monotonic orc)) (st_breaker st) = (x, b)" by force
  have g: "good_spans san (st\<lparr>st_breaker := b\<rparr>)" using assms(2) by simp
  show ?thesis
  proof (cases x)
    case (Inl e)
    obtain now st1 where pc: "perf_counter orc (trace_circuit_events config (ee_circuit_events e) (st\<lparr>st_breaker := b\<rparr>)) = (now, st1)" by force
    have "good_spans san st1" using good_trace [OF g] pc by (metis good_perf_counter snd_conv)
    then show ?thesis by (simp add: case_body_def ac Inl pc Let_def)
  next
    case (Inr permit)
    then show ?thesis using good_execute_permitted_case [OF san g] by (simp add: case_body_def ac)
  qed
qed

lemma foldl_list_all:
  "(\<And>a x. list_all P a \<Longrightarrow> list_all P (f a x)) \<Longrightarrow> list_all P d \<Longrightarrow> list_all P (foldl f d xs)"
  by (induction xs arbitrary: d) auto

lemma private_case_attributes:
  "list_all (attr_private (content_sanitizer_of env config)) (case_attributes env config c it)"
proof (cases "content_sanitizer_of env config")
  case None
  then show ?thesis by (simp add: case_attributes_def Let_def)
next
  case (Some s)
  have step: "list_all (attr_private (Some s))
      (case dict_get (tc_metadata c) key of
         None \<Rightarrow> attrs
       | Some v \<Rightarrow>
           if sensitive_key key then attrs
           else (case sanitizer_content s v of
                   None \<Rightarrow> attrs
                 | Some t \<Rightarrow> dict_set attrs (''agentstorm.case.metadata.'' @ key) (AStr t)))"
    if "list_all (attr_private (Some s)) attrs" for attrs key
    using that by (simp add: sanitizer_len list_all_dict_set split: option.split del: append_Cons)
  show ?thesis
    unfolding case_attributes_def Let_def Some option.case
    by (rule foldl_list_all [OF step], assumption, rule list_all_dict_set) (simp_all add: sanitizer_len)
qed

lemma good_execute_case:
  assumes "san = content_sanitizer_of env config" and "good_spans san st"
  shows "good_spans san (snd (execute_case env config reg orc c it st))"
proof -
  obtain started st1 where pc: "perf_counter orc st = (started, st1)" by force
  have g: "good_spans san st1" using assms(2) pc by (metis good_perf_counter snd_conv)
  have "good_spans san (snd (with_span ''agentstorm.case'' (case_attributes env config c it)
      (\<lambda>sp st. case case_body env config reg orc c it started st of
                  (Inl x, st) \<Rightarrow> (Inl x, sp, st)
                | (Inr r, st) \<Rightarrow> (Inr r, case_span_attributes r sp, st)) st1))"
  proof (rule good_with_span [OF g])
    show "list_all (attr_private san) (case_attributes env config c it)"
      unfolding assms(1) by (rule private_case_attributes)
    fix sp st and r :: "stopped + case_result" and sp' st'
    assume sp: "span_private san sp" and st: "good_spans san st"
      and body: "(case case_body env config reg orc c it started st of
                  (Inl x, st) \<Rightarrow> (Inl x, sp, st)
                | (Inr r, st) \<Rightarrow> (Inr r, case_span_attributes r sp, st)) = (r, sp', st')"
    show "span_private san sp' \<and> good_spans san st'"
      using body sp good_case_body [OF assms(1) st, of reg orc c it started]
      by (auto split: prod.splits sum.splits simp: private_case_span)
  qed
  then show ?thesis by (simp add: execute_case_def pc Let_def)
qed

end
