(* ===== verification/Example.thy ===== *)
theory Example
  imports Pool Runner_Telemetry
begin

text \<open>
  One case run against the fake adapter from end to end: a concrete environment, configuration and
  oracle, at which the hypotheses of the properties of whole runs hold.
\<close>

definition example_env :: runner_env where
  "example_env = \<lparr>rv_digest = (\<lambda>_. replicate 32 0), rv_agents = False, rv_openai = False, rv_frep = (\<lambda>_. ''0.0''),
     rv_sub = (\<lambda>_ s. s), rv_rep = (\<lambda>_. ''''), rv_eval = plain_env\<rparr>"

definition example_retry :: retry_config where
  "example_retry = \<lparr>rt_max_attempts = 2, rt_initial_backoff_ms = 100, rt_max_backoff_ms = 1000,
     rt_max_cumulative_backoff_ms = 1000, rt_jitter_ratio = 0, rt_allow_ambiguous_retries = False\<rparr>"

definition example_config :: run_config where
  "example_config =
     \<lparr>rc_run_id = ''run'', rc_source = \<lparr>so_namespace = ''ns'', so_name = ''src''\<rparr>,
      rc_dataset = \<lparr>ds_name = ''d'', ds_key = ''k''\<rparr>,
      rc_target = \<lparr>tg_provider = ''fake'', tg_model = [], tg_base_url = [], tg_adapter_entrypoint = [],
        tg_pricing = Some \<lparr>pr_input_usd_per_million_tokens = ''3'', pr_output_usd_per_million_tokens = ''0.5''\<rparr>,
        tg_max_output_tokens = None, tg_request_fields = [], tg_http_retry_attempts = None,
        tg_http_retry_max_wait_seconds = None\<rparr>,
      rc_workload = \<lparr>wl_concurrency = 1, wl_iterations = 1, wl_timeout_seconds = 30\<rparr>,
      rc_evaluation = \<lparr>ev_min_success_rate = None, ev_max_error_rate = None, ev_max_p95_latency_ms = None\<rparr>,
      rc_telemetry = \<lparr>tl_content_mode = ''omit'', tl_redaction = \<lparr>td_patterns = [], td_metadata_keys = []\<rparr>\<rparr>,
      rc_reliability = Some \<lparr>rl_seed = Some 1, rl_retry = example_retry, rl_circuit_breaker = None, rl_scenario = None\<rparr>\<rparr>"

definition example_oracle :: case_oracle where
  "example_oracle =
     \<lparr>or_clock = (\<lambda>_. 0), or_stop = (\<lambda>_. False), or_adapter = (\<lambda>_. fake_run 0), or_sleep = (\<lambda>_ _ _. Done),
      or_wait = (\<lambda>_. WaitTimedOut), or_limited = False, or_permit = (\<lambda>_. EntryCancelled), or_lost = (\<lambda>_. False),
      or_monotonic = (0, 0), or_others = (\<lambda>b. b)\<rparr>"

definition example_st :: run_st where
  "example_st = \<lparr>st_clock = 0, st_stop = 0, st_spans = [], st_breaker = breaker_init\<rparr>"

lemma example_registry: "\<exists>reg. EvaluatorRegistry plain_env [plain_case] = Inr reg"
  by (simp add: EvaluatorRegistry_def plain_case_def effective_assertions_def AssertionSpec_def prepare_def plain_env_def)

definition example_reg :: registry where
  "example_reg = (case EvaluatorRegistry plain_env [plain_case] of Inr reg \<Rightarrow> reg | Inl _ \<Rightarrow> empty_registry)"

lemma example_reg: "EvaluatorRegistry plain_env [plain_case] = Inr example_reg"
  using example_registry by (auto simp: example_reg_def)

lemma example_deadline: "case_deadline example_config 0 = 30"
  using f64_of_int [of 30] by (simp add: case_deadline_def example_config_def fadd_def)

text \<open>The first attempt: the fake adapter returns its response after one tool call and a handoff.\<close>

lemma example_adapter:
  "\<exists>l. run_adapter example_env example_config example_oracle plain_case 0 1 = (ORet (fake_response plain_case), l) \<and>
     lc_tool_path l = [''fake.echo'']"
  by (simp add: run_adapter_def middleware_run_def scenario_of_def seed_of_def example_config_def select_fault_rule_def
      example_oracle_def fake_run_def content_sanitizer_of_def Let_def tool_finished_steps tool_started_steps
      fake_tool_event_def ToolLifecycleEvent_def CaseLifecycle_def handed_off_def push_tool_def drop_tool_def
      dict_get_def)

lemma example_clock [simp]:
  "perf_counter example_oracle st = (0, st\<lparr>st_clock := Suc (st_clock st)\<rparr>)"
  "stop_is_set example_oracle st = (False, st\<lparr>st_stop := Suc (st_stop st)\<rparr>)"
  by (simp_all add: perf_counter_def stop_is_set_def example_oracle_def)

lemma example_call:
  assumes "0 < remaining"
  shows "\<exists>l. call_provider example_env example_config example_oracle plain_case 0 1 remaining st =
    ((ORet (fake_response plain_case), l), st) \<and> lc_tool_path l = [''fake.echo'']"
  using example_adapter assms by (simp add: call_provider_def example_oracle_def)

text \<open>What the accounting reads of an attempt.\<close>

definition example_usage :: "attempt_result \<Rightarrow> bool" where
  "example_usage a \<longleftrightarrow> at_input_tokens a = Some 11 \<and> at_output_tokens a = Some 7 \<and> at_usage_complete a"

definition example_out ::
  "adapter_response option \<times> execution_error option \<times> attempt_result \<times> string list \<Rightarrow> bool" where
  "example_out out \<longleftrightarrow>
     (\<exists>a. out = (Some (fake_response plain_case), None, a, [''fake.echo'']) \<and> example_usage a)"

lemma example_invoke:
  assumes "0 < remaining"
  shows "\<exists>out st'. invoke_attempt example_env example_config example_oracle plain_case 0 1 remaining st = (Inr out, st') \<and>
    example_out out"
proof -
  obtain l where call: "call_provider example_env example_config example_oracle plain_case 0 1 remaining
      (st\<lparr>st_clock := Suc (st_clock st)\<rparr>) = ((ORet (fake_response plain_case), l), st\<lparr>st_clock := Suc (st_clock st)\<rparr>)"
    and path: "lc_tool_path l = [''fake.echo'']" using example_call [OF assms] by blast
  show ?thesis
    by (simp add: invoke_attempt_def with_span_def Let_def call [unfolded One_nat_def] provider_error_def path close_def
        example_out_def example_usage_def build_attempt_def fake_response_def)
qed

lemma example_round:
  "\<exists>out st'. attempt_round example_env example_config example_oracle plain_case 0 CircuitPermit 30 (Suc 0) 0 st = (Inr out, st') \<and>
    example_out out"
proof -
  have f: "fsub 30 0 = 30" using f64_of_int [of 30] by (simp add: fsub_def)
  define st1 where "st1 = st\<lparr>st_stop := Suc (st_stop st), st_clock := Suc (st_clock st)\<rparr>"
  obtain out st2 where inv: "invoke_attempt example_env example_config example_oracle plain_case 0 (Suc 0) 30 st1 = (Inr out, st2)"
    and "example_out out" using example_invoke [of 30 st1] by auto
  then obtain a where "out = (Some (fake_response plain_case), None, a, [''fake.echo''])" "example_usage a"
    by (auto simp: example_out_def)
  with inv show ?thesis
    by (simp add: attempt_round_def Let_def f with_span_def settle_attempt_def st1_def example_out_def example_usage_def
        CircuitPermit_def)
qed

lemma example_loop:
  "\<exists>a st'. attempt_loop example_env example_config example_oracle plain_case 0 CircuitPermit 30 1 0 [] st =
    (Inr (Some (fake_response plain_case), None, [a], [''fake.echo'']), st') \<and> example_usage a"
proof -
  obtain out st1 where "attempt_round example_env example_config example_oracle plain_case 0 CircuitPermit 30 (Suc 0) 0 st
      = (Inr out, st1)" and "example_out out" using example_round by blast
  then show ?thesis by (subst attempt_loop.simps) (auto simp: example_out_def)
qed

text \<open>The case has a result, with an exact cost.\<close>

lemma example_units:
  "cost_units 11 ''3'' = 33000000" "cost_units 7 ''0.5'' = 3500000"
  "price_pattern ''3''" "price_pattern ''0.5''"
proof -
  have "dec_of_str ''3'' = Inr (Dec 3 0)" "dec_of_str ''0.5'' = Inr (Dec 5 (-1))" by code_simp+
  then show "cost_units 11 ''3'' = 33000000" "cost_units 7 ''0.5'' = 3500000"
    by (simp_all add: cost_units_def price_value_def dec_val_def)
  show "price_pattern ''3''" "price_pattern ''0.5''" by code_simp+
qed

definition example_pricing :: pricing_config where
  "example_pricing = \<lparr>pr_input_usd_per_million_tokens = ''3'', pr_output_usd_per_million_tokens = ''0.5''\<rparr>"

lemma example_costs:
  "costs_for_usage example_config 11 7 True =
     Inr (Some (fixed_str 12 33000000), Some (fixed_str 12 3500000), Some (fixed_str 12 36500000))"
  using case_costs_exact [of example_pricing 11 7]
  by (simp add: costs_for_usage_def example_config_def example_pricing_def example_units)

lemma example_finish:
  assumes "example_usage a"
  shows "\<exists>r st'. finish_case example_env example_config example_reg example_oracle plain_case 0 CircuitPermit 0
    (Some (fake_response plain_case), None, [a], [''fake.echo'']) st = (Inr r, st') \<and>
    attempt_usage (cr_attempts r) = (11, 7, True)"
proof -
  have usage: "attempt_usage [a] = (11, 7, True)"
    using assms by (simp add: attempt_usage_def example_usage_def or_0_def)
  have "breaker_of example_config = None" by (simp add: breaker_of_def example_config_def)
  then show ?thesis
    by (simp add: finish_case_def Let_def record_terminal_def extend_last_def evaluated_result_def usage
        example_costs lift_res_def case_prod_beta)
qed

lemma example_acquire: "acquire (breaker_of example_config) now br = (Inr CircuitPermit, br)"
  by (simp add: breaker_of_def example_config_def acquire_def)

lemma example_permitted:
  "\<exists>r st'. execute_permitted_case example_env example_config example_reg example_oracle plain_case 0 CircuitPermit 0 st
    = (Inr r, st') \<and> attempt_usage (cr_attempts r) = (11, 7, True)"
proof -
  obtain a st1 where loop: "attempt_loop example_env example_config example_oracle plain_case 0 CircuitPermit 30 1 0 []
      (trace_circuit_events example_config (pm_events CircuitPermit) st) =
      (Inr (Some (fake_response plain_case), None, [a], [''fake.echo'']), st1)" and a: "example_usage a"
    using example_loop by blast
  show ?thesis
    using example_finish [OF a] by (simp add: execute_permitted_case_def example_deadline loop [unfolded One_nat_def])
qed

lemma example_case:
  "\<exists>r st'. execute_case example_env example_config example_reg example_oracle plain_case 0 example_st = (Inr r, st') \<and>
    attempt_usage (cr_attempts r) = (11, 7, True)"
proof -
  let ?st = "example_st\<lparr>st_clock := Suc (st_clock example_st)\<rparr>"
  obtain r st' where "execute_permitted_case example_env example_config example_reg example_oracle plain_case 0 CircuitPermit 0 ?st
      = (Inr r, st')" and "attempt_usage (cr_attempts r) = (11, 7, True)"
    using example_permitted by blast
  then have "case_body example_env example_config example_reg example_oracle plain_case 0 0 ?st = (Inr r, st')"
    "attempt_usage (cr_attempts r) = (11, 7, True)"
    by (simp_all add: case_body_def example_acquire)
  then show ?thesis by (simp add: execute_case_def with_span_def)
qed

text \<open>A run of that one case on one worker.\<close>

definition example_work :: "(test_case \<times> nat) list" where
  "example_work = run_work example_config [plain_case] 1 0"

lemma example_work: "example_work = [(plain_case, 0)]"
  by (simp add: example_work_def run_work_def work_list_def select_shard_def enum_from_def example_config_def)

definition example_workers :: nat where
  "example_workers = worker_count example_config (length example_work)"

lemma example_exec: "\<forall>item \<in> set example_work. \<exists>r. case_exec example_env example_config example_reg item r"
  using example_case by (fastforce simp: example_work case_exec_def)

lemma example_pool:
  "\<exists>p. reachable (\<lambda>p. p = pool_start example_workers) (pool_step example_work (case_exec example_env example_config example_reg)) p \<and>
     pool_done p \<and> \<not> po_stop p \<and> \<not> po_failed p"
proof -
  obtain p where "(pool_step example_work (case_exec example_env example_config example_reg))\<^sup>*\<^sup>* (pool_start example_workers) p"
    and "pool_done p" "po_stop p = po_stop (pool_start example_workers)" "po_failed p = po_failed (pool_start example_workers)"
    using pool_can_finish [OF pool_inv_start example_exec] by blast
  moreover have "reachable (\<lambda>p. p = pool_start example_workers) step (pool_start example_workers)" for step
    by (rule reach_init) simp
  ultimately show ?thesis using reachable_steps by (fastforce simp: pool_start_def)
qed

end
