(* ===== verification/PyConv.thy ===== *)
theory PyConv
  imports PyStr
begin

text \<open>
  Conversions of Python that the loader and the adapters apply to values they do not control: \<open>int(v)\<close>,
  \<open>float(v)\<close>, attribute access on something that may not be a dictionary, membership in a set of
  strings, and \<open>splitlines\<close>.
\<close>

section \<open>Types\<close>

fun py_type :: "json \<Rightarrow> string" where
  "py_type JNull = ''NoneType''"
| "py_type (JBool b) = ''bool''"
| "py_type (JInt i) = ''int''"
| "py_type (JFloat x) = ''float''"
| "py_type (JStr s) = ''str''"
| "py_type (JList vs) = ''list''"
| "py_type (JObj d) = ''dict''"
| "py_type (JOpaque t) = t"

definition quoted :: "string \<Rightarrow> string" where
  "quoted s = [CHR 0x27] @ s @ [CHR 0x27]"

text \<open>\<open>v.get\<close>: only a dictionary has the method.\<close>

definition as_dict :: "json \<Rightarrow> json dict res" where
  "as_dict v =
     (case v of
        JObj d \<Rightarrow> Inr d
      | _ \<Rightarrow> Inl (AttributeError (quoted (py_type v) @ '' object has no attribute '' @ quoted ''get'')))"

text \<open>\<open>v in {s, t, ...}\<close>: hashing a list or a dictionary raises.\<close>

definition in_strings :: "json \<Rightarrow> string list \<Rightarrow> bool res" where
  "in_strings v names =
     (case v of
        JStr s \<Rightarrow> Inr (s \<in> set names)
      | JList _ \<Rightarrow> Inl (TypeError (''unhashable type: '' @ quoted ''list''))
      | JObj _ \<Rightarrow> Inl (TypeError (''unhashable type: '' @ quoted ''dict''))
      | _ \<Rightarrow> Inr False)"

section \<open>Numerals\<close>

text \<open>Digits with single underscores between them, as \<open>int\<close> and \<open>float\<close> accept them.\<close>

definition digit_groups :: "string \<Rightarrow> bool" where
  "digit_groups s = list_all (\<lambda>g. g \<noteq> [] \<and> list_all py_isdigit g) (split_on (CHR ''_'') s)"

definition drop_underscores :: "string \<Rightarrow> string" where
  "drop_underscores s = filter (\<lambda>c. c \<noteq> CHR ''_'') s"

fun split_sign :: "string \<Rightarrow> bool \<times> string" where
  "split_sign (c # s) = (if c = CHR ''-'' then (True, s) else if c = CHR ''+'' then (False, s) else (False, c # s))"
| "split_sign [] = (False, [])"

definition apply_sign :: "bool \<Rightarrow> 'a \<Rightarrow> 'a :: uminus" where
  "apply_sign neg x = (if neg then - x else x)"

text \<open>\<open>int(s)\<close>, with the limit of 4300 digits.\<close>

definition int_of_text :: "string \<Rightarrow> int res" where
  "int_of_text s =
     (case split_sign (py_strip s) of (neg, body) \<Rightarrow>
        if \<not> digit_groups body then Inl (ValueError ''invalid literal for int() with base 10'')
        else if 4300 < length (drop_underscores body)
        then Inl (ValueError ''Exceeds the limit (4300 digits) for integer string conversion'')
        else Inr (apply_sign neg (int (nat_of_str (drop_underscores body)))))"

text \<open>The nearest double of a rational, subnormal numbers and infinities included.\<close>

definition double_of_rat :: "rat \<Rightarrow> pyfloat" where
  "double_of_rat x =
     (if \<bar>x\<bar> < 1 / 2 ^ 1022 then Fin (of_int (round_half_even (x * 2 ^ 1074)) / 2 ^ 1074)
      else if 2 ^ 1024 \<le> \<bar>f64 x\<bar> then (if x < 0 then NegInf else PosInf)
      else Fin (f64 x))"

text \<open>A decimal literal: digits, an optional fraction and an optional exponent.\<close>

definition optional_groups :: "string \<Rightarrow> bool" where
  "optional_groups s \<longleftrightarrow> s = [] \<or> digit_groups s"

definition mantissa :: "string \<Rightarrow> (nat \<times> nat) option" where
  "mantissa s =
     (case split_on (CHR ''.'') s of
        [i] \<Rightarrow> if digit_groups i then Some (nat_of_str (drop_underscores i), 0) else None
      | [i, f] \<Rightarrow>
          if optional_groups i \<and> optional_groups f \<and> (i \<noteq> [] \<or> f \<noteq> [])
          then Some (nat_of_str (drop_underscores i @ drop_underscores f), length (drop_underscores f)) else None
      | _ \<Rightarrow> None)"

definition exponent :: "string \<Rightarrow> int option" where
  "exponent s =
     (case split_sign s of (neg, body) \<Rightarrow>
        if digit_groups body then Some (apply_sign neg (int (nat_of_str (drop_underscores body)))) else None)"

definition decimal_value :: "string \<Rightarrow> rat option" where
  "decimal_value s =
     (case split_on (CHR ''e'') s of
        [m] \<Rightarrow> (case mantissa m of Some (n, d) \<Rightarrow> Some (of_nat n / 10 ^ d) | None \<Rightarrow> None)
      | [m, e] \<Rightarrow>
          (case (mantissa m, exponent e) of
             (Some (n, d), Some x) \<Rightarrow> Some (of_nat n / 10 ^ d * 10 powi x)
           | _ \<Rightarrow> None)
      | _ \<Rightarrow> None)"

text \<open>\<open>float(s)\<close>.\<close>

definition float_of_text :: "string \<Rightarrow> pyfloat res" where
  "float_of_text s =
     (case split_sign (py_lower (py_strip s)) of (neg, body) \<Rightarrow>
        if body = ''inf'' \<or> body = ''infinity'' then Inr (if neg then NegInf else PosInf)
        else if body = ''nan'' then Inr NaN
        else case decimal_value body of
               Some x \<Rightarrow> Inr (double_of_rat (apply_sign neg x))
             | None \<Rightarrow> Inl (ValueError ''could not convert string to float''))"

section \<open>Conversions of values\<close>

definition trunc_rat :: "rat \<Rightarrow> int" where
  "trunc_rat x = (if x < 0 then \<lceil>x\<rceil> else \<lfloor>x\<rfloor>)"

fun py_int :: "json \<Rightarrow> int res" where
  "py_int (JInt i) = Inr i"
| "py_int (JBool b) = Inr (if b then 1 else 0)"
| "py_int (JFloat x) =
     (case x of
        Fin r \<Rightarrow> Inr (trunc_rat r)
      | NaN \<Rightarrow> Inl (ValueError ''cannot convert float NaN to integer'')
      | _ \<Rightarrow> Inl OverflowError)"
| "py_int (JStr s) = int_of_text s"
| "py_int v = Inl (TypeError (''int() argument must be a string, a bytes-like object or a real number, not '' @ py_type v))"

fun py_float :: "json \<Rightarrow> pyfloat res" where
  "py_float (JInt i) = rbind (float_of_int i) (\<lambda>x. Inr (Fin x))"
| "py_float (JBool b) = Inr (Fin (if b then 1 else 0))"
| "py_float (JFloat x) = Inr x"
| "py_float (JStr s) = float_of_text s"
| "py_float v = Inl (TypeError (''float() argument must be a string or a real number, not '' @ py_type v))"

section \<open>Lines\<close>

text \<open>\<open>s.splitlines()\<close>: a carriage return and a line feed end a line together; a final line ending begins no line.\<close>

definition line_end :: "char \<Rightarrow> bool" where
  "line_end c = (let n = of_char c :: nat in (10 \<le> n \<and> n \<le> 13) \<or> (28 \<le> n \<and> n \<le> 30) \<or> n = 133)"

fun split_lines :: "string \<Rightarrow> string \<Rightarrow> string list" where
  "split_lines acc [] = (if acc = [] then [] else [rev acc])"
| "split_lines acc (c # s) =
     (if c = CHR 0x0D \<and> s \<noteq> [] \<and> hd s = CHR 0x0A then rev acc # split_lines [] (tl s)
      else if line_end c then rev acc # split_lines [] s
      else split_lines (c # acc) s)"

definition splitlines :: "string \<Rightarrow> string list" where
  "splitlines s = split_lines [] s"

section \<open>Facts\<close>

lemma as_dict_eq_Inr [simp]: "as_dict v = Inr d \<longleftrightarrow> v = JObj d"
  by (cases v) (auto simp: as_dict_def)

lemma as_dict_JObj [simp]: "as_dict (JObj d) = Inr d"
  by simp

lemma in_strings_True: "in_strings v names = Inr True \<longleftrightarrow> (\<exists>s. v = JStr s \<and> s \<in> set names)"
  by (cases v) (auto simp: in_strings_def)

lemma in_strings_JStr [simp]: "in_strings (JStr s) names = Inr (s \<in> set names)"
  by (simp add: in_strings_def)

lemma case_JBool_Inr:
  "(case v of JBool b \<Rightarrow> f b | _ \<Rightarrow> Inl e) = Inr r \<longleftrightarrow> (\<exists>b. v = JBool b \<and> f b = Inr r)"
  by (cases v) auto

lemma case_JList_Inr:
  "(case v of JList vs \<Rightarrow> f vs | _ \<Rightarrow> Inl e) = Inr r \<longleftrightarrow> (\<exists>vs. v = JList vs \<and> f vs = Inr r)"
  by (cases v) auto

lemma case_JObj_Inr:
  "(case v of JObj d \<Rightarrow> f d | _ \<Rightarrow> Inl e) = Inr r \<longleftrightarrow> (\<exists>d. v = JObj d \<and> f d = Inr r)"
  by (cases v) auto

lemma case_JStr_Inr:
  "(case v of JStr s \<Rightarrow> f s | _ \<Rightarrow> Inl e) = Inr r \<longleftrightarrow> (\<exists>s. v = JStr s \<and> f s = Inr r)"
  by (cases v) auto

lemmas case_json_Inr = case_JStr_Inr case_JBool_Inr case_JList_Inr case_JObj_Inr

end
