(* ===== verification/Validators.thy ===== *)
theory Validators
  imports PyConv
begin

text \<open>
  The validators of \<open>worker/src/agentstorm_worker/adapters/openai_compatible.py\<close>, which the loader of
  the configuration shares with the adapter. \<open>urllib.parse.urlsplit\<close> is the argument \<open>urlsplit\<close>: the
  parts of a URL, or the ValueError it raises.
\<close>

section \<open>URL, model and limits\<close>

record url_parts =
  up_scheme :: string
  up_netloc :: string
  up_path :: string
  up_query :: string
  up_fragment :: string
  up_hostname :: "string option"
  up_username :: "string option"
  up_password :: "string option"

definition MAX_URL_LENGTH :: nat where "MAX_URL_LENGTH = 2048"
definition MAX_MODEL_LENGTH :: nat where "MAX_MODEL_LENGTH = 256"
definition MAX_OUTPUT_TOKENS :: int where "MAX_OUTPUT_TOKENS = 131072"
definition MAX_HTTP_RETRY_ATTEMPTS :: int where "MAX_HTTP_RETRY_ATTEMPTS = 16"
definition MAX_HTTP_RETRY_WAIT_SECONDS :: int where "MAX_HTTP_RETRY_WAIT_SECONDS = 300"

text \<open>\<open>not part\<close> for an optional part of a URL.\<close>

definition absent :: "string option \<Rightarrow> bool" where
  "absent p \<longleftrightarrow> p = None \<or> p = Some []"

definition validate_base_url :: "(string \<Rightarrow> url_parts res) \<Rightarrow> string \<Rightarrow> unit res" where
  "validate_base_url urlsplit base_url =
     raise_if (base_url = [] \<or> base_url \<noteq> py_strip base_url \<or> MAX_URL_LENGTH < length base_url \<or>
               list_ex (\<lambda>c. c \<in> {CHR 0x0D, CHR 0x0A, CHR 0x09}) base_url)
       (ValueError ''target.baseURL must be an absolute http or https URL without credentials'')
     (rbind (urlsplit base_url) (\<lambda>parsed.
      raise_if ((up_scheme parsed \<noteq> ''http'' \<and> up_scheme parsed \<noteq> ''https'') \<or> absent (up_hostname parsed))
        (ValueError ''target.baseURL must be an absolute http or https URL without credentials'')
      (raise_if (\<not> absent (up_username parsed) \<or> \<not> absent (up_password parsed))
        (ValueError ''target.baseURL must not contain credentials'')
      (raise_if (up_query parsed \<noteq> [] \<or> up_fragment parsed \<noteq> [])
        (ValueError ''target.baseURL must not contain a query or fragment'')
      (raise_if (endswith (rstrip_char (CHR ''/'') (up_path parsed)) ''/chat/completions'')
        (ValueError ''target.baseURL must be the API root, not the chat completions path'')
      (Inr ()))))))"

definition validate_pinned_model :: "string \<Rightarrow> unit res" where
  "validate_pinned_model model =
     raise_if (model = [] \<or> model \<noteq> py_strip model \<or> MAX_MODEL_LENGTH < utf8_len model \<or> list_ex py_isspace model)
       (ValueError ''target.model must be a pinned model id without whitespace'') (Inr ())"

definition validate_max_output_tokens :: "json \<Rightarrow> int res" where
  "validate_max_output_tokens value =
     (case value of
        JInt n \<Rightarrow>
          raise_if (\<not> (1 \<le> n \<and> n \<le> MAX_OUTPUT_TOKENS)) (ValueError ''target.maxTokens must be between 1 and 131072'') (Inr n)
      | _ \<Rightarrow> Inl (ValueError ''target.maxTokens must be an integer''))"

definition validate_http_retry_attempts :: "json \<Rightarrow> int res" where
  "validate_http_retry_attempts value =
     (case value of
        JInt n \<Rightarrow>
          raise_if (\<not> (1 \<le> n \<and> n \<le> MAX_HTTP_RETRY_ATTEMPTS))
            (ValueError ''target.httpRetryAttempts must be between 1 and 16'') (Inr n)
      | _ \<Rightarrow> Inl (ValueError ''target.httpRetryAttempts must be an integer''))"

definition validate_http_retry_max_wait_seconds :: "json \<Rightarrow> int res" where
  "validate_http_retry_max_wait_seconds value =
     (case value of
        JInt n \<Rightarrow>
          raise_if (\<not> (1 \<le> n \<and> n \<le> MAX_HTTP_RETRY_WAIT_SECONDS))
            (ValueError ''target.httpRetryMaxWaitSeconds must be between 1 and 300'') (Inr n)
      | _ \<Rightarrow> Inl (ValueError ''target.httpRetryMaxWaitSeconds must be an integer''))"

text \<open>The keyword arguments are the two limits, each present only when it is configured.\<close>

record http_retry_kwargs =
  hk_max_http_attempts :: "int option"
  hk_retry_max_backoff_seconds :: "rat option"

definition http_retry_adapter_kwargs :: "int option \<Rightarrow> int option \<Rightarrow> http_retry_kwargs res" where
  "http_retry_adapter_kwargs attempts max_wait_seconds =
     rbind (case attempts of
              None \<Rightarrow> Inr None
            | Some n \<Rightarrow> rbind (validate_http_retry_attempts (JInt n)) (\<lambda>n. Inr (Some n))) (\<lambda>tries.
     rbind (case max_wait_seconds of
              None \<Rightarrow> Inr None
            | Some n \<Rightarrow> rbind (validate_http_retry_max_wait_seconds (JInt n)) (\<lambda>n.
                rbind (float_of_int n) (\<lambda>x. Inr (Some x)))) (\<lambda>wait.
     Inr \<lparr>hk_max_http_attempts = tries, hk_retry_max_backoff_seconds = wait\<rparr>))"

section \<open>Request fields\<close>

definition RESERVED_REQUEST_FIELDS :: "string list" where
  "RESERVED_REQUEST_FIELDS = [''model'', ''messages'', ''stream'', ''tools'', ''tool_choice'']"

definition MAX_REQUEST_FIELDS :: nat where "MAX_REQUEST_FIELDS = 16"
definition MAX_REQUEST_FIELD_BYTES :: nat where "MAX_REQUEST_FIELD_BYTES = 1024"
definition MAX_REQUEST_FIELD_DEPTH :: nat where "MAX_REQUEST_FIELD_DEPTH = 6"

definition ident_start :: "char \<Rightarrow> bool" where
  "ident_start c \<longleftrightarrow> is_ascii_upper c \<or> is_ascii_lower c \<or> c = CHR ''_''"

definition ident_char :: "char \<Rightarrow> bool" where
  "ident_char c \<longleftrightarrow> ident_start c \<or> py_isdigit c"

definition request_field_key :: "string \<Rightarrow> bool" where
  "request_field_key k \<longleftrightarrow> k \<noteq> [] \<and> ident_start (hd k) \<and> list_all ident_char (tl k) \<and> length k \<le> 64"

fun json_value :: "nat \<Rightarrow> json \<Rightarrow> unit res" where
  "json_value depth (JFloat x) =
     raise_if (MAX_REQUEST_FIELD_DEPTH < depth) (ValueError ''target.requestFields is nested too deeply'')
     (case x of Fin _ \<Rightarrow> Inr () | _ \<Rightarrow> Inl (ValueError ''target.requestFields values must be JSON values''))"
| "json_value depth (JList vs) =
     raise_if (MAX_REQUEST_FIELD_DEPTH < depth) (ValueError ''target.requestFields is nested too deeply'')
     (rbind (rmap_list (json_value (Suc depth)) vs) (\<lambda>_. Inr ()))"
| "json_value depth (JObj d) =
     raise_if (MAX_REQUEST_FIELD_DEPTH < depth) (ValueError ''target.requestFields is nested too deeply'')
     (rbind (rmap_list (\<lambda>(k, v). json_value (Suc depth) v) d) (\<lambda>_. Inr ()))"
| "json_value depth (JOpaque t) =
     raise_if (MAX_REQUEST_FIELD_DEPTH < depth) (ValueError ''target.requestFields is nested too deeply'')
     (Inl (ValueError ''target.requestFields values must be JSON values''))"
| "json_value depth v =
     raise_if (MAX_REQUEST_FIELD_DEPTH < depth) (ValueError ''target.requestFields is nested too deeply'') (Inr ())"

text \<open>One entry of the dictionary; \<open>frep\<close> is the text of a float.\<close>

definition request_field :: "(rat \<Rightarrow> string) \<Rightarrow> string list \<Rightarrow> string \<times> json \<Rightarrow> (string \<times> json) res" where
  "request_field frep blocked = (\<lambda>(key, value).
     raise_if (\<not> request_field_key key) (ValueError ''target.requestFields keys must be identifiers'')
     (raise_if (key \<in> set blocked) (ValueError (''request field '' @ key @ '' is reserved''))
     (rbind (json_value 0 value) (\<lambda>_.
      rbind (json_dumps frep value) (\<lambda>encoded.
      raise_if (MAX_REQUEST_FIELD_BYTES < utf8_len encoded)
        (ValueError ''target.requestFields values must be at most 1024 bytes'')
      (Inr (key, value)))))))"

definition validate_request_fields :: "(rat \<Rightarrow> string) \<Rightarrow> string list \<Rightarrow> json \<Rightarrow> json dict res" where
  "validate_request_fields frep reject_keys fs =
     (case fs of
        JNull \<Rightarrow> Inr []
      | JObj d \<Rightarrow>
          raise_if (MAX_REQUEST_FIELDS < length d) (ValueError ''target.requestFields must contain at most 16 entries'')
          (rmap_list (request_field frep (RESERVED_REQUEST_FIELDS @ reject_keys)) d)
      | _ \<Rightarrow> Inl (ValueError ''target.requestFields must be an object''))"

section \<open>Provider codes and delays\<close>

definition code_char :: "char \<Rightarrow> bool" where
  "code_char c \<longleftrightarrow> is_ascii_upper c \<or> is_ascii_lower c \<or> py_isdigit c \<or> c \<in> {CHR ''_'', CHR ''.'', CHR ''-''}"

definition provider_code :: "string \<Rightarrow> bool" where
  "provider_code s \<longleftrightarrow> 1 \<le> length s \<and> length s \<le> 32 \<and> list_all code_char s"

definition allowlisted_provider_code :: "json option \<Rightarrow> string \<Rightarrow> string" where
  "allowlisted_provider_code body secret =
     (case body of
        Some (JObj d) \<Rightarrow>
          (case obj_get d ''error'' of
             JObj error \<Rightarrow>
               (let text = (case obj_get error ''code'' of
                              JInt i \<Rightarrow> Some (str_of_int i)
                            | JStr s \<Rightarrow> Some s
                            | _ \<Rightarrow> None)
                in case text of
                     None \<Rightarrow> []
                   | Some t \<Rightarrow>
                       if \<not> provider_code t then []
                       else if secret \<noteq> [] \<and> (t = secret \<or> (8 \<le> length secret \<and> str_in secret t)) then []
                       else t)
           | _ \<Rightarrow> [])
      | _ \<Rightarrow> [])"

definition allowlisted_token :: "json \<Rightarrow> string" where
  "allowlisted_token value =
     (let text = (case value of JInt i \<Rightarrow> str_of_int i | JStr s \<Rightarrow> s | _ \<Rightarrow> [])
      in if provider_code text then text else [])"

text \<open>
  The header, when there is one, is a text. \<open>parse_date\<close> stands for \<open>parsedate_to_datetime\<close> and the
  clock: the seconds from now to the moment the text names, if it names one.
\<close>

definition retry_after_seconds :: "(string \<Rightarrow> rat option) \<Rightarrow> string option \<Rightarrow> rat option" where
  "retry_after_seconds parse_date header =
     (case header of
        None \<Rightarrow> None
      | Some raw \<Rightarrow>
          (let text = py_strip raw
           in if text = [] then None
              else case float_of_text text of
                     Inr (Fin delta) \<Rightarrow> Some (max 0 delta)
                   | _ \<Rightarrow> map_option (max 0) (parse_date text)))"

text \<open>\<open>min(a, b)\<close> on floats, and a float times a power of two.\<close>

definition fl_min :: "pyfloat \<Rightarrow> pyfloat \<Rightarrow> pyfloat" where
  "fl_min a b = (if fl_lt b a then b else a)"

fun fl_scale :: "pyfloat \<Rightarrow> nat \<Rightarrow> pyfloat" where
  "fl_scale (Fin x) n = double_of_rat (x * 2 ^ n)"
| "fl_scale x n = x"

definition retry_delay_seconds :: "nat \<Rightarrow> rat option \<Rightarrow> pyfloat \<Rightarrow> pyfloat \<Rightarrow> pyfloat" where
  "retry_delay_seconds failed_attempts retry_after initial maximum =
     (let fallback = fl_min maximum (fl_scale initial (failed_attempts - 1))
      in case retry_after of
           None \<Rightarrow> fallback
         | Some s \<Rightarrow> fl_min maximum (Fin (max 0 s)))"

definition chat_completions_url :: "string \<Rightarrow> string" where
  "chat_completions_url base_url = rstrip_char (CHR ''/'') base_url @ ''/chat/completions''"

section \<open>What validated values satisfy\<close>

definition base_url_ok :: "(string \<Rightarrow> url_parts res) \<Rightarrow> string \<Rightarrow> bool" where
  "base_url_ok urlsplit u \<longleftrightarrow>
     u \<noteq> [] \<and> length u \<le> 2048 \<and>
     (\<exists>p. urlsplit u = Inr p \<and> up_scheme p \<in> {''http'', ''https''} \<and> \<not> absent (up_hostname p) \<and>
        absent (up_username p) \<and> absent (up_password p) \<and> up_query p = [] \<and> up_fragment p = [])"

lemma validate_base_url_ok: "validate_base_url urlsplit u = Inr () \<Longrightarrow> base_url_ok urlsplit u"
  by (auto simp: validate_base_url_def base_url_ok_def MAX_URL_LENGTH_def split: if_splits)

definition model_ok :: "string \<Rightarrow> bool" where
  "model_ok m \<longleftrightarrow> m \<noteq> [] \<and> utf8_len m \<le> 256 \<and> list_all (\<lambda>c. \<not> py_isspace c) m"

lemma validate_pinned_model_ok: "validate_pinned_model m = Inr () \<Longrightarrow> model_ok m"
  by (auto simp: validate_pinned_model_def model_ok_def MAX_MODEL_LENGTH_def list_all_iff list_ex_iff split: if_splits)

lemma validate_max_output_tokens_Inr:
  "validate_max_output_tokens v = Inr n \<longleftrightarrow> v = JInt n \<and> 1 \<le> n \<and> n \<le> 131072"
  by (auto simp: validate_max_output_tokens_def MAX_OUTPUT_TOKENS_def split: json.splits if_splits)

lemma validate_http_retry_attempts_Inr:
  "validate_http_retry_attempts v = Inr n \<longleftrightarrow> v = JInt n \<and> 1 \<le> n \<and> n \<le> 16"
  by (auto simp: validate_http_retry_attempts_def MAX_HTTP_RETRY_ATTEMPTS_def split: json.splits if_splits)

lemma validate_http_retry_max_wait_seconds_Inr:
  "validate_http_retry_max_wait_seconds v = Inr n \<longleftrightarrow> v = JInt n \<and> 1 \<le> n \<and> n \<le> 300"
  by (auto simp: validate_http_retry_max_wait_seconds_def MAX_HTTP_RETRY_WAIT_SECONDS_def split: json.splits if_splits)

definition request_fields_ok :: "string list \<Rightarrow> json dict \<Rightarrow> bool" where
  "request_fields_ok blocked d \<longleftrightarrow>
     length d \<le> 16 \<and> (\<forall>k \<in> set (dict_keys d). request_field_key k \<and> k \<notin> set blocked) \<and>
     (\<forall>v \<in> snd ` set d. \<not> has_nonfinite v)"

end
