(* ===== verification/Config.thy ===== *)
theory Config
  imports Config_Types Validators
begin

text \<open>
  The loader of \<open>worker/src/agentstorm_worker/config.py\<close>: from a parsed document to the data classes of
  theory \<open>Config_Types\<close>, with every check and every exception in the order of the source. Reading the file
  is outside; \<open>json.loads\<close>, \<open>re.compile\<close>, \<open>urlsplit\<close> and \<open>repr\<close> are fields of the environment.
\<close>

record config_env =
  ce_loads :: "string \<Rightarrow> string + json"
  ce_compiles :: "string \<Rightarrow> bool"
  ce_urlsplit :: "string \<Rightarrow> url_parts res"
  ce_repr :: "json \<Rightarrow> string"
  ce_frep :: "rat \<Rightarrow> string"

section \<open>Checked values\<close>

fun str_less :: "string \<Rightarrow> string \<Rightarrow> bool" where
  "str_less [] t = (t \<noteq> [])"
| "str_less (c # s) [] = False"
| "str_less (c # s) (d # t) = ((of_char c :: nat) < of_char d \<or> c = d \<and> str_less s t)"

text \<open>\<open>sorted(names)[0]\<close>.\<close>

definition least_str :: "string list \<Rightarrow> string" where
  "least_str ss = foldl (\<lambda>m s. if str_less s m then s else m) (hd ss) (tl ss)"

definition only_keys :: "config_env \<Rightarrow> json dict \<Rightarrow> string list \<Rightarrow> string \<Rightarrow> unit res" where
  "only_keys env d allowed path =
     (let unknown = filter (\<lambda>k. k \<notin> set allowed) (dict_keys d)
      in raise_if (unknown \<noteq> [])
           (ValueError (path @ '' contains unknown field '' @ ce_repr env (JStr (least_str unknown)))) (Inr ()))"

definition strict_int :: "json \<Rightarrow> string \<Rightarrow> int res" where
  "strict_int value path = (case value of JInt i \<Rightarrow> Inr i | _ \<Rightarrow> Inl (ValueError (path @ '' must be an integer'')))"

definition strict_number :: "json \<Rightarrow> string \<Rightarrow> pyfloat res" where
  "strict_number value path =
     (case value of
        JInt _ \<Rightarrow> py_float value
      | JFloat _ \<Rightarrow> py_float value
      | _ \<Rightarrow> Inl (ValueError (path @ '' must be a number'')))"

text \<open>\<open>if not 0 <= x <= 1: raise ...\<close>; what passes is a finite float.\<close>

definition unit_interval :: "pyfloat \<Rightarrow> string \<Rightarrow> rat res" where
  "unit_interval x message =
     (case x of
        Fin r \<Rightarrow> raise_if (\<not> (0 \<le> r \<and> r \<le> 1)) (ValueError message) (Inr r)
      | _ \<Rightarrow> Inl (ValueError message))"

definition nonempty_string :: "json \<Rightarrow> string \<Rightarrow> nat \<Rightarrow> string res" where
  "nonempty_string value path max_bytes =
     (let message = path @ '' must be a non-empty string of at most '' @ str_of_nat max_bytes @ '' bytes''
      in case value of
           JStr s \<Rightarrow> raise_if (py_strip s = [] \<or> max_bytes < utf8_len s) (ValueError message) (Inr s)
         | _ \<Rightarrow> Inl (ValueError message))"

definition string_selector :: "json \<Rightarrow> string \<Rightarrow> string list res" where
  "string_selector value path =
     (case value of
        JList vs \<Rightarrow>
          rbind (rmap_list (\<lambda>item. nonempty_string item path 512) vs) (\<lambda>parsed.
          raise_if (\<not> distinct parsed) (ValueError (path @ '' must not contain duplicates'')) (Inr parsed))
      | _ \<Rightarrow> Inl (ValueError (path @ '' must be an array'')))"

definition integer_selector :: "json \<Rightarrow> string \<Rightarrow> int \<Rightarrow> int list res" where
  "integer_selector value path minimum =
     (case value of
        JList vs \<Rightarrow>
          rbind (rmap_list (\<lambda>item. strict_int item path) vs) (\<lambda>parsed.
          raise_if (list_ex (\<lambda>i. i < minimum) parsed)
            (ValueError (path @ '' values must be at least '' @ str_of_int minimum))
          (raise_if (\<not> distinct parsed) (ValueError (path @ '' must not contain duplicates'')) (Inr parsed)))
      | _ \<Rightarrow> Inl (ValueError (path @ '' must be an array'')))"

section \<open>Reliability\<close>

definition retry_of_json :: "config_env \<Rightarrow> json \<Rightarrow> retry_config res" where
  "retry_of_json env value =
     (case value of
        JObj d \<Rightarrow>
          rbind (only_keys env d
              [''maxAttempts'', ''initialBackoffMs'', ''maxBackoffMs'', ''maxCumulativeBackoffMs'', ''jitterRatio'',
               ''allowAmbiguousRetries''] ''reliability.retry'') (\<lambda>_.
          rbind (strict_int (obj_get_default d ''maxAttempts'' (JInt 1)) ''maxAttempts'') (\<lambda>max_attempts.
          rbind (strict_int (obj_get_default d ''initialBackoffMs'' (JInt 100)) ''initialBackoffMs'') (\<lambda>initial.
          rbind (strict_int (obj_get_default d ''maxBackoffMs'' (JInt 2000)) ''maxBackoffMs'') (\<lambda>maximum.
          rbind (strict_int (obj_get_default d ''maxCumulativeBackoffMs'' (JInt 5000)) ''maxCumulativeBackoffMs'') (\<lambda>cumulative.
          rbind (strict_number (obj_get_default d ''jitterRatio'' (JFloat (Fin (f64 (2 / 10))))) ''jitterRatio'') (\<lambda>jitter.
          (case obj_get_default d ''allowAmbiguousRetries'' (JBool False) of
             JBool ambiguous \<Rightarrow>
               raise_if (\<not> (1 \<le> max_attempts \<and> max_attempts \<le> 10))
                 (ValueError ''reliability.retry.maxAttempts must be between 1 and 10'')
               (raise_if (min (min initial maximum) cumulative < 1)
                 (ValueError ''reliability retry backoff values must be positive'')
               (raise_if (maximum < initial)
                 (ValueError ''reliability.retry.initialBackoffMs cannot exceed maxBackoffMs'')
               (rbind (unit_interval jitter ''reliability.retry.jitterRatio must be between 0 and 1'') (\<lambda>ratio.
                Inr \<lparr>rt_max_attempts = max_attempts, rt_initial_backoff_ms = initial, rt_max_backoff_ms = maximum,
                     rt_max_cumulative_backoff_ms = cumulative, rt_jitter_ratio = ratio,
                     rt_allow_ambiguous_retries = ambiguous\<rparr>))))
           | _ \<Rightarrow> Inl (ValueError ''reliability.retry.allowAmbiguousRetries must be a boolean''))))))))
      | _ \<Rightarrow> Inl (ValueError ''reliability.retry must be an object''))"

text \<open>\<open>set(value) != {...}\<close> after \<open>_only_keys\<close>.\<close>

definition has_keys :: "json dict \<Rightarrow> string list \<Rightarrow> bool" where
  "has_keys d ks = (set (dict_keys d) = set ks)"

definition circuit_breaker_of_json :: "config_env \<Rightarrow> json \<Rightarrow> circuit_breaker_config option res" where
  "circuit_breaker_of_json env value =
     (case value of
        JNull \<Rightarrow> Inr None
      | JObj d \<Rightarrow>
          rbind (only_keys env d [''failureThreshold'', ''openDurationMs''] ''reliability.circuitBreaker'') (\<lambda>_.
          raise_if (\<not> has_keys d [''failureThreshold'', ''openDurationMs''])
            (ValueError ''reliability.circuitBreaker requires failureThreshold and openDurationMs'')
          (rbind (strict_int (obj_get d ''failureThreshold'') ''failureThreshold'') (\<lambda>threshold.
           rbind (strict_int (obj_get d ''openDurationMs'') ''openDurationMs'') (\<lambda>duration.
           raise_if (threshold < 1 \<or> duration < 1) (ValueError ''reliability.circuitBreaker values must be positive'')
           (Inr (Some \<lparr>cb_failure_threshold = threshold, cb_open_duration_ms = duration\<rparr>))))))
      | _ \<Rightarrow> Inl (ValueError ''reliability.circuitBreaker must be an object''))"

definition FAULTS :: "string list" where
  "FAULTS = [''latency'', ''timeout'', ''http_error'', ''malformed_response'', ''rate_limit'', ''tool_error'']"

text \<open>
  The fields that depend on the fault. A tool name that is not a text passes only when it is falsy; only
  whether it is empty is read afterwards, and the model keeps the empty text.
\<close>

definition tool_text :: "json \<Rightarrow> string" where
  "tool_text v = (case v of JStr s \<Rightarrow> s | _ \<Rightarrow> [])"

definition fault_fields :: "string \<Rightarrow> string \<Rightarrow> json \<Rightarrow> json \<Rightarrow> json \<Rightarrow> (int option \<times> int option) res" where
  "fault_fields path fault delay_ms status_code tool_name =
     (if fault = ''latency'' \<or> fault = ''timeout'' then
        rbind (strict_int delay_ms (path @ ''.delayMs'')) (\<lambda>delay.
        raise_if (delay < 0) (ValueError (path @ ''.delayMs must be non-negative''))
        (raise_if (status_code \<noteq> JNull \<or> py_truthy tool_name)
          (ValueError (path @ '' has fields that do not apply to '' @ fault)) (Inr (Some delay, None))))
      else if fault = ''http_error'' then
        rbind (strict_int status_code (path @ ''.statusCode'')) (\<lambda>status.
        raise_if (\<not> (400 \<le> status \<and> status \<le> 599) \<or> delay_ms \<noteq> JNull \<or> py_truthy tool_name)
          (ValueError (path @ ''.statusCode must be between 400 and 599'')) (Inr (None, Some status)))
      else if fault = ''tool_error'' then
        raise_if (case tool_name of JStr s \<Rightarrow> 512 < utf8_len s | _ \<Rightarrow> True)
          (ValueError (path @ ''.toolName must be a string of at most 512 bytes''))
        (raise_if (delay_ms \<noteq> JNull \<or> status_code \<noteq> JNull)
          (ValueError (path @ '' has fields that do not apply to tool_error'')) (Inr (None, None)))
      else
        raise_if (delay_ms \<noteq> JNull \<or> status_code \<noteq> JNull \<or> py_truthy tool_name)
          (ValueError (path @ '' has fields that do not apply to '' @ fault)) (Inr (None, None)))"

definition fault_rule_of_json :: "config_env \<Rightarrow> nat \<times> json \<Rightarrow> fault_rule_config res" where
  "fault_rule_of_json env = (\<lambda>(index, value).
     let path = ''FaultScenario.rules['' @ str_of_nat index @ '']''
     in case value of
          JObj d \<Rightarrow>
            rbind (only_keys env d [''name'', ''fault'', ''probability'', ''caseIDs'', ''iterations'', ''attempts'', ''delayMs'',
                ''statusCode'', ''toolName''] path) (\<lambda>_.
            rbind (nonempty_string (obj_get d ''name'') (path @ ''.name'') 128) (\<lambda>name.
            rbind (in_strings (obj_get d ''fault'') FAULTS) (\<lambda>known.
            raise_if (\<not> known) (ValueError (path @ ''.fault is unsupported''))
            (rbind (strict_number (obj_get d ''probability'') (path @ ''.probability'')) (\<lambda>p.
             rbind (unit_interval p (path @ ''.probability must be between 0 and 1'')) (\<lambda>probability.
             rbind (string_selector (obj_get_default d ''caseIDs'' (JList [])) (path @ ''.caseIDs'')) (\<lambda>case_ids.
             rbind (integer_selector (obj_get_default d ''iterations'' (JList [])) (path @ ''.iterations'') 0) (\<lambda>iterations.
             rbind (integer_selector (obj_get_default d ''attempts'' (JList [JInt 1])) (path @ ''.attempts'') 1) (\<lambda>attempts.
             raise_if (list_ex (\<lambda>a. 10 < a) attempts) (ValueError (path @ ''.attempts must be between 1 and 10''))
             (let fault = tool_text (obj_get d ''fault''); tool_name = obj_get_default d ''toolName'' (JStr [])
              in rbind (fault_fields path fault (obj_get d ''delayMs'') (obj_get d ''statusCode'') tool_name) (\<lambda>(delay_ms, status_code).
                 Inr \<lparr>fr_name = name, fr_fault = fault, fr_probability = probability, fr_case_ids = case_ids,
                      fr_iterations = iterations, fr_attempts = attempts, fr_delay_ms = delay_ms,
                      fr_status_code = status_code, fr_tool_name = tool_text tool_name\<rparr>)))))))))))
        | _ \<Rightarrow> Inl (ValueError (path @ '' must be an object'')))"

definition hex_lower :: "char \<Rightarrow> bool" where
  "hex_lower c \<longleftrightarrow> py_isdigit c \<or> c \<in> set ''abcdef''"

definition sha_digest_text :: "string \<Rightarrow> bool" where
  "sha_digest_text s \<longleftrightarrow> startswith s ''sha256:'' \<and> length s = 71 \<and> list_all hex_lower (drop 7 s)"

definition scenario_snapshot_of_json :: "config_env \<Rightarrow> json \<Rightarrow> fault_scenario_config option res" where
  "scenario_snapshot_of_json env value =
     (case value of
        JNull \<Rightarrow> Inr None
      | JObj d \<Rightarrow>
          rbind (only_keys env d [''sourceName'', ''sourceKey'', ''digest'', ''scenario''] ''reliability.scenario'') (\<lambda>_.
          raise_if (\<not> has_keys d [''sourceName'', ''sourceKey'', ''digest'', ''scenario''])
            (ValueError ''reliability.scenario snapshot is incomplete'')
          (rbind (nonempty_string (obj_get d ''sourceName'') ''sourceName'' 253) (\<lambda>source_name.
           rbind (nonempty_string (obj_get d ''sourceKey'') ''sourceKey'' 253) (\<lambda>source_key.
           rbind (nonempty_string (obj_get d ''digest'') ''digest'' 71) (\<lambda>digest.
           raise_if (\<not> sha_digest_text digest) (ValueError ''reliability.scenario.digest must be a sha256 digest'')
           (case obj_get d ''scenario'' of
              JObj sc \<Rightarrow>
                rbind (only_keys env sc [''apiVersion'', ''kind'', ''rules''] ''FaultScenario'') (\<lambda>_.
                raise_if (obj_get sc ''apiVersion'' \<noteq> JStr ''agentstorm.io/v1alpha1'' \<or> obj_get sc ''kind'' \<noteq> JStr ''FaultScenario'')
                  (ValueError ''FaultScenario apiVersion or kind is invalid'')
                (case obj_get sc ''rules'' of
                   JList raw_rules \<Rightarrow>
                     raise_if (100 < length raw_rules) (ValueError ''FaultScenario.rules must be an array of at most 100 entries'')
                     (rbind (rmap_list (fault_rule_of_json env) (enum_from 0 raw_rules)) (\<lambda>rules.
                      raise_if (\<not> distinct (map fr_name rules)) (ValueError ''FaultScenario rule names must be unique'')
                      (Inr (Some \<lparr>fs_source_name = source_name, fs_source_key = source_key, fs_digest = digest,
                                 fs_rules = rules\<rparr>))))
                 | _ \<Rightarrow> Inl (ValueError ''FaultScenario.rules must be an array of at most 100 entries'')))
            | _ \<Rightarrow> Inl (ValueError ''reliability.scenario.scenario must be an object'')))))))
      | _ \<Rightarrow> Inl (ValueError ''reliability.scenario must be an object''))"

definition seed_of_json :: "json \<Rightarrow> int option res" where
  "seed_of_json v =
     (case v of
        JNull \<Rightarrow> Inr None
      | JInt i \<Rightarrow> raise_if (i < 0) (ValueError ''reliability.seed must be a non-negative integer'') (Inr (Some i))
      | _ \<Rightarrow> Inl (ValueError ''reliability.seed must be a non-negative integer''))"

definition reliability_of_json :: "config_env \<Rightarrow> json \<Rightarrow> reliability_config option res" where
  "reliability_of_json env value =
     (case value of
        JNull \<Rightarrow> Inr None
      | JObj d \<Rightarrow>
          rbind (only_keys env d [''seed'', ''retry'', ''circuitBreaker'', ''scenario''] ''reliability'') (\<lambda>_.
          rbind (seed_of_json (obj_get d ''seed'')) (\<lambda>seed.
          rbind (retry_of_json env (obj_get_default d ''retry'' (JObj []))) (\<lambda>retry.
          rbind (circuit_breaker_of_json env (obj_get d ''circuitBreaker'')) (\<lambda>breaker.
          rbind (scenario_snapshot_of_json env (obj_get d ''scenario'')) (\<lambda>scenario.
          raise_if (scenario \<noteq> None \<and> seed = None)
            (ValueError ''reliability.seed is required when a scenario is configured'')
          (Inr (Some \<lparr>rl_seed = seed, rl_retry = retry, rl_circuit_breaker = breaker, rl_scenario = scenario\<rparr>)))))))
      | _ \<Rightarrow> Inl (ValueError ''reliability must be an object''))"

section \<open>Target\<close>

definition pricing_of_json :: "json \<Rightarrow> pricing_config option res" where
  "pricing_of_json value =
     (case value of
        JNull \<Rightarrow> Inr None
      | JObj d \<Rightarrow>
          (let price = (\<lambda>key. case obj_get d key of JStr s \<Rightarrow> if price_pattern s then Some s else None | _ \<Rightarrow> None)
           in case price ''inputUSDPerMillionTokens'' of
                None \<Rightarrow> Inl (ValueError ''target.pricing.inputUSDPerMillionTokens must be a non-negative decimal'')
              | Some input_price \<Rightarrow>
                  (case price ''outputUSDPerMillionTokens'' of
                     None \<Rightarrow> Inl (ValueError ''target.pricing.outputUSDPerMillionTokens must be a non-negative decimal'')
                   | Some output_price \<Rightarrow>
                       Inr (Some \<lparr>pr_input_usd_per_million_tokens = input_price,
                                 pr_output_usd_per_million_tokens = output_price\<rparr>)))
      | _ \<Rightarrow> Inl (ValueError ''target.pricing must be an object''))"

text \<open>A limit that may stand under two names; a null value is present.\<close>

definition limit_of_json :: "(json \<Rightarrow> int res) \<Rightarrow> json dict \<Rightarrow> string \<Rightarrow> string \<Rightarrow> int option res" where
  "limit_of_json validate target k1 k2 =
     (case dict_get target k1 of
        Some v \<Rightarrow> rbind (validate v) (\<lambda>n. Inr (Some n))
      | None \<Rightarrow>
          (case dict_get target k2 of
             Some v \<Rightarrow> rbind (validate v) (\<lambda>n. Inr (Some n))
           | None \<Rightarrow> Inr None))"

definition max_output_tokens_of_json :: "json dict \<Rightarrow> int option res" where
  "max_output_tokens_of_json target = limit_of_json validate_max_output_tokens target ''maxTokens'' ''max_output_tokens''"

definition http_retry_attempts_of_json :: "json dict \<Rightarrow> int option res" where
  "http_retry_attempts_of_json target =
     limit_of_json validate_http_retry_attempts target ''httpRetryAttempts'' ''http_retry_attempts''"

definition http_retry_max_wait_seconds_of_json :: "json dict \<Rightarrow> int option res" where
  "http_retry_max_wait_seconds_of_json target =
     limit_of_json validate_http_retry_max_wait_seconds target ''httpRetryMaxWaitSeconds'' ''http_retry_max_wait_seconds''"

definition request_fields_of_json :: "config_env \<Rightarrow> json dict \<Rightarrow> json dict res" where
  "request_fields_of_json env target =
     validate_request_fields (ce_frep env) [''temperature'', ''max_tokens'']
       (obj_get_default target ''requestFields'' (obj_get target ''request_fields''))"

text \<open>\<open>str(value or default)\<close>.\<close>

definition text_or :: "config_env \<Rightarrow> json \<Rightarrow> string \<Rightarrow> string" where
  "text_or env v fallback = py_str (ce_repr env) (py_or v (JStr fallback))"

definition target_of_json :: "config_env \<Rightarrow> json \<Rightarrow> target_config res" where
  "target_of_json env value =
     rbind (as_dict value) (\<lambda>target.
     rbind (pricing_of_json (obj_get target ''pricing'')) (\<lambda>pricing.
     rbind (max_output_tokens_of_json target) (\<lambda>max_tokens.
     rbind (request_fields_of_json env target) (\<lambda>request_fields.
     rbind (http_retry_attempts_of_json target) (\<lambda>attempts.
     rbind (http_retry_max_wait_seconds_of_json target) (\<lambda>max_wait.
     Inr \<lparr>tg_provider = text_or env (obj_get target ''provider'') ''fake'',
          tg_model = text_or env (obj_get target ''model'') [],
          tg_base_url = text_or env (py_or (obj_get target ''baseURL'') (obj_get target ''base_url'')) [],
          tg_adapter_entrypoint =
            text_or env (py_or (obj_get target ''adapterEntrypoint'') (obj_get target ''adapter_entrypoint'')) [],
          tg_pricing = pricing, tg_max_output_tokens = max_tokens, tg_request_fields = request_fields,
          tg_http_retry_attempts = attempts, tg_http_retry_max_wait_seconds = max_wait\<rparr>))))))"

section \<open>Telemetry\<close>

definition redaction_pattern :: "config_env \<Rightarrow> nat \<times> json \<Rightarrow> string res" where
  "redaction_pattern env = (\<lambda>(index, pattern).
     let place = ''telemetry.redaction.patterns['' @ str_of_nat index @ '']''
     in case pattern of
          JStr s \<Rightarrow>
            raise_if (256 < utf8_len s) (ValueError (place @ '' must be a string of at most 256 bytes''))
            (raise_if (\<not> ce_compiles env s) (ValueError (place @ '' is invalid'')) (Inr s))
        | _ \<Rightarrow> Inl (ValueError (place @ '' must be a string of at most 256 bytes'')))"

text \<open>A list of non-empty texts, or None.\<close>

fun texts :: "json list \<Rightarrow> string list option" where
  "texts [] = Some []"
| "texts (v # vs) =
     (case (v, texts vs) of (JStr s, Some ss) \<Rightarrow> if s \<noteq> [] then Some (s # ss) else None | _ \<Rightarrow> None)"

definition texts_of :: "json \<Rightarrow> string list option" where
  "texts_of v = (case v of JList vs \<Rightarrow> texts vs | _ \<Rightarrow> None)"

definition telemetry_of_json :: "config_env \<Rightarrow> json \<Rightarrow> telemetry_config res" where
  "telemetry_of_json env value =
     (case (if value = JNull then JObj [] else value) of
        JObj d \<Rightarrow>
          (let content_mode = obj_get_default d ''contentMode'' (obj_get_default d ''content_mode'' (JStr ''omit''))
           in rbind (in_strings content_mode [''omit'', ''redacted'']) (\<lambda>known.
              raise_if (\<not> known) (ValueError ''telemetry.contentMode must be omit or redacted'')
              (case (case obj_get_default d ''redaction'' (JObj []) of JNull \<Rightarrow> JObj [] | v \<Rightarrow> v) of
                 JObj redaction \<Rightarrow>
                   (case obj_get_default redaction ''patterns'' (JList []) of
                      JList patterns \<Rightarrow>
                        raise_if (20 < length patterns)
                          (ValueError ''telemetry.redaction.patterns must be an array of at most 20 entries'')
                        (rbind (rmap_list (redaction_pattern env) (enum_from 0 patterns)) (\<lambda>parsed.
                         case texts_of (obj_get_default redaction ''metadataKeys''
                                         (obj_get_default redaction ''metadata_keys'' (JList []))) of
                           None \<Rightarrow> Inl (ValueError ''telemetry.redaction.metadataKeys must be an array of non-empty strings'')
                         | Some metadata_keys \<Rightarrow>
                             Inr \<lparr>tl_content_mode = tool_text content_mode,
                                  tl_redaction = \<lparr>td_patterns = parsed, td_metadata_keys = metadata_keys\<rparr>\<rparr>))
                    | _ \<Rightarrow> Inl (ValueError ''telemetry.redaction.patterns must be an array of at most 20 entries''))
               | _ \<Rightarrow> Inl (ValueError ''telemetry.redaction must be an object''))))
      | _ \<Rightarrow> Inl (ValueError ''telemetry must be an object''))"

section \<open>The run document\<close>

text \<open>
  \<open>key in data and data[key] is not None\<close>, and then \<open>data[key]\<close>. On a list the test compares items and on
  a text it looks for a part; there a key that is found cannot be read.
\<close>

definition present :: "json \<Rightarrow> string \<Rightarrow> json option res" where
  "present data key =
     (case data of
        JObj d \<Rightarrow> Inr (if obj_get d key \<noteq> JNull then Some (obj_get d key) else None)
      | JList vs \<Rightarrow> raise_if (JStr key \<in> set vs) (TypeError ''list indices must be integers or slices, not str'') (Inr None)
      | JStr s \<Rightarrow> raise_if (str_in key s) (TypeError ''string indices must be integers'') (Inr None)
      | _ \<Rightarrow> Inl (TypeError (''argument of type '' @ quoted (py_type data) @ '' is not iterable'')))"

definition first_present :: "json \<Rightarrow> string \<Rightarrow> string \<Rightarrow> json option res" where
  "first_present data k1 k2 =
     rbind (present data k1) (\<lambda>v. case v of Some _ \<Rightarrow> Inr v | None \<Rightarrow> present data k2)"

definition optional_float :: "json \<Rightarrow> string \<Rightarrow> string \<Rightarrow> pyfloat option res" where
  "optional_float data k1 k2 =
     rbind (first_present data k1 k2) (\<lambda>v.
       case v of None \<Rightarrow> Inr None | Some v \<Rightarrow> rbind (py_float v) (\<lambda>x. Inr (Some x)))"

definition optional_int :: "json \<Rightarrow> string \<Rightarrow> string \<Rightarrow> int option res" where
  "optional_int data k1 k2 =
     rbind (first_present data k1 k2) (\<lambda>v.
       case v of None \<Rightarrow> Inr None | Some v \<Rightarrow> rbind (py_int v) (\<lambda>x. Inr (Some x)))"

definition evaluation_of_json :: "json \<Rightarrow> evaluation_config res" where
  "evaluation_of_json evaluation =
     rbind (optional_float evaluation ''minSuccessRate'' ''min_success_rate'') (\<lambda>min_success_rate.
     rbind (optional_float evaluation ''maxErrorRate'' ''max_error_rate'') (\<lambda>max_error_rate.
     rbind (optional_int evaluation ''maxP95LatencyMs'' ''max_p95_latency_ms'') (\<lambda>max_p95_latency_ms.
     Inr \<lparr>ev_min_success_rate = min_success_rate, ev_max_error_rate = max_error_rate,
          ev_max_p95_latency_ms = max_p95_latency_ms\<rparr>)))"

text \<open>\<open>int(value or default)\<close>.\<close>

definition int_or :: "json dict \<Rightarrow> string \<Rightarrow> int \<Rightarrow> int res" where
  "int_or d key fallback = py_int (py_or (obj_get d key) (JInt fallback))"

definition workload_of_json :: "json \<Rightarrow> workload_config res" where
  "workload_of_json value =
     rbind (as_dict value) (\<lambda>workload.
     rbind (int_or workload ''concurrency'' 1) (\<lambda>concurrency.
     rbind (int_or workload ''iterations'' 1) (\<lambda>iterations.
     rbind (int_or workload ''timeout_seconds'' 900) (\<lambda>timeout_seconds.
     Inr \<lparr>wl_concurrency = concurrency, wl_iterations = iterations, wl_timeout_seconds = timeout_seconds\<rparr>))))"

text \<open>\<open>[A-Za-z_][A-Za-z0-9_]*(\.[A-Za-z_][A-Za-z0-9_]*)*:[A-Za-z_][A-Za-z0-9_]*\<close>, matched against the whole text.\<close>

definition is_identifier :: "string \<Rightarrow> bool" where
  "is_identifier s \<longleftrightarrow> s \<noteq> [] \<and> ident_start (hd s) \<and> list_all ident_char (tl s)"

definition entrypoint_pattern :: "string \<Rightarrow> bool" where
  "entrypoint_pattern s =
     (case split_on (CHR '':'') s of
        [m, f] \<Rightarrow> list_all is_identifier (split_on (CHR ''.'') m) \<and> is_identifier f
      | _ \<Rightarrow> False)"

definition check_run_config :: "config_env \<Rightarrow> run_config \<Rightarrow> run_config res" where
  "check_run_config env config =
     (let target = rc_target config; workload = rc_workload config
      in rbind (if tg_provider target = ''openai-compatible'' then
                  rbind (validate_pinned_model (tg_model target)) (\<lambda>_.
                  raise_if (tg_base_url target = []) (ValueError ''target.baseURL is required for provider openai-compatible'')
                  (validate_base_url (ce_urlsplit env) (tg_base_url target)))
                else Inr ()) (\<lambda>_.
         raise_if (tg_provider target = ''openai-agents'' \<and> py_strip (tg_model target) = [])
           (ValueError ''target.model is required for provider openai-agents'')
         (raise_if (wl_concurrency workload < 1 \<or> wl_iterations workload < 1)
           (ValueError ''workload concurrency and iterations must be positive'')
         (raise_if (wl_timeout_seconds workload < 1) (ValueError ''workload timeout_seconds must be positive'')
         (raise_if (tg_adapter_entrypoint target \<noteq> [] \<and>
                    (256 < utf8_len (tg_adapter_entrypoint target) \<or> \<not> entrypoint_pattern (tg_adapter_entrypoint target)))
           (ValueError ''target.adapterEntrypoint must be a module:function reference'')
         (Inr config))))))"

definition load_run_config :: "config_env \<Rightarrow> json \<Rightarrow> run_config res" where
  "load_run_config env document =
     rbind (as_dict document) (\<lambda>raw.
      let run_id = text_or env (obj_get raw ''run_id'') ''local-run''
      in rbind (as_dict (obj_get_default raw ''source'' (JObj []))) (\<lambda>source.
         rbind (as_dict (obj_get_default raw ''dataset'' (JObj []))) (\<lambda>dataset.
         rbind (target_of_json env (obj_get_default raw ''target'' (JObj []))) (\<lambda>target.
         rbind (workload_of_json (obj_get_default raw ''workload'' (JObj []))) (\<lambda>workload.
         rbind (evaluation_of_json (obj_get_default raw ''evaluation'' (JObj []))) (\<lambda>evaluation.
         rbind (telemetry_of_json env (obj_get_default raw ''telemetry'' (JObj []))) (\<lambda>telemetry.
         rbind (reliability_of_json env (obj_get raw ''reliability'')) (\<lambda>reliability.
         check_run_config env
           \<lparr>rc_run_id = run_id,
            rc_source = \<lparr>so_namespace = text_or env (obj_get source ''namespace'') ''local'',
                         so_name = text_or env (obj_get source ''name'') run_id\<rparr>,
            rc_dataset = \<lparr>ds_name = text_or env (obj_get dataset ''name'') ''local-dataset'',
                          ds_key = text_or env (obj_get dataset ''key'') ''cases.jsonl''\<rparr>,
            rc_target = target, rc_workload = workload, rc_evaluation = evaluation, rc_telemetry = telemetry,
            rc_reliability = reliability\<rparr>))))))))"

section \<open>The dataset\<close>

definition ASSERTION_TYPES :: "string list" where
  "ASSERTION_TYPES = [''exact'', ''contains'', ''regex'', ''json_schema'', ''tool_path'', ''latency'', ''python'']"

definition allowed_fields :: "string \<Rightarrow> string list" where
  "allowed_fields t =
     (if t = ''exact'' \<or> t = ''contains'' then [''type'', ''value'']
      else if t = ''regex'' then [''type'', ''pattern'']
      else if t = ''json_schema'' then [''type'', ''schema'']
      else if t = ''tool_path'' then [''type'', ''path'']
      else if t = ''latency'' then [''type'', ''max_ms'']
      else [''type'', ''entrypoint'', ''config''])"

text \<open>\<open>max_ms <= 0\<close> for a number; NaN is not.\<close>

fun not_positive :: "json \<Rightarrow> bool" where
  "not_positive (JInt i) = (i \<le> 0)"
| "not_positive (JFloat x) = fl_le x (Fin 0)"
| "not_positive _ = True"

definition assertion_spec_of_json :: "json dict \<Rightarrow> string \<Rightarrow> nat \<Rightarrow> nat \<Rightarrow> assertion_spec res" where
  "assertion_spec_of_json raw t line_number index =
     (let location = ''dataset line '' @ str_of_nat line_number @ '' assertions['' @ str_of_nat index @ '']''
      in if t = ''exact'' \<or> t = ''contains'' then
           (case obj_get raw ''value'' of
              JStr s \<Rightarrow> Inr ((AssertionSpec t)\<lparr>as_value := Some s\<rparr>)
            | _ \<Rightarrow> Inl (ValueError (location @ '' value must be a string'')))
         else if t = ''regex'' then
           (case obj_get raw ''pattern'' of
              JStr s \<Rightarrow> Inr ((AssertionSpec t)\<lparr>as_pattern := Some s\<rparr>)
            | _ \<Rightarrow> Inl (ValueError (location @ '' pattern must be a string'')))
         else if t = ''json_schema'' then
           (case obj_get raw ''schema'' of
              JObj d \<Rightarrow> Inr ((AssertionSpec t)\<lparr>as_schema := Some (JObj d)\<rparr>)
            | JBool b \<Rightarrow> Inr ((AssertionSpec t)\<lparr>as_schema := Some (JBool b)\<rparr>)
            | _ \<Rightarrow> Inl (ValueError (location @ '' schema must be an object or boolean'')))
         else if t = ''tool_path'' then
           (case texts_of (obj_get raw ''path'') of
              Some path \<Rightarrow> Inr ((AssertionSpec t)\<lparr>as_path := path\<rparr>)
            | None \<Rightarrow> Inl (ValueError (location @ '' path must be an array of non-empty strings'')))
         else if t = ''latency'' then
           raise_if (not_positive (obj_get raw ''max_ms'')) (ValueError (location @ '' max_ms must be positive''))
           (rbind (py_float (obj_get raw ''max_ms'')) (\<lambda>x. Inr ((AssertionSpec t)\<lparr>as_max_ms := Some x\<rparr>)))
         else
           (case obj_get raw ''entrypoint'' of
              JStr e \<Rightarrow>
                (case split_on (CHR '':'') e of
                   [m, f] \<Rightarrow>
                     raise_if (m = [] \<or> f = []) (ValueError (location @ '' entrypoint must use module:function''))
                     (case obj_get_default raw ''config'' (JObj []) of
                        JObj c \<Rightarrow> Inr ((AssertionSpec t)\<lparr>as_entrypoint := Some e, as_config := c\<rparr>)
                      | _ \<Rightarrow> Inl (ValueError (location @ '' config must be an object'')))
                 | _ \<Rightarrow> Inl (ValueError (location @ '' entrypoint must use module:function'')))
            | _ \<Rightarrow> Inl (ValueError (location @ '' entrypoint must use module:function''))))"

definition assertion_of_json :: "nat \<Rightarrow> nat \<times> json \<Rightarrow> assertion_spec res" where
  "assertion_of_json line_number = (\<lambda>(index, value).
     let place = ''dataset line '' @ str_of_nat line_number @ '' assertions['' @ str_of_nat index @ '']''
     in case value of
          JObj raw \<Rightarrow>
            rbind (in_strings (obj_get raw ''type'') ASSERTION_TYPES) (\<lambda>known.
            raise_if (\<not> known) (ValueError (place @ '' has unsupported type''))
            (let t = tool_text (obj_get raw ''type'')
             in raise_if (list_ex (\<lambda>k. k \<notin> set (allowed_fields t)) (dict_keys raw)) (ValueError (place @ '' has unknown fields''))
                (assertion_spec_of_json raw t line_number index)))
        | _ \<Rightarrow> Inl (ValueError (place @ '' must be an object'')))"

definition assertions_of_json :: "nat \<Rightarrow> json \<Rightarrow> assertion_spec list res" where
  "assertions_of_json line_number value =
     (case value of
        JNull \<Rightarrow> Inr []
      | JList vs \<Rightarrow> rmap_list (assertion_of_json line_number) (enum_from 0 vs)
      | _ \<Rightarrow> Inl (ValueError (''dataset line '' @ str_of_nat line_number @ '' assertions must be an array'')))"

definition optional_string :: "json \<Rightarrow> string option" where
  "optional_string v = (case v of JStr s \<Rightarrow> if s \<noteq> [] then Some s else None | _ \<Rightarrow> None)"

definition metadata_of_json :: "json dict \<Rightarrow> json dict" where
  "metadata_of_json raw = (case obj_get raw ''metadata'' of JObj d \<Rightarrow> d | _ \<Rightarrow> [])"

text \<open>One line that is not blank, with the ids seen before it.\<close>

definition case_of_line :: "config_env \<Rightarrow> string list \<Rightarrow> nat \<Rightarrow> string \<Rightarrow> test_case res" where
  "case_of_line env case_ids line_number line =
     (case ce_loads env line of
        Inl e \<Rightarrow> Inl (ValueError (''invalid JSONL at line '' @ str_of_nat line_number @ '': '' @ e))
      | Inr document \<Rightarrow>
          rbind (as_dict document) (\<lambda>raw.
          case obj_get raw ''input'' of
            JStr prompt \<Rightarrow>
              raise_if (py_strip prompt = [])
                (ValueError (''dataset line '' @ str_of_nat line_number @ '' requires a non-empty string input''))
              (let case_id = text_or env (obj_get raw ''id'') (''case-'' @ str_of_nat line_number)
               in raise_if (case_id \<in> set case_ids)
                    (ValueError (''duplicate dataset case id '' @ ce_repr env (JStr case_id) @ '' at line '' @ str_of_nat line_number))
                  (rbind (assertions_of_json line_number (obj_get raw ''assertions'')) (\<lambda>assertions.
                   Inr \<lparr>tc_case_id = case_id, tc_prompt = prompt,
                        tc_expected_contains = optional_string (obj_get raw ''expected_contains''),
                        tc_assertions = assertions, tc_metadata = metadata_of_json raw\<rparr>)))
          | _ \<Rightarrow> Inl (ValueError (''dataset line '' @ str_of_nat line_number @ '' requires a non-empty string input''))))"

fun cases_of_lines :: "config_env \<Rightarrow> string list \<Rightarrow> (nat \<times> string) list \<Rightarrow> test_case list res" where
  "cases_of_lines env case_ids [] = Inr []"
| "cases_of_lines env case_ids ((n, line) # lines) =
     (if py_strip line = [] then cases_of_lines env case_ids lines
      else rbind (case_of_line env case_ids n line) (\<lambda>c.
           rbind (cases_of_lines env (tc_case_id c # case_ids) lines) (\<lambda>cs. Inr (c # cs))))"

definition load_dataset :: "config_env \<Rightarrow> string \<Rightarrow> test_case list res" where
  "load_dataset env text =
     rbind (cases_of_lines env [] (enum_from 1 (splitlines text))) (\<lambda>cases.
     raise_if (cases = []) (ValueError ''dataset contains no cases'') (Inr cases))"

section \<open>What accepted values satisfy\<close>

lemma only_keys_Inr [simp]: "only_keys env d allowed path = Inr u \<longleftrightarrow> set (dict_keys d) \<subseteq> set allowed"
  by (auto simp: only_keys_def Let_def filter_empty_conv)

lemma strict_int_Inr [simp]: "strict_int v path = Inr i \<longleftrightarrow> v = JInt i"
  by (auto simp: strict_int_def split: json.splits)

lemma unit_interval_Inr [simp]: "unit_interval x m = Inr r \<longleftrightarrow> x = Fin r \<and> 0 \<le> r \<and> r \<le> 1"
  by (auto simp: unit_interval_def split: pyfloat.splits)

lemma nonempty_string_Inr [simp]:
  "nonempty_string v path n = Inr s \<longleftrightarrow> v = JStr s \<and> py_strip s \<noteq> [] \<and> utf8_len s \<le> n"
  by (auto simp: nonempty_string_def Let_def split: json.splits)

lemma rmap_list_strict_int: "rmap_list (\<lambda>item. strict_int item path) vs = Inr is \<longleftrightarrow> vs = map JInt is"
proof (induction vs arbitrary: "is")
  case (Cons v vs)
  then show ?case by (cases "is") auto
qed auto

lemma rmap_list_nonempty_string:
  "rmap_list (\<lambda>item. nonempty_string item path n) vs = Inr ss \<longleftrightarrow>
     vs = map JStr ss \<and> (\<forall>s \<in> set ss. py_strip s \<noteq> [] \<and> utf8_len s \<le> n)"
proof (induction vs arbitrary: ss)
  case (Cons v vs)
  then show ?case by (cases ss) auto
qed auto

lemma string_selector_Inr [simp]:
  "string_selector v path = Inr ss \<longleftrightarrow>
     v = JList (map JStr ss) \<and> (\<forall>s \<in> set ss. py_strip s \<noteq> [] \<and> utf8_len s \<le> 512) \<and> distinct ss"
  by (cases v) (auto simp: string_selector_def rmap_list_nonempty_string)

lemma integer_selector_Inr [simp]:
  "integer_selector v path n = Inr is \<longleftrightarrow> v = JList (map JInt is) \<and> (\<forall>i \<in> set is. n \<le> i) \<and> distinct is"
  by (cases v) (auto simp: integer_selector_def rmap_list_strict_int list_ex_iff)

text \<open>A rule has the fields of its fault and no others.\<close>

definition fault_shape :: "fault_rule_config \<Rightarrow> bool" where
  "fault_shape r \<longleftrightarrow>
     (if fr_fault r = ''latency'' \<or> fr_fault r = ''timeout'' then
        (\<exists>d \<ge> 0. fr_delay_ms r = Some d) \<and> fr_status_code r = None \<and> fr_tool_name r = []
      else if fr_fault r = ''http_error'' then
        fr_delay_ms r = None \<and> (\<exists>s. fr_status_code r = Some s \<and> 400 \<le> s \<and> s \<le> 599) \<and> fr_tool_name r = []
      else
        fr_delay_ms r = None \<and> fr_status_code r = None \<and>
        (if fr_fault r = ''tool_error'' then utf8_len (fr_tool_name r) \<le> 512 else fr_tool_name r = []))"

definition rule_ok :: "fault_rule_config \<Rightarrow> bool" where
  "rule_ok r \<longleftrightarrow>
     py_strip (fr_name r) \<noteq> [] \<and> utf8_len (fr_name r) \<le> 128 \<and> fr_fault r \<in> set FAULTS \<and>
     0 \<le> fr_probability r \<and> fr_probability r \<le> 1 \<and>
     (\<forall>s \<in> set (fr_case_ids r). py_strip s \<noteq> [] \<and> utf8_len s \<le> 512) \<and> distinct (fr_case_ids r) \<and>
     (\<forall>i \<in> set (fr_iterations r). 0 \<le> i) \<and> distinct (fr_iterations r) \<and>
     (\<forall>a \<in> set (fr_attempts r). 1 \<le> a \<and> a \<le> 10) \<and> distinct (fr_attempts r) \<and> fault_shape r"

definition scenario_ok :: "fault_scenario_config \<Rightarrow> bool" where
  "scenario_ok sc \<longleftrightarrow>
     py_strip (fs_source_name sc) \<noteq> [] \<and> utf8_len (fs_source_name sc) \<le> 253 \<and>
     py_strip (fs_source_key sc) \<noteq> [] \<and> utf8_len (fs_source_key sc) \<le> 253 \<and>
     sha_digest_text (fs_digest sc) \<and> length (fs_rules sc) \<le> 100 \<and>
     (\<forall>r \<in> set (fs_rules sc). rule_ok r) \<and> distinct (map fr_name (fs_rules sc))"

definition reliability_ok :: "reliability_config \<Rightarrow> bool" where
  "reliability_ok rl \<longleftrightarrow>
     (\<forall>s. rl_seed rl = Some s \<longrightarrow> 0 \<le> s) \<and> retry_ok (rl_retry rl) \<and>
     (\<forall>c. rl_circuit_breaker rl = Some c \<longrightarrow> breaker_ok c) \<and>
     (\<forall>sc. rl_scenario rl = Some sc \<longrightarrow> rl_seed rl \<noteq> None \<and> scenario_ok sc)"

lemma tool_text_falsy: "\<not> py_truthy v \<Longrightarrow> tool_text v = []"
  by (cases v) (auto simp: tool_text_def)

lemma fault_fields_Inr:
  assumes "fault_fields path fault delay status tool = Inr (d, s)"
  shows "fault_shape \<lparr>fr_name = n, fr_fault = fault, fr_probability = p, fr_case_ids = cs, fr_iterations = is, fr_attempts = as,
    fr_delay_ms = d, fr_status_code = s, fr_tool_name = tool_text tool\<rparr>"
proof -
  consider (delay) "fault = ''latency'' \<or> fault = ''timeout''" | (http) "fault = ''http_error''" | (tool) "fault = ''tool_error''"
    | (other) "\<not> (fault = ''latency'' \<or> fault = ''timeout'')" "fault \<noteq> ''http_error''" "fault \<noteq> ''tool_error''" by blast
  then show ?thesis
  proof cases
    case delay
    then show ?thesis using assms tool_text_falsy by (simp add: fault_fields_def fault_shape_def not_less) blast
  next
    case http
    then show ?thesis using assms tool_text_falsy by (auto simp: fault_fields_def fault_shape_def)
  next
    case tool
    then show ?thesis using assms by (cases tool) (auto simp: fault_fields_def fault_shape_def tool_text_def)
  next
    case other
    then show ?thesis using assms tool_text_falsy by (simp add: fault_fields_def fault_shape_def)
  qed
qed

lemma fault_rule_ok:
  assumes "fault_rule_of_json env (i, v) = Inr r"
  shows "rule_ok r"
proof (cases v)
  case (JObj d)
  let ?path = "''FaultScenario.rules['' @ str_of_nat i @ '']''"
  from assms JObj obtain name probability case_ids iterations attempts delay status where
    "obj_get d ''name'' = JStr name" "py_strip name \<noteq> []" "utf8_len name \<le> 128"
    and f: "in_strings (obj_get d ''fault'') FAULTS = Inr True"
    and "0 \<le> probability" "probability \<le> 1"
    and "\<forall>s \<in> set case_ids. py_strip s \<noteq> [] \<and> utf8_len s \<le> 512" "distinct case_ids"
    and "\<forall>i \<in> set iterations. 0 \<le> i" "distinct iterations"
    and "\<forall>a \<in> set attempts. 1 \<le> a" "distinct attempts" "\<not> list_ex (\<lambda>a. 10 < a) attempts"
    and ff: "fault_fields ?path (tool_text (obj_get d ''fault'')) (obj_get d ''delayMs'') (obj_get d ''statusCode'')
      (obj_get_default d ''toolName'' (JStr [])) = Inr (delay, status)"
    and r: "r = \<lparr>fr_name = name, fr_fault = tool_text (obj_get d ''fault''), fr_probability = probability, fr_case_ids = case_ids,
      fr_iterations = iterations, fr_attempts = attempts, fr_delay_ms = delay, fr_status_code = status,
      fr_tool_name = tool_text (obj_get_default d ''toolName'' (JStr []))\<rparr>"
    by (clarsimp simp: fault_rule_of_json_def Let_def)
  moreover from f have "tool_text (obj_get d ''fault'') \<in> set FAULTS" by (auto simp: in_strings_True tool_text_def)
  ultimately show ?thesis
    using fault_fields_Inr [OF ff] by (auto simp: rule_ok_def list_ex_iff not_less)
qed (use assms in \<open>simp_all add: fault_rule_of_json_def Let_def\<close>)

lemma retry_of_json_ok:
  assumes "retry_of_json env v = Inr r"
  shows "retry_ok r"
  using assms
  by (auto simp: retry_of_json_def retry_ok_def case_json_Inr)

lemma circuit_breaker_of_json_ok:
  assumes "circuit_breaker_of_json env v = Inr (Some c)"
  shows "breaker_ok c"
  using assms by (cases v) (auto simp: circuit_breaker_of_json_def breaker_ok_def)

lemma rmap_rules_ok:
  assumes "rmap_list (fault_rule_of_json env) xs = Inr rules"
  shows "length rules = length xs" and "\<forall>r \<in> set rules. rule_ok r"
proof -
  show "length rules = length xs" using assms by (simp add: rmap_list_Inr)
  show "\<forall>r \<in> set rules. rule_ok r" using rmap_list_in_set [OF assms] fault_rule_ok by (metis surj_pair)
qed

lemma scenario_snapshot_of_json_ok:
  assumes "scenario_snapshot_of_json env v = Inr (Some sc)"
  shows "scenario_ok sc"
proof (cases v)
  case (JObj d)
  with assms obtain name key digest raw rules where
    "py_strip name \<noteq> []" "utf8_len name \<le> 253" "py_strip key \<noteq> []" "utf8_len key \<le> 253"
    and "sha_digest_text digest" "length raw \<le> 100" and rules: "rmap_list (fault_rule_of_json env) (enum_from 0 raw) = Inr rules"
    and "distinct (map fr_name rules)"
    and "sc = \<lparr>fs_source_name = name, fs_source_key = key, fs_digest = digest, fs_rules = rules\<rparr>"
    by (clarsimp simp: scenario_snapshot_of_json_def case_json_Inr not_less)
  with rmap_rules_ok [OF rules] show ?thesis by (simp add: scenario_ok_def enum_from_def)
qed (use assms in \<open>simp_all add: scenario_snapshot_of_json_def\<close>)

lemma reliability_of_json_ok:
  assumes "reliability_of_json env v = Inr (Some rl)"
  shows "reliability_ok rl"
proof (cases v)
  case (JObj d)
  with assms obtain seed r b sc where "seed_of_json (obj_get d ''seed'') = Inr seed"
    and r: "retry_of_json env (obj_get_default d ''retry'' (JObj [])) = Inr r"
    and b: "circuit_breaker_of_json env (obj_get d ''circuitBreaker'') = Inr b"
    and sc: "scenario_snapshot_of_json env (obj_get d ''scenario'') = Inr sc"
    and "sc \<noteq> None \<longrightarrow> seed \<noteq> None"
    and rl: "rl = \<lparr>rl_seed = seed, rl_retry = r, rl_circuit_breaker = b, rl_scenario = sc\<rparr>"
    by (clarsimp simp: reliability_of_json_def) auto
  moreover from this(1) have "\<forall>s. seed = Some s \<longrightarrow> 0 \<le> s" by (cases "obj_get d ''seed''") (auto simp: seed_of_json_def)
  ultimately show ?thesis
    using retry_of_json_ok circuit_breaker_of_json_ok scenario_snapshot_of_json_ok by (auto simp: reliability_ok_def)
qed (use assms in \<open>simp_all add: reliability_of_json_def\<close>)

section \<open>What an accepted run document satisfies\<close>

definition telemetry_ok :: "config_env \<Rightarrow> telemetry_config \<Rightarrow> bool" where
  "telemetry_ok env t \<longleftrightarrow>
     tl_content_mode t \<in> {''omit'', ''redacted''} \<and> length (td_patterns (tl_redaction t)) \<le> 20 \<and>
     (\<forall>p \<in> set (td_patterns (tl_redaction t)). ce_compiles env p \<and> utf8_len p \<le> 256) \<and>
     [] \<notin> set (td_metadata_keys (tl_redaction t))"

lemma redaction_pattern_Inr: "redaction_pattern env (i, v) = Inr s \<longleftrightarrow> v = JStr s \<and> utf8_len s \<le> 256 \<and> ce_compiles env s"
  by (cases v) (auto simp: redaction_pattern_def Let_def)

lemma texts_Some: "texts vs = Some ss \<Longrightarrow> vs = map JStr ss \<and> [] \<notin> set ss"
  by (induction vs arbitrary: ss) (auto split: json.splits option.splits if_splits)

lemma texts_of_Some: "texts_of v = Some ss \<Longrightarrow> v = JList (map JStr ss) \<and> [] \<notin> set ss"
  by (cases v) (auto simp: texts_of_def dest: texts_Some)

lemma telemetry_of_json_ok:
  assumes "telemetry_of_json env v = Inr t"
  shows "telemetry_ok env t"
proof -
  obtain d where d: "(if v = JNull then JObj [] else v) = JObj d"
    using assms by (cases v) (auto simp: telemetry_of_json_def)
  let ?mode = "obj_get_default d ''contentMode'' (obj_get_default d ''content_mode'' (JStr ''omit''))"
  from assms obtain redaction patterns parsed keys where
    mode: "in_strings ?mode [''omit'', ''redacted''] = Inr True"
    and "length patterns \<le> 20" and parsed: "rmap_list (redaction_pattern env) (enum_from 0 patterns) = Inr parsed"
    and keys: "texts_of (obj_get_default redaction ''metadataKeys'' (obj_get_default redaction ''metadata_keys'' (JList []))) = Some keys"
    and "t = \<lparr>tl_content_mode = tool_text ?mode, tl_redaction = \<lparr>td_patterns = parsed, td_metadata_keys = keys\<rparr>\<rparr>"
    by (auto simp: telemetry_of_json_def d Let_def case_json_Inr not_less split: option.splits)
  moreover have "length parsed = length patterns" using parsed by (simp add: rmap_list_Inr enum_from_def)
  moreover have "ce_compiles env p \<and> utf8_len p \<le> 256" if "p \<in> set parsed" for p
    using rmap_list_in_set [OF parsed that] redaction_pattern_Inr by fastforce
  ultimately show ?thesis
    using texts_of_Some [OF keys] by (auto simp: telemetry_ok_def in_strings_True tool_text_def)
qed

definition target_ok :: "config_env \<Rightarrow> target_config \<Rightarrow> bool" where
  "target_ok env t \<longleftrightarrow>
     (\<forall>p. tg_pricing t = Some p \<longrightarrow>
        price_pattern (pr_input_usd_per_million_tokens p) \<and> price_pattern (pr_output_usd_per_million_tokens p)) \<and>
     (\<forall>n. tg_max_output_tokens t = Some n \<longrightarrow> 1 \<le> n \<and> n \<le> 131072) \<and>
     (\<forall>n. tg_http_retry_attempts t = Some n \<longrightarrow> 1 \<le> n \<and> n \<le> 16) \<and>
     (\<forall>n. tg_http_retry_max_wait_seconds t = Some n \<longrightarrow> 1 \<le> n \<and> n \<le> 300) \<and>
     request_fields_ok (RESERVED_REQUEST_FIELDS @ [''temperature'', ''max_tokens'']) (tg_request_fields t)"

definition run_config_ok :: "config_env \<Rightarrow> run_config \<Rightarrow> bool" where
  "run_config_ok env c \<longleftrightarrow>
     1 \<le> wl_concurrency (rc_workload c) \<and> 1 \<le> wl_iterations (rc_workload c) \<and> 1 \<le> wl_timeout_seconds (rc_workload c) \<and>
     target_ok env (rc_target c) \<and> telemetry_ok env (rc_telemetry c) \<and>
     (\<forall>rl. rc_reliability c = Some rl \<longrightarrow> reliability_ok rl) \<and>
     (tg_provider (rc_target c) = ''openai-compatible'' \<longrightarrow>
        model_ok (tg_model (rc_target c)) \<and> base_url_ok (ce_urlsplit env) (tg_base_url (rc_target c))) \<and>
     (tg_provider (rc_target c) = ''openai-agents'' \<longrightarrow> py_strip (tg_model (rc_target c)) \<noteq> []) \<and>
     (tg_adapter_entrypoint (rc_target c) \<noteq> [] \<longrightarrow> entrypoint_pattern (tg_adapter_entrypoint (rc_target c)))"

lemma pricing_of_json_ok:
  "pricing_of_json v = Inr (Some p) \<Longrightarrow>
   price_pattern (pr_input_usd_per_million_tokens p) \<and> price_pattern (pr_output_usd_per_million_tokens p)"
  by (cases v) (auto simp: pricing_of_json_def Let_def split: json.splits if_splits)

lemma limit_of_json_Some:
  "limit_of_json validate d k1 k2 = Inr (Some n) \<Longrightarrow> \<exists>v. validate v = Inr n"
  by (auto simp: limit_of_json_def split: option.splits)

lemma json_value_finite: "json_value n v = Inr u \<Longrightarrow> \<not> has_nonfinite v"
proof (induction n v arbitrary: u rule: json_value.induct)
  case (2 depth vs)
  then show ?case by (auto simp: list_ex_iff dest!: rmap_list_defined)
next
  case (3 depth d)
  then show ?case by (force simp: list_ex_iff dest!: rmap_list_defined)
qed (auto split: pyfloat.splits)

lemma request_field_Inr:
  "request_field frep blocked (k, v) = Inr e \<Longrightarrow>
   e = (k, v) \<and> request_field_key k \<and> k \<notin> set blocked \<and> \<not> has_nonfinite v"
  by (auto simp: request_field_def dest: json_value_finite)

lemma request_fields_Inr:
  assumes "rmap_list (request_field frep blocked) d = Inr es"
  shows "es = d \<and> (\<forall>(k, v) \<in> set d. request_field_key k \<and> k \<notin> set blocked \<and> \<not> has_nonfinite v)"
  using assms
proof (induction d arbitrary: es)
  case (Cons e d)
  obtain k v where "e = (k, v)" by (cases e)
  with Cons show ?case by (auto dest: request_field_Inr)
qed simp

lemma validate_request_fields_ok:
  assumes "validate_request_fields frep reject v = Inr d"
  shows "request_fields_ok (RESERVED_REQUEST_FIELDS @ reject) d"
  using assms
  by (cases v)
    (auto simp: validate_request_fields_def request_fields_ok_def dict_keys_def MAX_REQUEST_FIELDS_def dest!: request_fields_Inr)

lemma target_of_json_ok:
  assumes "target_of_json env v = Inr t"
  shows "target_ok env t"
  using assms
  by (auto simp: target_of_json_def target_ok_def request_fields_of_json_def max_output_tokens_of_json_def
      http_retry_attempts_of_json_def http_retry_max_wait_seconds_of_json_def validate_max_output_tokens_Inr
      validate_http_retry_attempts_Inr validate_http_retry_max_wait_seconds_Inr
      dest: pricing_of_json_ok dest!: limit_of_json_Some validate_request_fields_ok)

lemma check_run_config_same: "check_run_config env c = Inr c' \<Longrightarrow> c' = c"
  by (auto simp: check_run_config_def Let_def)

lemma load_run_config_parts:
  assumes "load_run_config env v = Inr c"
  obtains raw where "target_of_json env (obj_get_default raw ''target'' (JObj [])) = Inr (rc_target c)"
    "telemetry_of_json env (obj_get_default raw ''telemetry'' (JObj [])) = Inr (rc_telemetry c)"
    "reliability_of_json env (obj_get raw ''reliability'') = Inr (rc_reliability c)"
    "check_run_config env c = Inr c"
proof -
  from assms obtain raw target telemetry reliability c' where
    parts: "target_of_json env (obj_get_default raw ''target'' (JObj [])) = Inr target"
    "telemetry_of_json env (obj_get_default raw ''telemetry'' (JObj [])) = Inr telemetry"
    "reliability_of_json env (obj_get raw ''reliability'') = Inr reliability"
    and c': "rc_target c' = target" "rc_telemetry c' = telemetry" "rc_reliability c' = reliability"
    and check': "check_run_config env c' = Inr c"
    by (clarsimp simp: load_run_config_def Let_def) (rule that; (assumption | rule refl)?; simp)
  show ?thesis
    using check_run_config_same [OF check'] check' c' parts by (intro that [of raw]) simp_all
qed

lemma load_run_config_ok:
  assumes "load_run_config env v = Inr c"
  shows "run_config_ok env c"
proof -
  obtain raw where parts: "target_of_json env (obj_get_default raw ''target'' (JObj [])) = Inr (rc_target c)"
    "telemetry_of_json env (obj_get_default raw ''telemetry'' (JObj [])) = Inr (rc_telemetry c)"
    "reliability_of_json env (obj_get raw ''reliability'') = Inr (rc_reliability c)"
    and check: "check_run_config env c = Inr c"
    using assms by (rule load_run_config_parts)
  from check have "1 \<le> wl_concurrency (rc_workload c) \<and> 1 \<le> wl_iterations (rc_workload c) \<and> 1 \<le> wl_timeout_seconds (rc_workload c)"
    and "tg_provider (rc_target c) = ''openai-agents'' \<longrightarrow> py_strip (tg_model (rc_target c)) \<noteq> []"
    and "tg_adapter_entrypoint (rc_target c) \<noteq> [] \<longrightarrow> entrypoint_pattern (tg_adapter_entrypoint (rc_target c))"
    by (auto simp: check_run_config_def Let_def not_less)
  moreover from check have "tg_provider (rc_target c) = ''openai-compatible'' \<longrightarrow>
      model_ok (tg_model (rc_target c)) \<and> base_url_ok (ce_urlsplit env) (tg_base_url (rc_target c))"
    by (auto simp: check_run_config_def Let_def dest: validate_pinned_model_ok validate_base_url_ok)
  ultimately show ?thesis
    using target_of_json_ok [OF parts(1)] telemetry_of_json_ok [OF parts(2)] reliability_of_json_ok [of env] parts(3)
    by (auto simp: run_config_ok_def)
qed

section \<open>What an accepted dataset satisfies\<close>

text \<open>An assertion has the field its type needs.\<close>

definition entrypoint_ok :: "string \<Rightarrow> bool" where
  "entrypoint_ok e \<longleftrightarrow> (\<exists>m f. split_on (CHR '':'') e = [m, f] \<and> m \<noteq> [] \<and> f \<noteq> [])"

definition spec_ok :: "assertion_spec \<Rightarrow> bool" where
  "spec_ok a \<longleftrightarrow>
     as_type a \<in> set ASSERTION_TYPES \<and>
     (if as_type a = ''exact'' \<or> as_type a = ''contains'' then as_value a \<noteq> None
      else if as_type a = ''regex'' then as_pattern a \<noteq> None
      else if as_type a = ''json_schema'' then as_schema a \<noteq> None
      else if as_type a = ''tool_path'' then [] \<notin> set (as_path a)
      else if as_type a = ''latency'' then as_max_ms a \<noteq> None
      else (\<exists>e. as_entrypoint a = Some e \<and> entrypoint_ok e))"

lemma as_type_AssertionSpec [simp]: "as_type (AssertionSpec t) = t"
  by (simp add: AssertionSpec_def)

lemma case_schema_Inr:
  "(case v of JObj d \<Rightarrow> f d | JBool b \<Rightarrow> g b | _ \<Rightarrow> Inl e) = Inr r \<longleftrightarrow>
   (\<exists>d. v = JObj d \<and> f d = Inr r) \<or> (\<exists>b. v = JBool b \<and> g b = Inr r)"
  by (cases v) auto

lemma case_two_Inr:
  "(case xs of [m, f] \<Rightarrow> g m f | _ \<Rightarrow> Inl e) = Inr r \<longleftrightarrow> (\<exists>m f. xs = [m, f] \<and> g m f = Inr r)"
  by (auto split: list.splits)

lemma assertion_spec_ok:
  assumes "assertion_spec_of_json raw t n i = Inr a" and "t \<in> set ASSERTION_TYPES"
  shows "spec_ok a"
proof -
  note defs = assertion_spec_of_json_def Let_def case_json_Inr case_schema_Inr case_two_Inr spec_ok_def
  show ?thesis
  proof (cases "t = ''exact'' \<or> t = ''contains''")
    case plain: False
    show ?thesis
    proof (cases "t \<in> {''regex'', ''json_schema'', ''tool_path'', ''latency''}")
      case True
      then show ?thesis
        using assms plain by (elim insertE) (auto simp: defs split: option.splits dest: texts_of_Some)
    next
      case False
      with assms plain show ?thesis by (auto simp: defs entrypoint_ok_def)
    qed
  qed (use assms in \<open>auto simp: defs\<close>)
qed

lemma assertion_of_json_ok:
  assumes "assertion_of_json n x = Inr a"
  shows "spec_ok a"
proof -
  obtain i v where x: "x = (i, v)" by (cases x)
  from assms obtain raw where "in_strings (obj_get raw ''type'') ASSERTION_TYPES = Inr True"
    and "assertion_spec_of_json raw (tool_text (obj_get raw ''type'')) n i = Inr a"
    by (auto simp: assertion_of_json_def x Let_def case_json_Inr)
  then show ?thesis by (intro assertion_spec_ok) (auto simp: in_strings_True tool_text_def)
qed

lemma assertions_of_json_ok:
  assumes "assertions_of_json n v = Inr as"
  shows "\<forall>a \<in> set as. spec_ok a"
  using assms
  by (cases v) (auto simp: assertions_of_json_def elim!: rmap_list_in_set intro: assertion_of_json_ok)

text \<open>A case that can be evaluated.\<close>

definition case_ok :: "test_case \<Rightarrow> bool" where
  "case_ok c \<longleftrightarrow> py_strip (tc_prompt c) \<noteq> [] \<and> (\<forall>a \<in> set (tc_assertions c). spec_ok a)"

lemma case_of_line_ok:
  assumes "case_of_line env ids n line = Inr c"
  shows "case_ok c \<and> tc_case_id c \<notin> set ids"
  using assms
  by (auto simp: case_of_line_def case_ok_def Let_def case_json_Inr split: sum.splits dest: assertions_of_json_ok)

lemma cases_of_lines_ok:
  assumes "cases_of_lines env ids lines = Inr cs"
  shows "distinct (map tc_case_id cs) \<and> set (map tc_case_id cs) \<inter> set ids = {} \<and> (\<forall>c \<in> set cs. case_ok c) \<and>
    length cs = length (filter (\<lambda>l. py_strip (snd l) \<noteq> []) lines)"
  using assms
proof (induction env ids lines arbitrary: cs rule: cases_of_lines.induct)
  case (2 env ids n line lines)
  show ?case
  proof (cases "py_strip line = []")
    case True
    with 2 show ?thesis by simp
  next
    case False
    with 2(3) obtain c cs' where c: "case_of_line env ids n line = Inr c"
      and cs': "cases_of_lines env (tc_case_id c # ids) lines = Inr cs'" and "cs = c # cs'" by auto
    with 2(2) [OF False c cs'] case_of_line_ok [OF c] False show ?thesis by auto
  qed
qed simp

lemma load_dataset_ok:
  assumes "load_dataset env text = Inr cs"
  shows "cs \<noteq> [] \<and> distinct (map tc_case_id cs) \<and> (\<forall>c \<in> set cs. case_ok c) \<and>
    length cs = length (filter (\<lambda>l. py_strip l \<noteq> []) (splitlines text))"
proof -
  let ?lines = "splitlines text"
  have snd: "map snd (enum_from 1 ?lines) = ?lines" by (simp add: enum_from_def del: upt_Suc)
  have "length (filter (\<lambda>l. py_strip (snd l) \<noteq> []) (enum_from 1 ?lines)) = length (filter (\<lambda>l. py_strip l \<noteq> []) ?lines)"
    using length_filter_map [of "\<lambda>l. py_strip l \<noteq> []" snd "enum_from 1 ?lines"] unfolding snd comp_def by (rule sym)
  with assms cases_of_lines_ok [of env "[]" "enum_from 1 ?lines"] show ?thesis
    by (auto simp: load_dataset_def)
qed

section \<open>A concrete document and dataset\<close>

text \<open>
  An environment that splits every URL into the parts of \<open>https://api\<close>, compiles every pattern and reads one
  line of a dataset and one claim of the queue.
\<close>

definition sample_url :: url_parts where
  "sample_url = \<lparr>up_scheme = ''https'', up_netloc = ''api'', up_path = [], up_query = [], up_fragment = [],
     up_hostname = Some ''api'', up_username = None, up_password = None\<rparr>"

definition sample_case_line :: json where
  "sample_case_line =
     JObj [(''id'', JStr ''a''), (''input'', JStr ''hi''), (''expected_contains'', JStr ''o''),
           (''assertions'', JList [JObj [(''type'', JStr ''exact''), (''value'', JStr ''ok'')],
              JObj [(''type'', JStr ''tool_path''), (''path'', JList [JStr ''t''])]])]"

definition sample_claim :: json where
  "sample_claim = JObj [(''shard_index'', JInt 0), (''lease_token'', JStr ''t''), (''renew_after_ms'', JInt 1000)]"

definition sample_env :: config_env where
  "sample_env = \<lparr>ce_loads = (\<lambda>s. if s = ''L'' then Inr sample_case_line else if s = ''C'' then Inr sample_claim else Inl ''bad''),
     ce_compiles = (\<lambda>_. True),
     ce_urlsplit = (\<lambda>_. Inr sample_url), ce_repr = (\<lambda>_. ''?''), ce_frep = (\<lambda>_. ''0.5'')\<rparr>"

definition sample_document :: json where
  "sample_document =
     JObj [(''target'', JObj [(''provider'', JStr ''openai-compatible''), (''model'', JStr ''m-1''), (''baseURL'', JStr ''https://api''),
              (''maxTokens'', JInt 512), (''requestFields'', JObj [(''seed'', JInt 7)])]),
           (''workload'', JObj [(''concurrency'', JInt 2), (''iterations'', JInt 2)]),
           (''reliability'', JObj [(''retry'', JObj [(''maxAttempts'', JInt 3), (''jitterRatio'', JFloat (Fin (1 / 2)))])])]"

definition sample_config :: run_config where
  "sample_config = projr (load_run_config sample_env sample_document)"

lemmas sample_document_simps =
  sample_document_def sample_env_def sample_url_def load_run_config_def target_of_json_def
  workload_of_json_def evaluation_of_json_def telemetry_of_json_def reliability_of_json_def
  check_run_config_def retry_of_json_def obj_get_def obj_get_default_def dict_get_def pricing_of_json_def
  max_output_tokens_of_json_def limit_of_json_def request_fields_of_json_def http_retry_attempts_of_json_def
  http_retry_max_wait_seconds_of_json_def validate_max_output_tokens_def MAX_OUTPUT_TOKENS_def
  validate_request_fields_def MAX_REQUEST_FIELDS_def request_field_def request_field_key_def ident_start_def
  ident_char_def is_ascii_lower_def is_ascii_upper_def RESERVED_REQUEST_FIELDS_def MAX_REQUEST_FIELD_BYTES_def
  MAX_REQUEST_FIELD_DEPTH_def text_or_def py_or_def as_dict_def Let_def in_strings_def texts_of_def
  seed_of_json_def circuit_breaker_of_json_def scenario_snapshot_of_json_def only_keys_def dict_keys_def
  strict_int_def strict_number_def unit_interval_def validate_pinned_model_def validate_base_url_def
  py_strip_def py_lstrip_def py_rstrip_def py_isspace_def utf8_len_def utf8_width_def MAX_MODEL_LENGTH_def
  MAX_URL_LENGTH_def absent_def endswith_def rstrip_char_def int_or_def optional_float_def optional_int_def
  first_present_def present_def str_of_int_def str_of_nat.simps enum_from_def tool_text_def

lemma sample_document_loads: "load_run_config sample_env sample_document = Inr sample_config"
proof -
  have "\<not> isl (load_run_config sample_env sample_document)" by (simp add: sample_document_simps)
  then show ?thesis by (simp add: sample_config_def)
qed

lemma sample_target:
  "tg_provider (rc_target sample_config) = ''openai-compatible'' \<and> tg_adapter_entrypoint (rc_target sample_config) = [] \<and>
   length (tg_request_fields (rc_target sample_config)) = 1 \<and> tl_content_mode (rc_telemetry sample_config) = ''omit''"
  by (simp add: sample_config_def sample_document_simps)

lemma sample_retry: "map_option (rt_max_attempts \<circ> rl_retry) (rc_reliability sample_config) = Some 3"
  by (simp add: sample_config_def sample_document_simps)

definition sample_cases :: "test_case list" where
  "sample_cases =
     [\<lparr>tc_case_id = ''a'', tc_prompt = ''hi'', tc_expected_contains = Some ''o'',
       tc_assertions = [(AssertionSpec ''exact'')\<lparr>as_value := Some ''ok''\<rparr>, (AssertionSpec ''tool_path'')\<lparr>as_path := [''t'']\<rparr>],
       tc_metadata = []\<rparr>]"

lemma sample_dataset_loads: "load_dataset sample_env ''L'' = Inr sample_cases"
  by (simp add: load_dataset_def sample_env_def sample_case_line_def sample_cases_def case_of_line_def enum_from_def splitlines_def
      assertions_of_json_def assertion_of_json_def assertion_spec_of_json_def allowed_fields_def ASSERTION_TYPES_def in_strings_def
      texts_of_def obj_get_def dict_get_def dict_keys_def text_or_def optional_string_def metadata_of_json_def Let_def
      py_strip_def py_lstrip_def py_rstrip_def py_isspace_def as_dict_def tool_text_def AssertionSpec_def line_end_def py_or_def)

section \<open>Properties\<close>

text \<open>C11: whatever JSON document is given, a configuration that the loader accepts is one the worker can run: the workload
  is positive, the model and the base URL of a provider over HTTP are pinned and safe, prices, output limits, HTTP
  retries and request fields are within their bounds, every redaction pattern compiles, the retry policy and the circuit
  breaker are well formed, and a fault scenario has a seed, a digest and rules with distinct names whose fields fit
  their fault.\<close>

theorem config_accepted:
  assumes "load_run_config env document = Inr config"
  shows "run_config_ok env config"
  using assms by (rule load_run_config_ok)

theorem config_accepted_witness:
  "load_run_config sample_env sample_document = Inr sample_config \<and> run_config_ok sample_env sample_config"
  using config_accepted [OF sample_document_loads] sample_document_loads by blast

end
