(* ===== verification/Web.thy ===== *)
theory Web
  imports Config Sha256
begin

text \<open>
  The part of \<open>urllib\<close> that both clients of the result API use: percent-encoding, and what opening a
  request can give. A reply carries the bytes that reading the response yields (or the exception the
  reading raises); \<open>OpenerRaises\<close> is an exception that is neither an \<open>HTTPError\<close> nor an
  \<open>OSError\<close>.
\<close>

section \<open>Requests and replies\<close>

record http_request =
  rq_method :: string
  rq_url :: string
  rq_headers :: "string dict"
  rq_data :: "nat list"

datatype http_reply =
    Responds int "string res"
  | HttpError int "string res"
  | Unreachable
  | OpenerRaises py_error

section \<open>Percent-encoding\<close>

text \<open>\<open>quote(s, safe="")\<close> and \<open>quote_plus(s, safe="")\<close> on the UTF-8 bytes of a text.\<close>

definition url_safe :: "nat \<Rightarrow> bool" where
  "url_safe b \<longleftrightarrow>
     48 \<le> b \<and> b \<le> 57 \<or> 65 \<le> b \<and> b \<le> 90 \<or> 97 \<le> b \<and> b \<le> 122 \<or> b \<in> {45, 46, 95, 126}"

definition upper_hex :: "nat \<Rightarrow> char" where
  "upper_hex d = (if d < 10 then digit_char d else char_of (55 + d))"

definition quote_byte :: "nat \<Rightarrow> string" where
  "quote_byte b = (if url_safe b then [char_of b] else [CHR ''%'', upper_hex (b div 16), upper_hex (b mod 16)])"

definition quote_plus_byte :: "nat \<Rightarrow> string" where
  "quote_plus_byte b = (if b = 32 then ''+'' else quote_byte b)"

definition url_quote :: "string \<Rightarrow> string" where
  "url_quote s = concat (map quote_byte (utf8_bytes s))"

definition url_quote_plus :: "string \<Rightarrow> string" where
  "url_quote_plus s = concat (map quote_plus_byte (utf8_bytes s))"

section \<open>An encoding by code words can be read back\<close>

text \<open>
  A code: no code word is empty, and a code word is told from another by what begins with it. The text of a
  list of symbols then determines the list.
\<close>

locale prefix_code =
  fixes code :: "'a \<Rightarrow> 'b list" and symbols :: "'a set"
  assumes code_nonempty: "a \<in> symbols \<Longrightarrow> code a \<noteq> []"
    and code_prefix: "a \<in> symbols \<Longrightarrow> b \<in> symbols \<Longrightarrow> code a @ x = code b @ y \<Longrightarrow> a = b"
begin

lemma encode_inject:
  "set as \<subseteq> symbols \<Longrightarrow> set bs \<subseteq> symbols \<Longrightarrow> concat (map code as) = concat (map code bs) \<Longrightarrow> as = bs"
proof (induction as arbitrary: bs)
  case Nil
  then show ?case using code_nonempty by (cases bs) auto
next
  case (Cons a as)
  then obtain b bs' where bs: "bs = b # bs'" using code_nonempty by (cases bs) auto
  moreover have "a = b" using Cons.prems by (intro code_prefix [of a b]) (auto simp: bs)
  ultimately show ?case using Cons by auto
qed

end

lemma upper_hex_inject: "d < 16 \<Longrightarrow> e < 16 \<Longrightarrow> upper_hex d = upper_hex e \<longleftrightarrow> d = e"
  by (auto simp: upper_hex_def digit_char_def dest!: arg_cong [where f = "of_char :: char \<Rightarrow> nat"] split: if_splits)

lemma char_of_inject: "a < 256 \<Longrightarrow> b < 256 \<Longrightarrow> (char_of a :: char) = char_of b \<longleftrightarrow> a = (b :: nat)"
  by (metis mod_less of_char_of)

lemma url_safe_char:
  assumes "url_safe b"
  shows "char_of b \<notin> {CHR ''%'', CHR ''+'', CHR ''/''}"
proof -
  have "b < 256" "b \<noteq> 37" "b \<noteq> 43" "b \<noteq> 47" using assms by (auto simp: url_safe_def)
  moreover have "(of_char CHR ''%'' :: nat) = 37" "(of_char CHR ''+'' :: nat) = 43" "(of_char CHR ''/'' :: nat) = 47"
    by simp_all
  ultimately show ?thesis by (metis emptyE insertE mod_less of_char_of)
qed

lemma hex_pair_inject:
  assumes "a < 256" "b < 256" "upper_hex (a div 16) = upper_hex (b div 16)" "upper_hex (a mod 16) = upper_hex (b mod 16)"
  shows "a = (b :: nat)"
proof -
  have "a div 16 = b div 16" "a mod 16 = b mod 16"
    using assms upper_hex_inject [of "a div 16" "b div 16"] upper_hex_inject [of "a mod 16" "b mod 16"] by simp_all
  then show ?thesis by (metis div_mult_mod_eq)
qed

lemma quote_byte_prefix:
  assumes "a < 256" "b < 256" "quote_byte a @ x = quote_byte b @ y"
  shows "a = b"
  using assms url_safe_char [of a] url_safe_char [of b] hex_pair_inject [of a b] char_of_inject [of a b]
  by (simp add: quote_byte_def split: if_splits)

lemma quote_byte_head: "hd (quote_byte b) \<noteq> CHR ''+''" "quote_byte b \<noteq> []"
  using url_safe_char [of b] by (simp_all add: quote_byte_def)

lemma quote_plus_byte_prefix:
  assumes "a < 256" "b < 256" "quote_plus_byte a @ x = quote_plus_byte b @ y"
  shows "a = b"
proof -
  have "quote_byte c @ x \<noteq> CHR ''+'' # y" for c x y
    using quote_byte_head [of c] by (cases "quote_byte c") auto
  then show ?thesis
    using assms quote_byte_prefix [of a b x y] by (auto simp: quote_plus_byte_def split: if_splits) metis+
qed

interpretation quoted_bytes: prefix_code quote_byte "{b. b < 256}"
  by unfold_locales (auto simp: quote_byte_def intro: quote_byte_prefix)

interpretation plus_bytes: prefix_code quote_plus_byte "{b. b < 256}"
  by unfold_locales (auto simp: quote_byte_def quote_plus_byte_def intro: quote_plus_byte_prefix)

definition utf8_char :: "char \<Rightarrow> nat list" where
  "utf8_char c = (let n = of_char c in if n < 128 then [n] else [192 + n div 64, 128 + n mod 64])"

lemma utf8_bytes_code: "utf8_bytes s = concat (map utf8_char s)"
  by (simp add: utf8_bytes_def utf8_char_def [abs_def])

lemma utf8_char_prefix:
  assumes "utf8_char c @ x = utf8_char d @ y"
  shows "c = d"
proof -
  have "(of_char c :: nat) = of_char d" if "of_char c div 64 = (of_char d div 64 :: nat)" "of_char c mod 64 = (of_char d mod 64 :: nat)"
    using that by (metis div_mult_mod_eq)
  moreover have "(of_char c :: nat) = of_char d \<longleftrightarrow> c = d" by simp
  ultimately show ?thesis
    using assms by (auto simp: utf8_char_def Let_def split: if_splits)
qed

interpretation utf8: prefix_code utf8_char UNIV
  by unfold_locales (auto simp: utf8_char_def Let_def intro: utf8_char_prefix)

lemma utf8_bytes_inject [simp]: "utf8_bytes s = utf8_bytes t \<longleftrightarrow> s = t"
  using utf8.encode_inject [of s t] by (auto simp: utf8_bytes_code)

lemma utf8_char_bound:
  assumes "b \<in> set (utf8_char c)"
  shows "b < 256"
proof -
  have "(of_char c :: nat) < 256" by (metis char_of_char mod_less_divisor of_char_of zero_less_numeral)
  then have "of_char c div 64 < (4 :: nat)" by (simp add: less_mult_imp_div_less)
  moreover have "of_char c mod 64 < (64 :: nat)" by simp
  ultimately show ?thesis using assms by (auto simp: utf8_char_def Let_def split: if_splits)
qed

lemma utf8_bytes_bound: "b \<in> set (utf8_bytes s) \<Longrightarrow> b < 256"
  using utf8_char_bound by (auto simp: utf8_bytes_code)

lemma url_quote_inject [simp]: "url_quote s = url_quote t \<longleftrightarrow> s = t"
  using quoted_bytes.encode_inject [of "utf8_bytes s" "utf8_bytes t"] utf8_bytes_bound
  by (auto simp: url_quote_def)

lemma url_quote_plus_inject [simp]: "url_quote_plus s = url_quote_plus t \<longleftrightarrow> s = t"
  using plus_bytes.encode_inject [of "utf8_bytes s" "utf8_bytes t"] utf8_bytes_bound
  by (auto simp: url_quote_plus_def)

lemma upper_hex_slash: "d < 16 \<Longrightarrow> upper_hex d \<noteq> CHR ''/''"
  by (auto simp: upper_hex_def digit_char_def dest!: arg_cong [where f = "of_char :: char \<Rightarrow> nat"] split: if_splits)

lemma quote_byte_slash: "b < 256 \<Longrightarrow> CHR ''/'' \<notin> set (quote_byte b)"
  using upper_hex_slash [of "b div 16"] upper_hex_slash [of "b mod 16"] url_safe_char [of b]
  by (auto simp: quote_byte_def less_mult_imp_div_less)

lemma url_quote_slash: "CHR ''/'' \<notin> set (url_quote s)"
  using quote_byte_slash utf8_bytes_bound by (fastforce simp: url_quote_def)

lemma url_quote_plus_slash: "CHR ''/'' \<notin> set (url_quote_plus s)"
  using quote_byte_slash utf8_bytes_bound by (fastforce simp: url_quote_plus_def quote_plus_byte_def split: if_splits)

lemma append_separator_inject:
  "c \<notin> set a \<Longrightarrow> c \<notin> set b \<Longrightarrow> a @ c # x = b @ c # y \<longleftrightarrow> a = b \<and> x = y"
proof (induction a arbitrary: b)
  case Nil
  then show ?case by (cases b) auto
next
  case (Cons d a)
  then show ?case by (cases b) auto
qed

end
