(* ===== verification/Results.thy ===== *)
theory Results
  imports Web Scheduler
begin

text \<open>
  \<open>worker/src/agentstorm_worker/results.py\<close>: the client of the result API. Every method makes at most one
  request; the opener is a function from the request to the reply, \<open>json.loads\<close>, \<open>urlsplit\<close> and the text
  of a float are the fields of \<open>config_env\<close>, \<open>hashlib.sha256\<close> is the argument \<open>digest\<close>. A latency or
  a duration is the double that the runner measured; the payload carries it as a JSON float.
\<close>

section \<open>Errors\<close>

datatype sink_exn = SinkError string | SchedulerBusy int | SinkRaises py_error

text \<open>The constructor of \<open>SchedulerBusy\<close> keeps at least one millisecond.\<close>

definition scheduler_busy :: "int \<Rightarrow> sink_exn" where
  "scheduler_busy retry_after_ms = SchedulerBusy (max 1 retry_after_ms)"

definition lift_sink :: "'a res \<Rightarrow> sink_exn + 'a" where
  "lift_sink r = (case r of Inl e \<Rightarrow> Inl (SinkRaises e) | Inr v \<Rightarrow> Inr v)"

record queue_claim =
  qc_shard_index :: int
  qc_lease_token :: string
  qc_renew_after_ms :: int

record result_sink_config =
  sk_base_url :: string
  sk_write_token :: string
  sk_include_sensitive :: bool
  sk_timeout_seconds :: pyfloat

section \<open>Construction\<close>

definition result_client :: "config_env \<Rightarrow> result_sink_config \<Rightarrow> result_sink_config res" where
  "result_client env config =
     rbind (ce_urlsplit env (sk_base_url config)) (\<lambda>parsed.
     raise_if ((up_scheme parsed \<noteq> ''http'' \<and> up_scheme parsed \<noteq> ''https'') \<or> up_netloc parsed = [])
       (ValueError ''AGENTSTORM_RESULT_API_URL must be an HTTP(S) URL'')
     (raise_if (\<not> absent (up_username parsed) \<or> \<not> absent (up_password parsed) \<or> up_query parsed \<noteq> [] \<or> up_fragment parsed \<noteq> [])
       (ValueError ''AGENTSTORM_RESULT_API_URL must not contain credentials, query, or fragment'')
     (raise_if (py_strip (sk_write_token config) = [])
       (ValueError ''AGENTSTORM_RESULT_WRITE_TOKEN is required when the result sink is enabled'')
     (raise_if (fl_le (sk_timeout_seconds config) (Fin 0))
       (ValueError ''AGENTSTORM_RESULT_TIMEOUT_SECONDS must be positive'')
     (Inr (config\<lparr>sk_base_url := rstrip_char (CHR ''/'') (sk_base_url config)\<rparr>))))))"

definition environment_boolean :: "(string \<Rightarrow> string option) \<Rightarrow> string \<Rightarrow> bool \<Rightarrow> bool res" where
  "environment_boolean getenv name fallback =
     (case getenv name of
        None \<Rightarrow> Inr fallback
      | Some raw \<Rightarrow>
          (let normalized = py_lower (py_strip raw)
           in if normalized = ''true'' then Inr True
              else if normalized = ''false'' then Inr False
              else Inl (ValueError (name @ '' must be true or false''))))"

definition getenv_or :: "(string \<Rightarrow> string option) \<Rightarrow> string \<Rightarrow> string \<Rightarrow> string" where
  "getenv_or getenv name fallback = (case getenv name of None \<Rightarrow> fallback | Some v \<Rightarrow> v)"

definition from_environment :: "config_env \<Rightarrow> (string \<Rightarrow> string option) \<Rightarrow> result_sink_config option res" where
  "from_environment env getenv =
     (let base_url = py_strip (getenv_or getenv ''AGENTSTORM_RESULT_API_URL'' [])
      in if base_url = [] then Inr None
         else rbind (environment_boolean getenv ''AGENTSTORM_INCLUDE_SENSITIVE_RESULTS'' False) (\<lambda>sensitive.
              rbind (py_float (JStr (getenv_or getenv ''AGENTSTORM_RESULT_TIMEOUT_SECONDS'' ''30''))) (\<lambda>timeout.
              rbind (result_client env
                  \<lparr>sk_base_url = base_url, sk_write_token = getenv_or getenv ''AGENTSTORM_RESULT_WRITE_TOKEN'' [],
                   sk_include_sensitive = sensitive, sk_timeout_seconds = timeout\<rparr>) (\<lambda>client.
              Inr (Some client)))))"

section \<open>Requests\<close>

definition http_put :: "config_env \<Rightarrow> result_sink_config \<Rightarrow> (http_request \<Rightarrow> http_reply) \<Rightarrow> string \<Rightarrow> string \<Rightarrow> json \<Rightarrow>
    string dict \<Rightarrow> sink_exn + unit" where
  "http_put env config opener path idempotency_key payload extra_headers =
     rbind (lift_sink (json_dumps (ce_frep env) payload)) (\<lambda>body.
     case opener \<lparr>rq_method = ''PUT'', rq_url = sk_base_url config @ path,
         rq_headers = dict_update
           [(''Authorization'', ''Bearer '' @ sk_write_token config), (''Content-Type'', ''application/json''),
            (''Idempotency-Key'', idempotency_key)] extra_headers,
         rq_data = utf8_bytes body\<rparr> of
       Responds _ (Inr _) \<Rightarrow> Inr ()
     | Responds _ (Inl e) \<Rightarrow> Inl (SinkRaises e)
     | HttpError code _ \<Rightarrow> Inl (SinkError (''result API returned HTTP '' @ str_of_int code))
     | Unreachable \<Rightarrow> Inl (SinkError ''result API is unavailable'')
     | OpenerRaises e \<Rightarrow> Inl (SinkRaises e))"

text \<open>\<open>json.loads(body or b"{}")\<close>; a body that cannot be read raises what its reading raises.\<close>

definition loads_body :: "config_env \<Rightarrow> string res \<Rightarrow> json res" where
  "loads_body env r =
     rbind r (\<lambda>body.
     case ce_loads env (if body = [] then ''{}'' else body) of Inl message \<Rightarrow> Inl (ValueError message) | Inr v \<Rightarrow> Inr v)"

text \<open>What a reply with status 429 asks for: only a ValueError or a TypeError of its reading is caught.\<close>

definition busy_of_body :: "config_env \<Rightarrow> string res \<Rightarrow> sink_exn" where
  "busy_of_body env r =
     (case rbind (loads_body env r) (\<lambda>decoded.
           rbind (as_dict decoded) (\<lambda>d. py_int (obj_get_default d ''retry_after_ms'' (JInt 1000)))) of
        Inr n \<Rightarrow> scheduler_busy n
      | Inl (ValueError _) \<Rightarrow> scheduler_busy 1000
      | Inl (TypeError _) \<Rightarrow> scheduler_busy 1000
      | Inl e \<Rightarrow> SinkRaises e)"

definition http_post :: "config_env \<Rightarrow> result_sink_config \<Rightarrow> (http_request \<Rightarrow> http_reply) \<Rightarrow> string \<Rightarrow> json \<Rightarrow>
    sink_exn + json dict option" where
  "http_post env config opener path payload =
     rbind (lift_sink (json_dumps (ce_frep env) payload)) (\<lambda>body.
     case opener \<lparr>rq_method = ''POST'', rq_url = sk_base_url config @ path,
         rq_headers = [(''Authorization'', ''Bearer '' @ sk_write_token config), (''Content-Type'', ''application/json'')],
         rq_data = utf8_bytes body\<rparr> of
       Responds status (Inl e) \<Rightarrow> Inl (SinkRaises e)
     | Responds status (Inr body) \<Rightarrow>
         if status = 204 then Inr None
         else rbind (lift_sink (loads_body env (Inr body))) (\<lambda>decoded.
              case decoded of
                JObj d \<Rightarrow> Inr (Some d)
              | _ \<Rightarrow> Inl (SinkError ''result API returned an invalid JSON response''))
     | HttpError code body \<Rightarrow>
         if code = 429 then Inl (busy_of_body env body)
         else Inl (SinkError (''result API returned HTTP '' @ str_of_int code))
     | Unreachable \<Rightarrow> Inl (SinkError ''result API is unavailable'')
     | OpenerRaises e \<Rightarrow> Inl (SinkRaises e))"

section \<open>Registering a run\<close>

text \<open>An optional value as a JSON value, and a field that is there only under a condition.\<close>

definition opt_int :: "int option \<Rightarrow> json" where
  "opt_int v = (case v of None \<Rightarrow> JNull | Some i \<Rightarrow> JInt i)"

definition opt_float :: "pyfloat option \<Rightarrow> json" where
  "opt_float v = (case v of None \<Rightarrow> JNull | Some x \<Rightarrow> JFloat x)"

definition field_if :: "bool \<Rightarrow> string \<Rightarrow> json \<Rightarrow> json dict" where
  "field_if c k v = (if c then [(k, v)] else [])"

definition rule_payload :: "fault_rule_config \<Rightarrow> json" where
  "rule_payload rule =
     JObj ([(''name'', JStr (fr_name rule)), (''fault'', JStr (fr_fault rule)),
            (''probability'', JFloat (Fin (fr_probability rule))), (''attempts'', JList (map JInt (fr_attempts rule)))]
       @ field_if (fr_case_ids rule \<noteq> []) ''caseIDs'' (JList (map JStr (fr_case_ids rule)))
       @ field_if (fr_iterations rule \<noteq> []) ''iterations'' (JList (map JInt (fr_iterations rule)))
       @ field_if (fr_delay_ms rule \<noteq> None) ''delayMs'' (opt_int (fr_delay_ms rule))
       @ field_if (fr_status_code rule \<noteq> None) ''statusCode'' (opt_int (fr_status_code rule))
       @ field_if (fr_tool_name rule \<noteq> []) ''toolName'' (JStr (fr_tool_name rule)))"

definition scenario_document :: "fault_scenario_config \<Rightarrow> json" where
  "scenario_document scenario =
     JObj [(''apiVersion'', JStr ''agentstorm.io/v1alpha1''), (''kind'', JStr ''FaultScenario''),
           (''rules'', JList (map rule_payload (fs_rules scenario)))]"

definition scenario_payload :: "fault_scenario_config \<Rightarrow> json" where
  "scenario_payload scenario =
     JObj [(''source'', JObj [(''name'', JStr (fs_source_name scenario)), (''key'', JStr (fs_source_key scenario))]),
           (''digest'', JStr (fs_digest scenario)), (''document'', scenario_document scenario)]"

definition reliability_payload :: "reliability_config \<Rightarrow> json" where
  "reliability_payload reliability =
     (let retry = rl_retry reliability
      in JObj ([(''retry'', JObj
             [(''max_attempts'', JInt (rt_max_attempts retry)), (''initial_backoff_ms'', JInt (rt_initial_backoff_ms retry)),
              (''max_backoff_ms'', JInt (rt_max_backoff_ms retry)),
              (''max_cumulative_backoff_ms'', JInt (rt_max_cumulative_backoff_ms retry)),
              (''jitter_ratio'', JFloat (Fin (rt_jitter_ratio retry))),
              (''allow_ambiguous_retries'', JBool (rt_allow_ambiguous_retries retry))])]
         @ (case rl_seed reliability of None \<Rightarrow> [] | Some s \<Rightarrow> [(''seed'', JInt s)])
         @ (case rl_circuit_breaker reliability of
              None \<Rightarrow> []
            | Some c \<Rightarrow> [(''circuit_breaker'', JObj [(''failure_threshold'', JInt (cb_failure_threshold c)),
                                                (''open_duration_ms'', JInt (cb_open_duration_ms c))])])
         @ (case rl_scenario reliability of None \<Rightarrow> [] | Some sc \<Rightarrow> [(''scenario'', scenario_payload sc)])))"

definition run_payload :: "run_config \<Rightarrow> int \<Rightarrow> json" where
  "run_payload config expected_shards =
     (let target = rc_target config; evaluation = rc_evaluation config
      in JObj ([(''schema_version'', JStr ''v1alpha1''), (''expected_shards'', JInt expected_shards),
         (''source'', JObj [(''namespace'', JStr (so_namespace (rc_source config))), (''name'', JStr (so_name (rc_source config)))]),
         (''target'', JObj ([(''provider'', JStr (tg_provider target)), (''model'', JStr (tg_model target))]
            @ field_if (tg_adapter_entrypoint target \<noteq> []) ''adapter_entrypoint'' (JStr (tg_adapter_entrypoint target))
            @ (case tg_pricing target of
                 None \<Rightarrow> []
               | Some p \<Rightarrow> [(''pricing'', JObj
                   [(''input_usd_per_million_tokens'', JStr (pr_input_usd_per_million_tokens p)),
                    (''output_usd_per_million_tokens'', JStr (pr_output_usd_per_million_tokens p))])]))),
         (''dataset'', JObj [(''name'', JStr (ds_name (rc_dataset config))), (''key'', JStr (ds_key (rc_dataset config)))]),
         (''evaluation'', JObj [(''min_success_rate'', opt_float (ev_min_success_rate evaluation)),
            (''max_failure_rate'', opt_float (ev_max_error_rate evaluation)),
            (''max_p95_ms'', opt_int (ev_max_p95_latency_ms evaluation))])]
         @ (case rc_reliability config of None \<Rightarrow> [] | Some rl \<Rightarrow> [(''reliability'', reliability_payload rl)])))"

definition register_run ::
  "config_env \<Rightarrow> result_sink_config \<Rightarrow> (http_request \<Rightarrow> http_reply) \<Rightarrow> run_config \<Rightarrow> int \<Rightarrow> sink_exn + unit" where
  "register_run env client opener config expected_shards =
     http_put env client opener (''/v1/runs/'' @ url_quote (rc_run_id config)) (''run/'' @ rc_run_id config)
       (run_payload config expected_shards) []"

section \<open>Uploading results\<close>

definition attempt_payload :: "attempt_result \<Rightarrow> json" where
  "attempt_payload attempt =
     JObj ([(''number'', JInt (int (at_number attempt))), (''latency_ms'', JFloat (Fin (at_latency_ms attempt))),
            (''outcome'', JStr (at_outcome attempt)), (''ambiguous'', JBool (at_ambiguous attempt)),
            (''retry_decision'', JStr (at_retry_decision attempt)), (''backoff_ms'', JInt (at_backoff_ms attempt)),
            (''input_tokens'', JInt (case at_input_tokens attempt of None \<Rightarrow> 0 | Some n \<Rightarrow> n)),
            (''output_tokens'', JInt (case at_output_tokens attempt of None \<Rightarrow> 0 | Some n \<Rightarrow> n)),
            (''usage_complete'', JBool (at_usage_complete attempt)),
            (''model_call_count'', opt_int (at_model_call_count attempt)),
            (''tool_call_count'', JInt (at_tool_call_count attempt))]
       @ field_if (at_failure_category attempt \<noteq> []) ''failure_category'' (JStr (at_failure_category attempt))
       @ field_if (at_error_code attempt \<noteq> []) ''error_code'' (JStr (at_error_code attempt))
       @ field_if (at_injected_rule attempt \<noteq> []) ''injected_rule'' (JStr (at_injected_rule attempt))
       @ field_if (at_injected_fault attempt \<noteq> []) ''injected_fault'' (JStr (at_injected_fault attempt))
       @ field_if (at_circuit_events attempt \<noteq> []) ''circuit_events'' (JList (map JStr (at_circuit_events attempt))))"

definition outcome_payload :: "bool \<Rightarrow> assertion_outcome \<Rightarrow> json" where
  "outcome_payload include_sensitive oc =
     JObj ([(''index'', JInt (int (ao_index oc))), (''type'', JStr (ao_type oc)), (''passed'', JBool (ao_passed oc)),
            (''reason_code'', JStr (ao_reason_code oc))]
       @ (case ao_message oc of
            Some m \<Rightarrow> field_if include_sensitive ''message'' (JStr m)
          | None \<Rightarrow> []))"

definition case_idempotency_key :: "string \<Rightarrow> case_result \<Rightarrow> string" where
  "case_idempotency_key run_id result =
     ''run/'' @ run_id @ ''/case/'' @ url_quote_plus (cr_case_id result) @ ''/iteration/'' @ str_of_nat (cr_iteration result)"

definition case_payload :: "result_sink_config \<Rightarrow> string \<Rightarrow> case_result \<Rightarrow> json" where
  "case_payload client run_id result =
     JObj ([(''idempotency_key'', JStr (case_idempotency_key run_id result)),
            (''case_id'', JStr (cr_case_id result)), (''iteration'', JInt (int (cr_iteration result))),
            (''success'', JBool (cr_success result)), (''latency_ms'', JFloat (Fin (cr_latency_ms result))),
            (''input_tokens'', JInt (case cr_input_tokens result of None \<Rightarrow> 0 | Some n \<Rightarrow> n)),
            (''output_tokens'', JInt (case cr_output_tokens result of None \<Rightarrow> 0 | Some n \<Rightarrow> n)),
            (''usage_complete'', JBool (cr_usage_complete result)),
            (''model_call_count'', opt_int (cr_model_call_count result)),
            (''tool_call_count'', JInt (cr_tool_call_count result))]
       @ field_if (cr_failure_kind result \<noteq> []) ''failure_kind'' (JStr (cr_failure_kind result))
       @ field_if (cr_failure_category result \<noteq> []) ''failure_category'' (JStr (cr_failure_category result))
       @ field_if (cr_error_code result \<noteq> []) ''error_code'' (JStr (cr_error_code result))
       @ field_if (cr_attempts result \<noteq> []) ''attempts'' (JList (map attempt_payload (cr_attempts result)))
       @ field_if (cr_tool_path result \<noteq> []) ''tool_path'' (JList (map JStr (cr_tool_path result)))
       @ field_if (cr_assertions result \<noteq> []) ''assertions''
           (JList (map (outcome_payload (sk_include_sensitive client)) (cr_assertions result)))
       @ (if sk_include_sensitive client
          then field_if (cr_output result \<noteq> []) ''output'' (JStr (cr_output result))
             @ (case cr_error result of Some e \<Rightarrow> field_if (e \<noteq> []) ''error'' (JStr e) | None \<Rightarrow> [])
          else []))"

definition shard_payload :: "result_sink_config \<Rightarrow> string \<Rightarrow> case_result list \<Rightarrow> run_summary \<Rightarrow> json" where
  "shard_payload client run_id results summary =
     JObj [(''schema_version'', JStr ''v1alpha1''),
           (''summary'', JObj
              [(''total'', JInt (int (rs_total summary))), (''succeeded'', JInt (int (rs_succeeded summary))),
               (''failed'', JInt (int (rs_failed summary))), (''duration_ms'', JFloat (Fin (rs_duration_ms summary))),
               (''input_tokens'', JInt (rs_input_tokens summary)), (''output_tokens'', JInt (rs_output_tokens summary)),
               (''usage_complete'', JBool (rs_usage_complete summary)),
               (''model_call_count'', opt_int (rs_model_call_count summary)),
               (''tool_call_count'', JInt (rs_tool_call_count summary))]),
           (''cases'', JList (map (case_payload client run_id) results))]"

definition upload_shard ::
  "config_env \<Rightarrow> result_sink_config \<Rightarrow> (http_request \<Rightarrow> http_reply) \<Rightarrow> string \<Rightarrow> int \<Rightarrow> case_result list \<Rightarrow> run_summary \<Rightarrow>
   string option \<Rightarrow> sink_exn + unit" where
  "upload_shard env client opener run_id shard_index results summary lease_token =
     http_put env client opener (''/v1/runs/'' @ url_quote run_id @ ''/shards/'' @ str_of_int shard_index)
       (''run/'' @ run_id @ ''/shard/'' @ str_of_int shard_index) (shard_payload client run_id results summary)
       (case lease_token of
          Some t \<Rightarrow> if t \<noteq> [] then [(''X-AgentStorm-Queue-Lease'', t)] else []
        | None \<Rightarrow> [])"

definition mark_terminal ::
  "config_env \<Rightarrow> result_sink_config \<Rightarrow> (http_request \<Rightarrow> http_reply) \<Rightarrow> string \<Rightarrow> string \<Rightarrow> string \<Rightarrow> sink_exn + unit" where
  "mark_terminal env client opener run_id status reason_code =
     (if status \<noteq> ''cancelled'' \<and> status \<noteq> ''harness_failed''
      then Inl (SinkRaises (ValueError ''terminal status must be cancelled or harness_failed''))
      else http_put env client opener (''/v1/runs/'' @ url_quote run_id @ ''/terminal'') (''run/'' @ run_id @ ''/terminal/'' @ status)
             (JObj [(''status'', JStr status), (''reason_code'', JStr reason_code)]) [])"

section \<open>Leases and permits\<close>

text \<open>\<open>payload[k]\<close>.\<close>

definition dict_index :: "json dict \<Rightarrow> string \<Rightarrow> json res" where
  "dict_index d k = (case dict_get d k of None \<Rightarrow> Inl (KeyError k) | Some v \<Rightarrow> Inr v)"

definition index_int :: "json dict \<Rightarrow> string \<Rightarrow> int res" where
  "index_int d k = rbind (dict_index d k) py_int"

definition index_str :: "config_env \<Rightarrow> json dict \<Rightarrow> string \<Rightarrow> string res" where
  "index_str env d k = rbind (dict_index d k) (\<lambda>v. Inr (py_str (ce_repr env) v))"

definition runs_path :: "string \<Rightarrow> string \<Rightarrow> string" where
  "runs_path run_id rest = ''/v1/runs/'' @ url_quote run_id @ rest"

definition claim_shard ::
  "config_env \<Rightarrow> result_sink_config \<Rightarrow> (http_request \<Rightarrow> http_reply) \<Rightarrow> string \<Rightarrow> string \<Rightarrow> sink_exn + queue_claim option" where
  "claim_shard env client opener run_id worker_id =
     rbind (http_post env client opener (runs_path run_id ''/queue/claims'') (JObj [(''worker_id'', JStr worker_id)])) (\<lambda>payload.
     case payload of
       None \<Rightarrow> Inr None
     | Some d \<Rightarrow>
         lift_sink (rbind (index_int d ''shard_index'') (\<lambda>shard_index.
           rbind (index_str env d ''lease_token'') (\<lambda>lease_token.
           rbind (index_int d ''renew_after_ms'') (\<lambda>renew_after_ms.
           Inr (Some \<lparr>qc_shard_index = shard_index, qc_lease_token = lease_token, qc_renew_after_ms = renew_after_ms\<rparr>))))))"

definition renewal :: "config_env \<Rightarrow> result_sink_config \<Rightarrow> (http_request \<Rightarrow> http_reply) \<Rightarrow> string \<Rightarrow> string \<Rightarrow> string \<Rightarrow> sink_exn + int" where
  "renewal env client opener path lease_token message =
     rbind (http_post env client opener path (JObj [(''lease_token'', JStr lease_token)])) (\<lambda>payload.
     case payload of
       None \<Rightarrow> Inl (SinkError message)
     | Some d \<Rightarrow> lift_sink (index_int d ''renew_after_ms''))"

definition renew_shard ::
  "config_env \<Rightarrow> result_sink_config \<Rightarrow> (http_request \<Rightarrow> http_reply) \<Rightarrow> string \<Rightarrow> int \<Rightarrow> string \<Rightarrow> sink_exn + int" where
  "renew_shard env client opener run_id shard_index lease_token =
     renewal env client opener (runs_path run_id (''/queue/shards/'' @ str_of_int shard_index @ ''/renew'')) lease_token
       ''result API returned an empty lease response''"

definition acquire_permit ::
  "config_env \<Rightarrow> (nat list \<Rightarrow> nat list) \<Rightarrow> result_sink_config \<Rightarrow> (http_request \<Rightarrow> http_reply) \<Rightarrow> string \<Rightarrow> string \<Rightarrow> string \<Rightarrow>
   string \<Rightarrow> sink_exn + permit_grant" where
  "acquire_permit env digest client opener run_id request_id worker_id provider =
     (let request_id = (if length request_id \<noteq> 64 then concat (map hex_byte (digest (utf8_bytes request_id))) else request_id)
      in rbind (http_post env client opener (runs_path run_id ''/permits'')
             (JObj [(''request_id'', JStr request_id), (''worker_id'', JStr worker_id), (''provider'', JStr provider)])) (\<lambda>payload.
         case payload of
           None \<Rightarrow> Inl (SinkError ''result API returned an empty permit response'')
         | Some d \<Rightarrow>
             lift_sink (rbind (index_str env d ''permit_id'') (\<lambda>permit_id.
               rbind (index_str env d ''lease_token'') (\<lambda>lease_token.
               rbind (index_int d ''renew_after_ms'') (\<lambda>renew_after_ms.
               Inr \<lparr>pg_permit_id = permit_id, pg_lease_token = lease_token, pg_renew_after_ms = renew_after_ms\<rparr>))))))"

definition renew_permit ::
  "config_env \<Rightarrow> result_sink_config \<Rightarrow> (http_request \<Rightarrow> http_reply) \<Rightarrow> string \<Rightarrow> permit_grant \<Rightarrow> sink_exn + int" where
  "renew_permit env client opener run_id grant =
     renewal env client opener (runs_path run_id (''/permits/'' @ pg_permit_id grant @ ''/renew'')) (pg_lease_token grant)
       ''result API returned an empty permit lease response''"

definition release_permit ::
  "config_env \<Rightarrow> result_sink_config \<Rightarrow> (http_request \<Rightarrow> http_reply) \<Rightarrow> string \<Rightarrow> permit_grant \<Rightarrow> sink_exn + unit" where
  "release_permit env client opener run_id grant =
     rbind (http_post env client opener (runs_path run_id (''/permits/'' @ pg_permit_id grant @ ''/release''))
       (JObj [(''lease_token'', JStr (pg_lease_token grant))])) (\<lambda>_. Inr ())"

section \<open>The scenario document\<close>

text \<open>
  A document format: what is printed can be parsed and gives the value back, and what is parsed is a value
  that may be printed.
\<close>

locale document_format =
  fixes to_doc :: "'a \<Rightarrow> json" and of_doc :: "json \<Rightarrow> 'a res" and good :: "'a \<Rightarrow> bool"
  assumes of_to: "good a \<Longrightarrow> of_doc (to_doc a) = Inr a"
    and good_of: "of_doc v = Inr a \<Longrightarrow> good a"
begin

lemma to_doc_inject: "good a \<Longrightarrow> good b \<Longrightarrow> to_doc a = to_doc b \<Longrightarrow> a = b"
  using of_to by (metis sum.inject(2))

lemma reprint: "of_doc v = Inr a \<Longrightarrow> of_doc (to_doc a) = Inr a"
  using good_of of_to by blast

lemma good_iff: "good a \<longleftrightarrow> of_doc (to_doc a) = Inr a"
  using good_of of_to by blast

end

text \<open>The parser's checks of the fields that depend on the fault, read backwards.\<close>

lemma fault_fields_shape:
  assumes "fault_shape r"
  shows "fault_fields path (fr_fault r) (opt_int (fr_delay_ms r)) (opt_int (fr_status_code r)) (JStr (fr_tool_name r)) =
    Inr (fr_delay_ms r, fr_status_code r)"
  using assms by (auto simp: fault_shape_def fault_fields_def opt_int_def strict_int_def split: if_splits)

text \<open>The fields of a printed rule, as the parser looks them up.\<close>

definition rule_dict :: "fault_rule_config \<Rightarrow> json dict" where
  "rule_dict r = (case rule_payload r of JObj d \<Rightarrow> d | _ \<Rightarrow> [])"

lemma rule_payload_dict: "rule_payload r = JObj (rule_dict r)"
  by (simp add: rule_dict_def rule_payload_def)

lemma rule_dict_keys:
  "set (dict_keys (rule_dict r)) \<subseteq> {''name'', ''fault'', ''probability'', ''caseIDs'', ''iterations'', ''attempts'', ''delayMs'',
     ''statusCode'', ''toolName''}"
  by (auto simp: rule_dict_def rule_payload_def dict_keys_def field_if_def)

lemma rule_dict_get:
  "obj_get (rule_dict r) ''name'' = JStr (fr_name r)"
  "obj_get (rule_dict r) ''fault'' = JStr (fr_fault r)"
  "obj_get (rule_dict r) ''probability'' = JFloat (Fin (fr_probability r))"
  "obj_get_default (rule_dict r) ''attempts'' (JList [JInt 1]) = JList (map JInt (fr_attempts r))"
  "obj_get_default (rule_dict r) ''caseIDs'' (JList []) = JList (map JStr (fr_case_ids r))"
  "obj_get_default (rule_dict r) ''iterations'' (JList []) = JList (map JInt (fr_iterations r))"
  "obj_get (rule_dict r) ''delayMs'' = opt_int (fr_delay_ms r)"
  "obj_get (rule_dict r) ''statusCode'' = opt_int (fr_status_code r)"
  "obj_get_default (rule_dict r) ''toolName'' (JStr []) = JStr (fr_tool_name r)"
  by (simp_all add: rule_dict_def rule_payload_def obj_get_def obj_get_default_def dict_get_def field_if_def map_add_def
      opt_int_def split: option.splits)

lemma map_json_inject: "map JStr ss = map JStr ts \<longleftrightarrow> ts = ss" "map JInt is = map JInt js \<longleftrightarrow> js = is"
  by (auto simp: inj_map_eq_map inj_def)

lemma rule_of_payload:
  assumes "rule_ok r"
  shows "fault_rule_of_json env (i, rule_payload r) = Inr r"
  using assms rule_dict_keys [of r] fault_fields_shape [of r]
  by (simp add: fault_rule_of_json_def rule_payload_dict rule_dict_get rule_ok_def tool_text_def in_strings_def strict_number_def Let_def
      list_ex_iff not_less map_json_inject)

interpretation rule_format: document_format rule_payload "\<lambda>v. fault_rule_of_json env (i, v)" rule_ok
  for env i
  by unfold_locales (auto intro: rule_of_payload fault_rule_ok)

text \<open>The snapshot that the operator hands to a worker, around a scenario document.\<close>

definition snapshot_document :: "fault_scenario_config option \<Rightarrow> json" where
  "snapshot_document snapshot =
     (case snapshot of
        None \<Rightarrow> JNull
      | Some sc \<Rightarrow> JObj [(''sourceName'', JStr (fs_source_name sc)), (''sourceKey'', JStr (fs_source_key sc)),
                      (''digest'', JStr (fs_digest sc)), (''scenario'', scenario_document sc)])"

lemma rmap_list_printed:
  assumes "\<And>i r. r \<in> set rs \<Longrightarrow> f (i, g r) = Inr r"
  shows "rmap_list f (enum_from n (map g rs)) = Inr rs"
  using assms by (induction rs arbitrary: n) auto

lemma sha_digest_text_shape:
  assumes "sha_digest_text s"
  shows "py_strip s \<noteq> []" "utf8_len s \<le> 71"
proof -
  obtain t where t: "s = ''sha256:'' @ t" "length t = 64" "list_all hex_lower t"
    using assms by (auto simp: sha_digest_text_def startswith_iff)
  have "\<not> py_isspace (CHR ''s'')" by (simp add: py_isspace_def)
  then show "py_strip s \<noteq> []" by (simp add: py_strip_eq_Nil t(1))
  have "utf8_width c = 1" if "hex_lower c" for c
    using that by (auto simp: hex_lower_def py_isdigit_def utf8_width_def Let_def)
  moreover have "list_all hex_lower u \<Longrightarrow> utf8_len u = length u" for u using calculation by (induction u) auto
  ultimately show "utf8_len s \<le> 71" using t by (simp add: utf8_width_def)
qed

lemma snapshot_of_document:
  assumes "pred_option scenario_ok snapshot"
  shows "scenario_snapshot_of_json env (snapshot_document snapshot) = Inr snapshot"
proof (cases snapshot)
  case (Some sc)
  have "rmap_list (fault_rule_of_json env) (enum_from 0 (map rule_payload (fs_rules sc))) = Inr (fs_rules sc)"
    using assms Some by (intro rmap_list_printed rule_of_payload) (simp add: scenario_ok_def)
  then show ?thesis
    using assms Some sha_digest_text_shape [of "fs_digest sc"]
    by (simp add: snapshot_document_def scenario_document_def scenario_snapshot_of_json_def scenario_ok_def has_keys_def
        dict_keys_def obj_get_def dict_get_def)
qed (simp add: snapshot_document_def scenario_snapshot_of_json_def)

interpretation scenario_format: document_format snapshot_document "scenario_snapshot_of_json env" "pred_option scenario_ok"
  for env
  by unfold_locales (auto intro: snapshot_of_document simp: pred_option_def dest: scenario_snapshot_of_json_ok)

section \<open>Idempotency keys and privacy\<close>

lemma case_idempotency_key_inject:
  "case_idempotency_key run_id a = case_idempotency_key run_id b \<longleftrightarrow>
     cr_case_id a = cr_case_id b \<and> cr_iteration a = cr_iteration b"
  using append_separator_inject [OF url_quote_plus_slash url_quote_plus_slash, of "cr_case_id a" _ "cr_case_id b"]
  by (auto simp: case_idempotency_key_def)

text \<open>What a result says without the answer of the agent, the error text and the messages of the evaluators.\<close>

definition public_result :: "case_result \<Rightarrow> case_result" where
  "public_result r =
     r\<lparr>cr_output := [], cr_error := None, cr_assertions := map (\<lambda>a. a\<lparr>ao_message := None\<rparr>) (cr_assertions r)\<rparr>"

lemma outcome_payload_public: "outcome_payload False (a\<lparr>ao_message := None\<rparr>) = outcome_payload False a"
  by (simp add: outcome_payload_def field_if_def split: option.splits)

lemma case_payload_public:
  assumes "\<not> sk_include_sensitive client"
  shows "case_payload client run_id (public_result r) = case_payload client run_id r"
  using assms
  by (simp add: case_payload_def public_result_def case_idempotency_key_def comp_def outcome_payload_public)

lemma shard_payload_public:
  assumes "\<not> sk_include_sensitive client"
  shows "shard_payload client run_id (map public_result rs) summary = shard_payload client run_id rs summary"
  using assms by (simp add: shard_payload_def case_payload_public)

section \<open>Replies\<close>

lemma busy_of_body_cases:
  obtains n where "busy_of_body env r = SchedulerBusy n" "1 \<le> n" | e where "busy_of_body env r = SinkRaises e"
proof (cases "busy_of_body env r")
  case (SchedulerBusy n)
  then have "1 \<le> n" by (auto simp: busy_of_body_def scheduler_busy_def split: sum.splits py_error.splits)
  then show ?thesis using SchedulerBusy that by blast
next
  case (SinkError m)
  then show ?thesis by (auto simp: busy_of_body_def scheduler_busy_def split: sum.splits py_error.splits)
qed (use that in blast)

section \<open>Properties\<close>

text \<open>C17: the scenario document that a worker uploads is the scenario it ran: put back into a snapshot it is accepted
  and gives the same scenario, and two accepted scenarios are uploaded alike only if they are the same.\<close>

theorem scenario_roundtrip:
  assumes "scenario_snapshot_of_json env v = Inr (Some sc)"
  shows "scenario_snapshot_of_json env (snapshot_document (Some sc)) = Inr (Some sc) \<and>
    (scenario_snapshot_of_json env w = Inr (Some sc') \<and> scenario_payload sc = scenario_payload sc' \<longrightarrow> sc = sc')"
proof -
  have "snapshot_document (Some sc) = snapshot_document (Some sc')" if "scenario_payload sc = scenario_payload sc'"
    using that by (simp add: scenario_payload_def snapshot_document_def)
  with assms scenario_format.good_of scenario_format.reprint show ?thesis
    by (metis option.inject scenario_format.to_doc_inject)
qed

definition sample_rule :: fault_rule_config where
  "sample_rule = \<lparr>fr_name = ''slow'', fr_fault = ''latency'', fr_probability = 1 / 2, fr_case_ids = [''a''], fr_iterations = [0],
     fr_attempts = [1, 2], fr_delay_ms = Some 20, fr_status_code = None, fr_tool_name = []\<rparr>"

definition sample_scenario :: fault_scenario_config where
  "sample_scenario = \<lparr>fs_source_name = ''faults'', fs_source_key = ''scenario.yaml'', fs_digest = ''sha256:'' @ replicate 64 (CHR ''a''),
     fs_rules = [sample_rule]\<rparr>"

lemma sample_scenario_ok: "scenario_ok sample_scenario"
  by (simp add: scenario_ok_def sample_scenario_def sample_rule_def rule_ok_def fault_shape_def FAULTS_def py_strip_eq_Nil py_isspace_def
      utf8_width_def sha_digest_text_def startswith_iff hex_lower_def numeral_eq_Suc)

theorem scenario_roundtrip_witness:
  "scenario_snapshot_of_json sample_env (snapshot_document (Some sample_scenario)) = Inr (Some sample_scenario)"
proof -
  have "scenario_snapshot_of_json sample_env (snapshot_document (Some sample_scenario)) = Inr (Some sample_scenario)"
    using sample_scenario_ok by (intro snapshot_of_document) simp
  from scenario_roundtrip [OF this, of JNull sample_scenario] show ?thesis by blast
qed

text \<open>C16: unless sensitive content is enabled, an upload does not depend on the answers of the agent, the error texts or
  the messages of the evaluators: results that differ only there send the same request and get the same outcome
  from every server.\<close>

theorem upload_private:
  assumes "\<not> sk_include_sensitive client" and "map public_result rs = map public_result rs'"
  shows "upload_shard env client opener run_id i rs summary lease = upload_shard env client opener run_id i rs' summary lease"
  using shard_payload_public [OF assms(1), of run_id rs summary] shard_payload_public [OF assms(1), of run_id rs' summary] assms(2)
  by (simp add: upload_shard_def)

definition sample_client :: result_sink_config where
  "sample_client = \<lparr>sk_base_url = ''https://api'', sk_write_token = ''t'', sk_include_sensitive = False, sk_timeout_seconds = Fin 30\<rparr>"

definition sample_result :: case_result where
  "sample_result =
     \<lparr>cr_case_id = ''a'', cr_iteration = 0, cr_success = True, cr_latency_ms = 1, cr_failure_kind = [], cr_failure_category = [],
      cr_error_code = [], cr_attempts = [], cr_usage_complete = True, cr_output = ''ok'', cr_error = None, cr_input_tokens = Some 3,
      cr_output_tokens = Some 2, cr_model_call_count = Some 1, cr_tool_call_count = 0, cr_tool_path = [], cr_assertions = [],
      cr_input_cost_usd = None, cr_output_cost_usd = None, cr_cost_usd = None, cr_provider_error_code = [],
      cr_in_call_retry_count = 0\<rparr>"

definition sample_summary :: run_summary where
  "sample_summary =
     \<lparr>rs_run_id = ''r'', rs_shard_index = 0, rs_shard_count = 1, rs_duration_ms = 1, rs_total = 1, rs_succeeded = 1, rs_failed = 0,
      rs_success_rate = 1, rs_error_rate = 0, rs_p95_latency_ms = 1, rs_input_tokens = 3, rs_output_tokens = 2,
      rs_thresholds_passed = True, rs_threshold_failures = [], rs_model_call_count = Some 1, rs_tool_call_count = 0,
      rs_model_calls_per_successful_agent = Some 1, rs_tool_calls_per_successful_agent = Some 0, rs_input_cost_usd = None,
      rs_output_cost_usd = None, rs_cost_usd = None, rs_usage_complete = True\<rparr>"

theorem upload_private_witness:
  "upload_shard sample_env sample_client (\<lambda>rq. Responds (int (length (rq_url rq))) (Inr [])) ''r'' 0
     [sample_result\<lparr>cr_output := ''secret''\<rparr>] sample_summary None =
   upload_shard sample_env sample_client (\<lambda>rq. Responds (int (length (rq_url rq))) (Inr [])) ''r'' 0
     [sample_result] sample_summary None"
  by (rule upload_private) (simp_all add: sample_client_def public_result_def)

section \<open>Requests that the server answers\<close>

text \<open>A payload without a foreign object can be printed, so a request fails only if the server or the network does.\<close>

fun serializable :: "json \<Rightarrow> bool" where
  "serializable (JList vs) = list_all serializable vs"
| "serializable (JObj d) = list_all (\<lambda>(k, v). serializable v) d"
| "serializable (JOpaque t) = False"
| "serializable _ = True"

lemma rmap_list_total: "(\<And>x. x \<in> set xs \<Longrightarrow> \<exists>y. f x = Inr y) \<Longrightarrow> \<exists>ys. rmap_list f xs = Inr ys"
proof (induction xs)
  case (Cons x xs)
  then obtain y ys where "f x = Inr y" "rmap_list f xs = Inr ys" by fastforce
  then show ?case by simp
qed simp

lemma json_dumps_serializable: "serializable v \<Longrightarrow> \<exists>s. json_dumps frep v = Inr s"
proof (induction v rule: serializable.induct)
  case (1 vs)
  then have "\<exists>ts. rmap_list (json_dumps frep) vs = Inr ts" by (intro rmap_list_total) (auto simp: list_all_iff)
  then show ?case by auto
next
  case (2 d)
  then have "\<exists>ts. rmap_list (\<lambda>(k, v). rbind (json_dumps frep v) (\<lambda>t. Inr (json_string k @ '':'' @ t))) d = Inr ts"
    by (intro rmap_list_total) (fastforce simp: list_all_iff)
  then show ?case by auto
qed auto

lemma serializable_parts [simp]:
  "serializable (opt_int i)" "serializable (opt_float x)"
  "list_all (\<lambda>(k, v). serializable v) (field_if c k v) \<longleftrightarrow> (c \<longrightarrow> serializable v)"
  "list_all serializable (map JStr ss)" "list_all serializable (map JInt is)"
  by (simp_all add: opt_int_def opt_float_def field_if_def list_all_iff split: option.splits)

lemma serializable_result [simp]: "serializable (attempt_payload a)" "serializable (outcome_payload b oc)"
  by (simp_all add: attempt_payload_def outcome_payload_def split: option.splits)

lemma serializable_case [simp]: "serializable (case_payload client run_id r)"
  by (simp add: case_payload_def list_all_iff [of _ "map _ _"] split: option.splits)

lemma serializable_shard: "serializable (shard_payload client run_id rs summary)"
  by (simp add: shard_payload_def list_all_iff [of _ "map _ _"])

lemma serializable_rule [simp]: "serializable (rule_payload r)"
  by (simp add: rule_payload_def)

lemma serializable_scenario [simp]: "serializable (scenario_payload sc)"
  by (simp add: scenario_payload_def scenario_document_def list_all_iff [of _ "map _ _"])

lemma serializable_reliability [simp]: "serializable (reliability_payload rl)"
  by (simp add: reliability_payload_def Let_def split: option.splits)

lemma serializable_run: "serializable (run_payload config n)"
  by (simp add: run_payload_def Let_def split: option.splits)

lemma put_served:
  assumes "serializable payload" "\<And>rq. opener rq = Responds status (Inr body)"
  shows "http_put env client opener path key payload headers = Inr ()"
  using json_dumps_serializable [OF assms(1), of "ce_frep env"] assms(2) by (auto simp: http_put_def lift_sink_def)

lemma client_served:
  assumes "\<And>rq. opener rq = Responds status (Inr body)"
  shows "register_run env client opener config n = Inr ()"
    "upload_shard env client opener run_id i rs summary lease = Inr ()"
  using assms by (auto simp: register_run_def upload_shard_def intro: put_served serializable_run serializable_shard)

text \<open>
  A reply that is no JSON does not become a \<open>ResultSinkError\<close>: the error of \<open>json.loads\<close> leaves the client. So does
  the error of a rate limit whose body is an array.
\<close>

lemma post_invalid_body:
  assumes "json_dumps (ce_frep env) payload = Inr sent" "\<And>rq. opener rq = Responds 200 (Inr body)"
    "body \<noteq> []" "ce_loads env body = Inl message"
  shows "http_post env client opener path payload = Inl (SinkRaises (ValueError message))"
  using assms by (simp add: http_post_def lift_sink_def loads_body_def)

lemma busy_array_body:
  assumes "body \<noteq> []" "ce_loads env body = Inr (JList vs)"
  shows "\<exists>m. busy_of_body env (Inr body) = SinkRaises (AttributeError m)"
  using assms by (simp add: busy_of_body_def loads_body_def as_dict_def)

end
