(* ===== verification/Chat.thy ===== *)
theory Chat
  imports Web Faults
begin

text \<open>
  \<open>worker/src/agentstorm_worker/adapters/openai_compatible.py\<close>: the chat-completions adapter, that is the
  ledger of one run, the reading of a completion, the classification of a status, the retry of a rate
  limit and the tool loop.

  One run is an interaction tree. It makes HTTP posts, calls tool handlers, sleeps and calls the lifecycle;
  the answers are given by the environment, so a theorem about the tree holds for every endpoint and every
  handler. \<open>json.loads\<close> is a field of the environment record, as are the text of a float, the date parser
  of \<open>Retry-After\<close> with the clock, and the API key of the process.
\<close>

section \<open>Data\<close>

record chat_tool =
  ct_name :: string
  ct_description :: string
  ct_parameters :: "json dict"

definition tool_schema :: "chat_tool \<Rightarrow> json" where
  "tool_schema t =
     JObj [(''type'', JStr ''function''),
           (''function'', JObj [(''name'', JStr (ct_name t)), (''description'', JStr (ct_description t)),
                            (''parameters'', JObj (ct_parameters t))])]"

record chat_env =
  ch_loads :: "string \<Rightarrow> string + json"
  ch_frep :: "rat \<Rightarrow> string"
  ch_parse_date :: "string \<Rightarrow> rat option"
  ch_openai_api_key :: string

definition MAX_RESPONSE_BYTES :: nat where "MAX_RESPONSE_BYTES = 2000000"
definition RETRYABLE_HTTP_STATUSES :: "int list" where "RETRYABLE_HTTP_STATUSES = [429]"
definition DEFAULT_HTTP_RETRY_ATTEMPTS :: int where "DEFAULT_HTTP_RETRY_ATTEMPTS = 3"
definition DEFAULT_HTTP_RETRY_INITIAL_SECONDS :: rat where "DEFAULT_HTTP_RETRY_INITIAL_SECONDS = 1 / 2"
definition DEFAULT_HTTP_RETRY_MAX_SECONDS :: rat where "DEFAULT_HTTP_RETRY_MAX_SECONDS = 8"
definition UNKNOWN_CALL_INPUT_TOKENS :: int where "UNKNOWN_CALL_INPUT_TOKENS = 8192"
definition UNKNOWN_CALL_OUTPUT_TOKENS :: int where "UNKNOWN_CALL_OUTPUT_TOKENS = 8192"
definition PROVIDER_ERROR_CODE_KEY :: string where "PROVIDER_ERROR_CODE_KEY = ''agentstorm.provider.error_code''"
definition FINISH_REASON_KEY :: string where "FINISH_REASON_KEY = ''agentstorm.provider.finish_reason''"
definition RATE_LIMIT_EVENTS_KEY :: string where "RATE_LIMIT_EVENTS_KEY = ''agentstorm.provider.rate_limit_events''"
definition RATE_LIMIT_CODES_KEY :: string where "RATE_LIMIT_CODES_KEY = ''agentstorm.provider.rate_limit_codes''"

section \<open>The ledger\<close>

record rate_limit_event =
  re_status :: int
  re_code :: string

record ledger =
  lg_model_calls :: int
  lg_input_tokens :: int
  lg_output_tokens :: int
  lg_usage_known :: bool
  lg_unknown_calls :: int
  lg_rate_limit_events :: "rate_limit_event list"

definition new_ledger :: ledger where
  "new_ledger = \<lparr>lg_model_calls = 0, lg_input_tokens = 0, lg_output_tokens = 0, lg_usage_known = True,
     lg_unknown_calls = 0, lg_rate_limit_events = []\<rparr>"

definition note_retryable :: "ledger \<Rightarrow> int \<Rightarrow> string \<Rightarrow> ledger" where
  "note_retryable l status code =
     l\<lparr>lg_rate_limit_events := lg_rate_limit_events l @ [\<lparr>re_status = status, re_code = code\<rparr>]\<rparr>"

definition add_usage :: "ledger \<Rightarrow> (int \<times> int) option \<Rightarrow> ledger" where
  "add_usage l usage =
     (case usage of
        None \<Rightarrow> l\<lparr>lg_usage_known := False\<rparr>
      | Some (i, out) \<Rightarrow> l\<lparr>lg_input_tokens := lg_input_tokens l + i, lg_output_tokens := lg_output_tokens l + out\<rparr>)"

definition charge_unknown_call :: "ledger \<Rightarrow> int \<Rightarrow> int \<Rightarrow> bool \<times> ledger" where
  "charge_unknown_call l input_tokens output_tokens =
     (let l = l\<lparr>lg_unknown_calls := lg_unknown_calls l + 1\<rparr>
      in if \<not> lg_usage_known l then (False, l)
         else (True, l\<lparr>lg_input_tokens := lg_input_tokens l + input_tokens,
                       lg_output_tokens := lg_output_tokens l + output_tokens\<rparr>))"

text \<open>
  The response of a ledger. The override of the model-call count, which no caller of the file passes,
  is an option of the value it would set.
\<close>

definition ledger_response :: "ledger \<Rightarrow> string \<Rightarrow> int option option \<Rightarrow> adapter_response" where
  "ledger_response l output model_calls =
     (let codes = filter (\<lambda>c. c \<noteq> []) (map re_code (lg_rate_limit_events l));
          metadata =
            (if lg_unknown_calls l \<noteq> 0 then [(''agentstorm.usage.unknown_calls'', JInt (lg_unknown_calls l))] else [])
            @ (if lg_rate_limit_events l \<noteq> []
               then [(RATE_LIMIT_EVENTS_KEY, JInt (int (length (lg_rate_limit_events l))))]
                    @ (if codes \<noteq> [] then [(RATE_LIMIT_CODES_KEY, JList (map JStr codes))] else [])
               else [])
      in \<lparr>ar_output = output,
          ar_input_tokens = (if lg_usage_known l then Some (lg_input_tokens l) else None),
          ar_output_tokens = (if lg_usage_known l then Some (lg_output_tokens l) else None),
          ar_model_call_count = (case model_calls of None \<Rightarrow> Some (lg_model_calls l) | Some c \<Rightarrow> c),
          ar_tool_call_count = None, ar_metadata = metadata\<rparr>)"

section \<open>Errors\<close>

definition chat_error ::
  "string \<Rightarrow> string \<Rightarrow> string \<Rightarrow> bool \<Rightarrow> bool \<Rightarrow> ledger \<Rightarrow> bool \<Rightarrow> json dict \<Rightarrow> execution_error" where
  "chat_error code category failure_kind ambiguous safe_to_retry l usage_complete metadata =
     (let response = ledger_response l [] None;
          response = (if metadata \<noteq> [] then response\<lparr>ar_metadata := dict_update (ar_metadata response) metadata\<rparr> else response)
      in (ExecutionError category code failure_kind)
           \<lparr>ee_ambiguous := ambiguous, ee_safe_to_retry := safe_to_retry, ee_response := Some response,
            ee_usage_complete := usage_complete\<rparr>)"

definition priced_unknown :: "ledger \<Rightarrow> string \<Rightarrow> int \<Rightarrow> int \<Rightarrow> string \<Rightarrow> json dict \<Rightarrow> execution_error" where
  "priced_unknown l code input_allowance output_allowance failure_kind metadata =
     (case charge_unknown_call l input_allowance output_allowance of
        (usage_complete, l) \<Rightarrow> chat_error code ''provider'' failure_kind True False l usage_complete metadata)"

definition status_error :: "int \<Rightarrow> ledger \<Rightarrow> int \<Rightarrow> int \<Rightarrow> json option \<Rightarrow> string \<Rightarrow> execution_error" where
  "status_error status l input_allowance output_allowance body api_key =
     (let provider_code = allowlisted_provider_code body api_key;
          metadata = (if provider_code \<noteq> [] then [(PROVIDER_ERROR_CODE_KEY, JStr provider_code)] else [])
      in if status = 429 then chat_error ''rate_limited'' ''provider'' ''provider'' False True l (lg_usage_known l) metadata
         else if status = 408 then priced_unknown l ''timeout'' input_allowance output_allowance ''timeout'' metadata
         else if 300 \<le> status \<and> status < 400 then
           priced_unknown l ''http_redirect'' input_allowance output_allowance ''provider'' metadata
         else if 500 \<le> status \<and> status \<le> 599 then
           priced_unknown l ''http_5xx'' input_allowance output_allowance ''provider'' metadata
         else if 400 \<le> status \<and> status \<le> 499 then
           chat_error ''http_4xx'' ''provider'' ''provider'' False False l (lg_usage_known l) metadata
         else priced_unknown l ''unknown_error'' input_allowance output_allowance ''provider'' metadata)"

section \<open>Reading a completion\<close>

definition token_count :: "json \<Rightarrow> int option" where
  "token_count value =
     (case value of
        JInt i \<Rightarrow> if 0 \<le> i then Some i else None
      | JFloat (Fin x) \<Rightarrow> if of_int \<lfloor>x\<rfloor> = x \<and> 0 \<le> x \<and> x \<le> 2 ^ 53 then Some \<lfloor>x\<rfloor> else None
      | _ \<Rightarrow> None)"

definition usage_of_json :: "json \<Rightarrow> (int \<times> int) option" where
  "usage_of_json value =
     (case value of
        JObj d \<Rightarrow>
          (case (token_count (obj_get_default d ''prompt_tokens'' (obj_get d ''input_tokens'')),
                 token_count (obj_get_default d ''completion_tokens'' (obj_get d ''output_tokens''))) of
             (Some i, Some out) \<Rightarrow> Some (i, out)
           | _ \<Rightarrow> None)
      | _ \<Rightarrow> None)"

definition parse_completion :: "json option \<Rightarrow> (json dict \<times> (int \<times> int) option \<times> string) res" where
  "parse_completion body =
     (case body of
        Some (JObj d) \<Rightarrow>
          (case obj_get d ''choices'' of
             JList (JObj choice # _) \<Rightarrow>
               (case obj_get choice ''message'' of
                  JObj message \<Rightarrow>
                    rbind (case obj_get choice ''finish_reason'' of
                             JNull \<Rightarrow> Inr []
                           | JStr s \<Rightarrow> Inr s
                           | _ \<Rightarrow> Inl (ValueError ''finish_reason is invalid'')) (\<lambda>finish_reason.
                    rbind (case obj_get message ''tool_calls'' of
                             JNull \<Rightarrow> Inr []
                           | JList calls \<Rightarrow> Inr [(''tool_calls'', JList calls)]
                           | _ \<Rightarrow> Inl (ValueError ''tool_calls is not an array'')) (\<lambda>calls.
                    Inr ([(''role'', JStr ''assistant''), (''content'', obj_get message ''content'')] @ calls,
                         usage_of_json (obj_get d ''usage''), finish_reason)))
                | _ \<Rightarrow> Inl (ValueError ''completion message is missing''))
           | _ \<Rightarrow> Inl (ValueError ''completion choices are missing''))
      | _ \<Rightarrow> Inl (ValueError ''completion body is not an object''))"

text \<open>The name, the arguments and the id of a call; the three \<open>None\<close> of the source are one.\<close>

definition parse_tool_call :: "chat_env \<Rightarrow> json \<Rightarrow> (string \<times> json dict \<times> string) option" where
  "parse_tool_call env call =
     (case call of
        JObj c \<Rightarrow>
          (case obj_get c ''function'' of
             JObj fn \<Rightarrow>
               (case (obj_get fn ''name'', obj_get c ''id'') of
                  (JStr name, JStr call_id) \<Rightarrow>
                    if name = [] \<or> call_id = [] then None
                    else
                      (case obj_get_default fn ''arguments'' (JStr ''{}'') of
                         JStr raw \<Rightarrow>
                           if raw = [] then Some (name, [], call_id)
                           else (case ch_loads env raw of
                                   Inr (JObj arguments) \<Rightarrow> Some (name, arguments, call_id)
                                 | _ \<Rightarrow> None)
                       | JObj arguments \<Rightarrow> Some (name, arguments, call_id)
                       | _ \<Rightarrow> None)
                | _ \<Rightarrow> None)
           | _ \<Rightarrow> None)
      | _ \<Rightarrow> None)"

fun text_parts :: "json list \<Rightarrow> string option" where
  "text_parts [] = Some []"
| "text_parts (JStr s # items) = map_option (\<lambda>t. s @ t) (text_parts items)"
| "text_parts (JObj d # items) =
     (case obj_get d ''text'' of JStr s \<Rightarrow> map_option (\<lambda>t. s @ t) (text_parts items) | _ \<Rightarrow> None)"
| "text_parts (_ # items) = None"

definition message_text :: "json \<Rightarrow> string option" where
  "message_text value = (case value of JStr s \<Rightarrow> Some s | JList items \<Rightarrow> text_parts items | _ \<Rightarrow> None)"

definition output_allowance :: "json dict \<Rightarrow> int" where
  "output_allowance fs =
     (case obj_get_default fs ''max_tokens'' (JInt UNKNOWN_CALL_OUTPUT_TOKENS) of
        JInt n \<Rightarrow> if n < 1 then UNKNOWN_CALL_OUTPUT_TOKENS else n
      | _ \<Rightarrow> UNKNOWN_CALL_OUTPUT_TOKENS)"

section \<open>The adapter\<close>

record chat_options =
  co_instructions :: string
  co_tools :: "chat_tool list"
  co_api_key :: "string option"
  co_max_model_calls :: int
  co_request_timeout_seconds :: pyfloat
  co_request_fields :: json
  co_agent_name :: string
  co_unknown_input_tokens :: json
  co_max_http_attempts :: json
  co_retry_initial_backoff_seconds :: json
  co_retry_max_backoff_seconds :: json

text \<open>The defaults of the constructor's keyword arguments.\<close>

definition default_options :: chat_options where
  "default_options =
     \<lparr>co_instructions = [], co_tools = [], co_api_key = None, co_max_model_calls = 8,
      co_request_timeout_seconds = Fin 120, co_request_fields = JNull, co_agent_name = ''openai-compatible'',
      co_unknown_input_tokens = JInt UNKNOWN_CALL_INPUT_TOKENS, co_max_http_attempts = JInt DEFAULT_HTTP_RETRY_ATTEMPTS,
      co_retry_initial_backoff_seconds = JFloat (Fin DEFAULT_HTTP_RETRY_INITIAL_SECONDS),
      co_retry_max_backoff_seconds = JFloat (Fin DEFAULT_HTTP_RETRY_MAX_SECONDS)\<rparr>"

record chat_adapter =
  ca_model :: string
  ca_url :: string
  ca_instructions :: string
  ca_tools :: "string list"
  ca_tool_schemas :: "json list"
  ca_api_key :: "string option"
  ca_max_model_calls :: int
  ca_timeout :: pyfloat
  ca_extra :: "json dict"
  ca_agent_name :: string
  ca_unknown_input_tokens :: int
  ca_unknown_output_tokens :: int
  ca_max_http_attempts :: int
  ca_retry_initial :: pyfloat
  ca_retry_max :: pyfloat

text \<open>The number an int or a float stands for; a bool does not count.\<close>

definition number_value :: "json \<Rightarrow> pyfloat option" where
  "number_value v = (case v of JInt i \<Rightarrow> Some (Fin (of_int i)) | JFloat x \<Rightarrow> Some x | _ \<Rightarrow> None)"

definition backoff_ok :: "json \<Rightarrow> json \<Rightarrow> bool" where
  "backoff_ok initial maximum =
     (case (number_value initial, number_value maximum) of
        (Some lo, Some hi) \<Rightarrow>
          \<not> (fl_lt lo (Fin 0) \<or> fl_lt hi lo \<or> fl_lt (Fin (of_int MAX_HTTP_RETRY_WAIT_SECONDS)) hi)
      | _ \<Rightarrow> False)"

definition positive_int :: "json \<Rightarrow> int \<Rightarrow> string \<Rightarrow> int res" where
  "positive_int v maximum message =
     (case v of JInt n \<Rightarrow> raise_if (\<not> (1 \<le> n \<and> n \<le> maximum)) (ValueError message) (Inr n) | _ \<Rightarrow> Inl (ValueError message))"

definition openai_compatible_adapter ::
  "(string \<Rightarrow> url_parts res) \<Rightarrow> (rat \<Rightarrow> string) \<Rightarrow> string \<Rightarrow> string \<Rightarrow> chat_options \<Rightarrow> chat_adapter res" where
  "openai_compatible_adapter urlsplit frep model base_url options =
     rbind (validate_pinned_model model) (\<lambda>_.
     rbind (validate_base_url urlsplit base_url) (\<lambda>_.
     raise_if (co_max_model_calls options < 1 \<or> 32 < co_max_model_calls options)
       (ValueError ''max_model_calls must be between 1 and 32'')
     (raise_if (fl_le (co_request_timeout_seconds options) (Fin 0)) (ValueError ''request_timeout_seconds must be positive'')
     (rbind (case co_unknown_input_tokens options of
               JInt n \<Rightarrow> raise_if (n < 1) (ValueError ''unknown_input_tokens must be a positive integer'') (Inr n)
             | _ \<Rightarrow> Inl (ValueError ''unknown_input_tokens must be a positive integer'')) (\<lambda>unknown_input_tokens.
      rbind (positive_int (co_max_http_attempts options) MAX_HTTP_RETRY_ATTEMPTS
               ''max_http_attempts must be between 1 and 16'') (\<lambda>max_http_attempts.
      raise_if (\<not> backoff_ok (co_retry_initial_backoff_seconds options) (co_retry_max_backoff_seconds options))
        (ValueError ''retry backoff must be non-negative and capped'')
      (rbind (validate_request_fields frep [] (co_request_fields options)) (\<lambda>extra.
       raise_if (\<not> distinct (map ct_name (co_tools options)) \<or> [] \<in> set (map ct_name (co_tools options)))
         (ValueError ''tool names must be unique and non-empty'')
       (rbind (py_float (co_retry_initial_backoff_seconds options)) (\<lambda>retry_initial.
        rbind (py_float (co_retry_max_backoff_seconds options)) (\<lambda>retry_max.
        Inr \<lparr>ca_model = model, ca_url = chat_completions_url base_url, ca_instructions = co_instructions options,
             ca_tools = map ct_name (co_tools options), ca_tool_schemas = map tool_schema (co_tools options),
             ca_api_key = co_api_key options, ca_max_model_calls = co_max_model_calls options,
             ca_timeout = co_request_timeout_seconds options, ca_extra = extra, ca_agent_name = co_agent_name options,
             ca_unknown_input_tokens = unknown_input_tokens, ca_unknown_output_tokens = output_allowance extra,
             ca_max_http_attempts = max_http_attempts, ca_retry_initial = retry_initial, ca_retry_max = retry_max\<rparr>)))))))))))"

section \<open>Runs as trees\<close>

text \<open>
  What opening the request gives: a status with the \<open>Retry-After\<close> header and the bytes read; a status whose
  body cannot be read; a \<open>TimeoutError\<close>; a \<open>URLError\<close>, with whether its reason is a timeout; another
  \<open>OSError\<close> or \<open>HTTPException\<close>; any other exception; or the end of the attempt around it.
\<close>

datatype wire_answer =
    WReplies int "string option" string
  | WUnread int
  | WTimeout
  | WUrlError bool
  | WConnection
  | WRaises py_exc
  | WExpired
  | WCancelled

text \<open>A tool handler returns, raises an \<open>ExecutionError\<close>, a \<open>TypeError\<close> or another exception, or is stopped.\<close>

datatype tool_answer =
    ToolReturns json
  | ToolExecutionError execution_error
  | ToolTypeError
  | ToolException
  | ToolExpired
  | ToolCancelled

datatype chat_run =
    ChatReturns adapter_response
  | ChatRaises py_exc
  | ChatTimesOut
  | ChatCancelled
  | ChatPost http_request "wire_answer \<Rightarrow> chat_run"
  | ChatTool string "json dict" "tool_answer \<Rightarrow> chat_run"
  | ChatSleep pyfloat "answer \<Rightarrow> chat_run"
  | ChatCall adapter_call "answer \<Rightarrow> chat_run"

definition raise_error :: "execution_error \<Rightarrow> chat_run" where
  "raise_error e = ChatRaises (execution_exc e)"

text \<open>What follows an await that the code does not guard.\<close>

definition chat_after :: "chat_run \<Rightarrow> answer \<Rightarrow> chat_run" where
  "chat_after rest a = (case a of Done \<Rightarrow> rest | Raised x \<Rightarrow> ChatRaises x | Expired \<Rightarrow> ChatTimesOut | Cancelled \<Rightarrow> ChatCancelled)"

text \<open>A call of the lifecycle, when one was given.\<close>

definition chat_notify :: "bool \<Rightarrow> adapter_call \<Rightarrow> chat_run \<Rightarrow> chat_run" where
  "chat_notify given c rest = (if given then ChatCall c (chat_after rest) else rest)"

section \<open>Posting\<close>

text \<open>\<open>json.dumps(v, ensure_ascii=False)\<close> with its default separators.\<close>

fun json_dumps_spaced :: "(rat \<Rightarrow> string) \<Rightarrow> json \<Rightarrow> string res" where
  "json_dumps_spaced frep (JList vs) =
     rbind (rmap_list (json_dumps_spaced frep) vs) (\<lambda>ts. Inr (''['' @ join_str '', '' ts @ '']''))"
| "json_dumps_spaced frep (JObj d) =
     rbind (rmap_list (\<lambda>(k, v). rbind (json_dumps_spaced frep v) (\<lambda>t. Inr (json_string k @ '': '' @ t))) d)
       (\<lambda>ts. Inr (''{'' @ join_str '', '' ts @ ''}''))"
| "json_dumps_spaced frep v = json_dumps frep v"

definition unpriced :: "chat_adapter \<Rightarrow> string \<Rightarrow> ledger \<Rightarrow> string \<Rightarrow> execution_error" where
  "unpriced ca code l failure_kind =
     priced_unknown l code (ca_unknown_input_tokens ca) (ca_unknown_output_tokens ca) failure_kind []"

text \<open>The parsed body, when the bytes are a JSON object of at most the maximal size.\<close>

definition body_of_bytes :: "chat_env \<Rightarrow> string \<Rightarrow> json option" where
  "body_of_bytes env bytes =
     (let downloaded = take (MAX_RESPONSE_BYTES + 1) bytes
      in if MAX_RESPONSE_BYTES < length downloaded \<or> downloaded = [] then None
         else case ch_loads env downloaded of Inr (JObj d) \<Rightarrow> Some (JObj d) | _ \<Rightarrow> None)"

definition post_request :: "chat_env \<Rightarrow> chat_adapter \<Rightarrow> json \<Rightarrow> string \<Rightarrow> http_request res" where
  "post_request env ca payload api_key =
     rbind (json_dumps_spaced (ch_frep env) payload) (\<lambda>raw.
     Inr \<lparr>rq_method = ''POST'', rq_url = ca_url ca,
          rq_headers = [(''Accept'', ''application/json''), (''Content-Type'', ''application/json''),
                        (''User-Agent'', ''agentstorm-worker'')]
                       @ (if api_key \<noteq> [] then [(''Authorization'', ''Bearer '' @ api_key)] else []),
          rq_data = utf8_bytes raw\<rparr>)"

definition chat_post :: "chat_env \<Rightarrow> chat_adapter \<Rightarrow> json \<Rightarrow> string \<Rightarrow> ledger \<Rightarrow>
    (int \<Rightarrow> json option \<Rightarrow> string option \<Rightarrow> chat_run) \<Rightarrow> chat_run" where
  "chat_post env ca payload api_key l k =
     (case post_request env ca payload api_key of
        Inl e \<Rightarrow> ChatRaises (exc_of_error e)
      | Inr request \<Rightarrow>
          ChatPost request (\<lambda>a.
            case a of
              WReplies status headers bytes \<Rightarrow> k status (body_of_bytes env bytes) headers
            | WUnread status \<Rightarrow> raise_error (unpriced ca ''connection_error'' l ''provider'')
            | WTimeout \<Rightarrow> raise_error (unpriced ca ''timeout'' l ''timeout'')
            | WUrlError reason_timeout \<Rightarrow>
                if reason_timeout then raise_error (unpriced ca ''timeout'' l ''timeout'')
                else raise_error (unpriced ca ''connection_error'' l ''provider'')
            | WConnection \<Rightarrow> raise_error (unpriced ca ''connection_error'' l ''provider'')
            | WRaises x \<Rightarrow> ChatRaises x
            | WExpired \<Rightarrow> ChatTimesOut
            | WCancelled \<Rightarrow> ChatCancelled))"

text \<open>\<open>tries\<close> counts the posts made before; the loop ends because it is bounded by \<open>max_http_attempts\<close>.\<close>

function post_with_retry :: "chat_env \<Rightarrow> chat_adapter \<Rightarrow> nat \<Rightarrow> json \<Rightarrow> string \<Rightarrow> ledger \<Rightarrow>
    (int \<Rightarrow> json option \<Rightarrow> ledger \<Rightarrow> chat_run) \<Rightarrow> chat_run" where
  "post_with_retry env ca tries payload api_key l k =
     chat_post env ca payload api_key l (\<lambda>status body headers.
       if status \<notin> set RETRYABLE_HTTP_STATUSES then k status body l
       else
         (let l = note_retryable l status (allowlisted_provider_code body api_key)
          in if ca_max_http_attempts ca \<le> int (Suc tries) then k status body l
             else ChatSleep
                    (retry_delay_seconds (Suc tries) (retry_after_seconds (ch_parse_date env) headers)
                       (ca_retry_initial ca) (ca_retry_max ca))
                    (chat_after (post_with_retry env ca (Suc tries) payload api_key l k))))"
  by pat_completeness auto
termination
  by (relation "measure (\<lambda>(env, ca, tries, payload, api_key, l, k). nat (ca_max_http_attempts ca) - tries)") auto

declare post_with_retry.simps [simp del]

section \<open>Tools\<close>

text \<open>\<open>json.dumps(result, ensure_ascii=False, sort_keys=True, separators=(",", ":"))\<close>.\<close>

fun insert_key :: "string \<times> json \<Rightarrow> json dict \<Rightarrow> json dict" where
  "insert_key e [] = [e]"
| "insert_key e (f # d) = (if str_less (fst f) (fst e) then f # insert_key e d else e # f # d)"

fun sort_keys :: "json \<Rightarrow> json" where
  "sort_keys (JList vs) = JList (map sort_keys vs)"
| "sort_keys (JObj d) = JObj (foldr insert_key (map (\<lambda>(k, v). (k, sort_keys v)) d) [])"
| "sort_keys v = v"

definition model_behavior :: "ledger \<Rightarrow> execution_error" where
  "model_behavior l = chat_error ''model_behavior'' ''provider'' ''provider'' True False l (lg_usage_known l) []"

definition chat_tool_error :: "ledger \<Rightarrow> execution_error" where
  "chat_tool_error l =
     (ExecutionError ''tool'' ''tool_error'' ''tool'')
       \<lparr>ee_response := Some (ledger_response l [] None), ee_usage_complete := lg_usage_known l\<rparr>"

fun execute_tools :: "chat_env \<Rightarrow> chat_adapter \<Rightarrow> bool \<Rightarrow> json list \<Rightarrow> json list \<Rightarrow> ledger \<Rightarrow> int \<Rightarrow>
    (json list \<Rightarrow> int \<Rightarrow> chat_run) \<Rightarrow> chat_run" where
  "execute_tools env ca given [] messages l executed k = k messages executed"
| "execute_tools env ca given (call # calls) messages l executed k =
     (case parse_tool_call env call of
        None \<Rightarrow> raise_error (model_behavior l)
      | Some (name, arguments, call_id) \<Rightarrow>
          if name \<notin> set (ca_tools ca) then raise_error (model_behavior l)
          else
            (let event = (ToolLifecycleEvent call_id name)
                   \<lparr>te_call_id := Some call_id, te_agent_name := Some (ca_agent_name ca), te_arguments := JObj arguments\<rparr>;
                 failed = (\<lambda>error_type x. chat_notify given (ToolFinished (event\<lparr>te_result := JNull\<rparr>) error_type) x)
             in chat_notify given (ToolStarted event)
                  (ChatTool name arguments (\<lambda>a.
                     case a of
                       ToolReturns result \<Rightarrow>
                         (case json_dumps (ch_frep env) (sort_keys result) of
                            Inl _ \<Rightarrow> failed ''model_behavior'' (raise_error (model_behavior l))
                          | Inr dumped \<Rightarrow>
                              chat_notify given (ToolFinished (event\<lparr>te_result := result\<rparr>) [])
                                (execute_tools env ca given calls
                                   (messages @ [JObj [(''role'', JStr ''tool''), (''tool_call_id'', JStr call_id),
                                                      (''content'', JStr dumped)]]) l (executed + 1) k))
                     | ToolExecutionError e \<Rightarrow> failed (ee_code e) (raise_error e)
                     | ToolTypeError \<Rightarrow> failed ''model_behavior'' (raise_error (model_behavior l))
                     | ToolException \<Rightarrow> failed ''tool_error'' (raise_error (chat_tool_error l))
                     | ToolExpired \<Rightarrow> ChatTimesOut
                     | ToolCancelled \<Rightarrow> ChatCancelled))))"

section \<open>The loop\<close>

definition chat_payload :: "chat_adapter \<Rightarrow> json list \<Rightarrow> json" where
  "chat_payload ca messages =
     (let payload = dict_update
            [(''model'', JStr (ca_model ca)), (''messages'', JList messages), (''stream'', JBool False)] (ca_extra ca)
      in JObj (if ca_tool_schemas ca \<noteq> []
               then dict_set (dict_set payload ''tools'' (JList (ca_tool_schemas ca))) ''tool_choice'' (JStr ''auto'')
               else payload))"

definition max_turns_exceeded :: "ledger \<Rightarrow> chat_run" where
  "max_turns_exceeded l =
     raise_error (chat_error ''max_turns_exceeded'' ''evaluation'' ''assertion'' False False l (lg_usage_known l) [])"

text \<open>The answer of a message without tool calls.\<close>

definition final_answer :: "ledger \<Rightarrow> json dict \<Rightarrow> string \<Rightarrow> int \<Rightarrow> chat_run" where
  "final_answer l message finish tool_count =
     (let answer_text = message_text (obj_get message ''content'')
      in if finish = ''length'' \<and> py_strip (case answer_text of None \<Rightarrow> [] | Some t \<Rightarrow> t) = [] then
           raise_error (chat_error ''output_truncated'' ''provider'' ''provider'' False False l (lg_usage_known l)
             [(FINISH_REASON_KEY, JStr finish)])
         else case answer_text of
           None \<Rightarrow> raise_error (model_behavior l)
         | Some t \<Rightarrow>
             (let response = (ledger_response l t None)\<lparr>ar_tool_call_count := Some tool_count\<rparr>
              in ChatReturns
                   (if finish \<noteq> [] then
                      response\<lparr>ar_metadata := dict_set (ar_metadata response) FINISH_REASON_KEY (JStr finish)\<rparr>
                    else response)))"

text \<open>What follows an answered post; \<open>next\<close> is the next pass of the loop.\<close>

definition chat_turn :: "chat_env \<Rightarrow> chat_adapter \<Rightarrow> bool \<Rightarrow> string \<Rightarrow> json list \<Rightarrow> int \<Rightarrow>
    (json list \<Rightarrow> ledger \<Rightarrow> int \<Rightarrow> chat_run) \<Rightarrow> int \<Rightarrow> json option \<Rightarrow> ledger \<Rightarrow> chat_run" where
  "chat_turn env ca given api_key messages tool_count next status body l =
     (if status \<noteq> 200 then
        raise_error (status_error status l (ca_unknown_input_tokens ca) (ca_unknown_output_tokens ca) body api_key)
      else
        (let l = l\<lparr>lg_model_calls := lg_model_calls l + 1\<rparr>
         in case parse_completion body of
              Inl _ \<Rightarrow>
                raise_error (chat_error ''malformed_response'' ''provider'' ''provider'' True False
                  (l\<lparr>lg_usage_known := False\<rparr>) False [])
            | Inr (message, usage, finish_reason) \<Rightarrow>
                (let l = add_usage l usage; finish = allowlisted_token (JStr finish_reason)
                 in case obj_get message ''tool_calls'' of
                      JList (call # calls) \<Rightarrow>
                        if ca_max_model_calls ca \<le> lg_model_calls l then max_turns_exceeded l
                        else execute_tools env ca given (call # calls) (messages @ [JObj message]) l 0
                               (\<lambda>messages executed. next messages l (tool_count + executed))
                    | _ \<Rightarrow> final_answer l message finish tool_count)))"

text \<open>
  One pass of the loop completes one model call or ends the run, so \<open>max_model_calls\<close> passes are enough
  fuel: the guard of the loop is tested before the fuel runs out.
\<close>

primrec chat_loop :: "nat \<Rightarrow> chat_env \<Rightarrow> chat_adapter \<Rightarrow> bool \<Rightarrow> string \<Rightarrow> json list \<Rightarrow> ledger \<Rightarrow> int \<Rightarrow> chat_run" where
  "chat_loop 0 env ca given api_key messages l tool_count = max_turns_exceeded l"
| "chat_loop (Suc n) env ca given api_key messages l tool_count =
     (if \<not> lg_model_calls l < ca_max_model_calls ca then max_turns_exceeded l
      else
        post_with_retry env ca 0 (chat_payload ca messages) api_key l
          (chat_turn env ca given api_key messages tool_count (chat_loop n env ca given api_key)))"

definition chat_run_tree :: "chat_env \<Rightarrow> chat_adapter \<Rightarrow> bool \<Rightarrow> test_case \<Rightarrow> chat_run" where
  "chat_run_tree env ca given c =
     (let api_key = (case ca_api_key ca of Some k \<Rightarrow> k | None \<Rightarrow> ch_openai_api_key env);
          messages = (if ca_instructions ca \<noteq> []
                      then [JObj [(''role'', JStr ''system''), (''content'', JStr (ca_instructions ca))]] else [])
                     @ [JObj [(''role'', JStr ''user''), (''content'', JStr (tc_prompt c))]]
      in chat_loop (nat (ca_max_model_calls ca)) env ca given (py_strip api_key) messages new_ledger 0)"

section \<open>Every path of a run\<close>

text \<open>
  Along a path, the answers of the endpoint are collected. A property of the answers and the outcome holds on
  every path if it holds whatever the environment answers; the exceptions that the environment itself
  raises into the adapter (from the lifecycle, a tool handler or the opener) are the ones that are \<open>good\<close>,
  and every wait before a retry satisfies \<open>wait\<close>.
\<close>

primrec all_paths :: "(wire_answer list \<Rightarrow> outcome \<Rightarrow> bool) \<Rightarrow> (py_exc \<Rightarrow> bool) \<Rightarrow> (pyfloat \<Rightarrow> bool) \<Rightarrow>
    wire_answer list \<Rightarrow> chat_run \<Rightarrow> bool" where
  "all_paths P good wait h (ChatReturns r) = P h (ORet r)"
| "all_paths P good wait h (ChatRaises x) = P h (ORaise x)"
| "all_paths P good wait h ChatTimesOut = P h OTimeout"
| "all_paths P good wait h ChatCancelled = P h OCancelled"
| "all_paths P good wait h (ChatPost q k) =
     (\<forall>a. (case a of WRaises x \<Rightarrow> good x | _ \<Rightarrow> True) \<longrightarrow> all_paths P good wait (h @ [a]) (k a))"
| "all_paths P good wait h (ChatTool name args k) =
     (\<forall>a. (case a of ToolExecutionError e \<Rightarrow> good (execution_exc e) | _ \<Rightarrow> True) \<longrightarrow> all_paths P good wait h (k a))"
| "all_paths P good wait h (ChatSleep d k) =
     (wait d \<and> (\<forall>a. (case a of Raised x \<Rightarrow> good x | _ \<Rightarrow> True) \<longrightarrow> all_paths P good wait h (k a)))"
| "all_paths P good wait h (ChatCall c k) =
     (\<forall>a. (case a of Raised x \<Rightarrow> good x | _ \<Rightarrow> True) \<longrightarrow> all_paths P good wait h (k a))"

lemma all_paths_mono:
  assumes "all_paths P good wait h t" and "\<And>h oc. P h oc \<Longrightarrow> Q h oc"
  shows "all_paths Q good wait h t"
  using assms(1) by (induction t arbitrary: h) (auto simp: assms(2))

text \<open>The contract of the retry policy, for an exception object and however it is classified.\<close>

definition exc_contract :: "py_exc \<Rightarrow> bool" where
  "exc_contract x \<longleftrightarrow> (\<forall>agents openai. exc_ok agents openai x)"

lemma exc_contract_execution [simp]: "exc_contract (execution_exc e) \<longleftrightarrow> error_ok e"
  by (simp add: exc_contract_def)

lemma exc_contract_error [simp]: "exc_contract (exc_of_error e)"
  by (simp add: exc_contract_def exc_ok_def exc_of_error_def classify_other_ok)

text \<open>The answers with a given status.\<close>

definition replied :: "int \<Rightarrow> wire_answer \<Rightarrow> bool" where
  "replied s a = (case a of WReplies status _ _ \<Rightarrow> status = s | _ \<Rightarrow> False)"

definition tally :: "int \<Rightarrow> wire_answer list \<Rightarrow> nat" where
  "tally s h = length (filter (replied s) h)"

lemma tally_simps [simp]: "tally s [] = 0" "tally s (h @ [a]) = tally s h + (if replied s a then 1 else 0)"
  by (simp_all add: tally_def)

text \<open>The rate limits that a response reports.\<close>

definition reported_rate_limits :: "adapter_response \<Rightarrow> int" where
  "reported_rate_limits r = (case dict_get (ar_metadata r) RATE_LIMIT_EVENTS_KEY of Some (JInt n) \<Rightarrow> n | _ \<Rightarrow> 0)"

definition chat_path_ok :: "(py_exc \<Rightarrow> bool) \<Rightarrow> chat_adapter \<Rightarrow> wire_answer list \<Rightarrow> outcome \<Rightarrow> bool" where
  "chat_path_ok good ca h oc \<longleftrightarrow>
     int (length h) \<le> ca_max_model_calls ca * ca_max_http_attempts ca \<and>
     (\<forall>a \<in> set (butlast h). replied 200 a \<or> replied 429 a) \<and>
     (case oc of
        ORet r \<Rightarrow> usage_ok r \<and> (\<forall>a \<in> set h. replied 200 a \<or> replied 429 a) \<and>
                  ar_model_call_count r = Some (int (tally 200 h)) \<and> reported_rate_limits r = int (tally 429 h)
      | ORaise x \<Rightarrow> good x
      | _ \<Rightarrow> True)"

section \<open>The invariant of the loop\<close>

definition wait_ok :: "chat_adapter \<Rightarrow> pyfloat \<Rightarrow> bool" where
  "wait_ok ca d \<longleftrightarrow> (\<exists>x hi. d = Fin x \<and> ca_retry_max ca = Fin hi \<and> 0 \<le> x \<and> x \<le> hi)"

definition chat_ok :: "chat_adapter \<Rightarrow> bool" where
  "chat_ok ca \<longleftrightarrow>
     1 \<le> ca_max_model_calls ca \<and> ca_max_model_calls ca \<le> 32 \<and>
     1 \<le> ca_max_http_attempts ca \<and> ca_max_http_attempts ca \<le> 16 \<and>
     1 \<le> ca_unknown_input_tokens ca \<and> 1 \<le> ca_unknown_output_tokens ca \<and>
     (\<exists>lo hi. ca_retry_initial ca = Fin lo \<and> ca_retry_max ca = Fin hi \<and> 0 \<le> lo \<and> lo \<le> hi \<and> hi \<le> 300)"

text \<open>Between two calls: every post so far was answered by a completion or by a rate limit, and the ledger counts both.\<close>

definition settled :: "wire_answer list \<Rightarrow> ledger \<Rightarrow> bool" where
  "settled h l \<longleftrightarrow>
     (\<forall>a \<in> set h. replied 200 a \<or> replied 429 a) \<and> int (tally 200 h) = lg_model_calls l \<and>
     tally 429 h = length (lg_rate_limit_events l) \<and> 0 \<le> lg_input_tokens l \<and> 0 \<le> lg_output_tokens l"

lemma settled_retryable: "settled h l \<Longrightarrow> replied 429 a \<Longrightarrow> settled (h @ [a]) (note_retryable l s c)"
  by (auto simp: settled_def note_retryable_def replied_def split: wire_answer.splits)

lemma note_retryable_calls [simp]: "lg_model_calls (note_retryable l s c) = lg_model_calls l"
  by (simp add: note_retryable_def)

lemma token_count_nonneg: "token_count v = Some n \<Longrightarrow> 0 \<le> n"
  by (auto simp: token_count_def split: json.splits pyfloat.splits if_splits)

lemma usage_nonneg: "usage_of_json v = Some (i, out) \<Longrightarrow> 0 \<le> i \<and> 0 \<le> out"
  by (auto simp: usage_of_json_def split: json.splits option.splits dest: token_count_nonneg)

lemma settled_completion:
  assumes "settled h l" "replied 200 a" "\<And>i out. usage = Some (i, out) \<Longrightarrow> 0 \<le> i \<and> 0 \<le> out"
  shows "settled (h @ [a]) (add_usage (l\<lparr>lg_model_calls := lg_model_calls l + 1\<rparr>) usage)"
  using assms by (auto simp: settled_def add_usage_def replied_def split: option.splits wire_answer.splits)

lemma double_of_rat_nonneg:
  assumes "0 \<le> x"
  shows "double_of_rat x = PosInf \<or> (\<exists>y. double_of_rat x = Fin y \<and> 0 \<le> y)"
proof -
  have "0 \<le> round_half_even (x * 2 ^ 1074)" using assms by (intro round_half_even_nonneg) (rule mult_nonneg_nonneg, simp_all)
  then have "0 \<le> (of_int (round_half_even (x * 2 ^ 1074)) / 2 ^ 1074 :: rat)"
    by (intro divide_nonneg_nonneg) (simp_all del: power_numeral)
  then show ?thesis
    unfolding double_of_rat_def using assms f64_nonneg [of x] by (auto simp only: if_splits not_less split: if_split)
qed

lemma retry_delay_ok:
  assumes "chat_ok ca"
  shows "wait_ok ca (retry_delay_seconds n after (ca_retry_initial ca) (ca_retry_max ca))"
proof -
  obtain lo hi where r: "ca_retry_initial ca = Fin lo" "ca_retry_max ca = Fin hi" "0 \<le> lo" "lo \<le> hi"
    using assms by (auto simp: chat_ok_def)
  have cap: "\<exists>x. fl_min (Fin hi) d = Fin x \<and> 0 \<le> x \<and> x \<le> hi" if "d = PosInf \<or> (\<exists>y. d = Fin y \<and> 0 \<le> y)" for d
    using that r by (auto simp: fl_min_def)
  have "\<exists>x. retry_delay_seconds n after (Fin lo) (Fin hi) = Fin x \<and> 0 \<le> x \<and> x \<le> hi"
  proof (cases "after")
    case None
    have "0 \<le> lo * 2 ^ (n - 1)" using r(3) by simp
    then show ?thesis using cap double_of_rat_nonneg by (simp add: None retry_delay_seconds_def)
  next
    case (Some s)
    then show ?thesis using cap [of "Fin (max 0 s)"] by (simp add: retry_delay_seconds_def)
  qed
  then show ?thesis using r by (simp add: wait_ok_def)
qed

lemma all_paths_after:
  assumes "all_paths P good wait h t" "\<And>x. good x \<Longrightarrow> P h (ORaise x)" "P h OTimeout" "P h OCancelled"
    "case a of Raised x \<Rightarrow> good x | _ \<Rightarrow> True"
  shows "all_paths P good wait h (chat_after t a)"
  using assms by (auto simp: chat_after_def split: answer.splits)

lemma all_paths_notify:
  assumes "all_paths P good wait h t" "\<And>x. good x \<Longrightarrow> P h (ORaise x)" "P h OTimeout" "P h OCancelled"
  shows "all_paths P good wait h (chat_notify given c t)"
  using assms all_paths_after [of P good wait h t] by (simp add: chat_notify_def)

text \<open>The errors the adapter builds keep the contract.\<close>

lemma chat_errors_ok [simp]:
  "error_ok (unpriced ca code l kind)" "error_ok (model_behavior l)" "error_ok (chat_tool_error l)"
  "error_ok (status_error status l i out body key)"
  "error_ok (chat_error code ''provider'' kind amb False l u m)"
  "error_ok (chat_error code ''evaluation'' kind False False l u m)"
  by (simp_all add: unpriced_def priced_unknown_def status_error_def model_behavior_def chat_tool_error_def chat_error_def
      error_ok_def ExecutionError_def Let_def charge_unknown_call_def split: prod.splits)

text \<open>What holds once a post was made and its answer ends the run without a response.\<close>

definition room :: "chat_adapter \<Rightarrow> wire_answer list \<Rightarrow> ledger \<Rightarrow> bool" where
  "room ca h l \<longleftrightarrow>
     int (length h) \<le> (lg_model_calls l + 1) * ca_max_http_attempts ca \<and> lg_model_calls l < ca_max_model_calls ca \<and>
     0 \<le> lg_model_calls l"

definition handed_on :: "chat_adapter \<Rightarrow> int \<Rightarrow> wire_answer list \<Rightarrow> wire_answer \<Rightarrow> int \<Rightarrow> ledger \<Rightarrow> bool" where
  "handed_on ca calls h a status l \<longleftrightarrow>
     replied status a \<and> (if status = 429 then settled (h @ [a]) l else settled h l) \<and>
     (\<forall>a \<in> set h. replied 200 a \<or> replied 429 a) \<and> room ca (h @ [a]) l \<and> lg_model_calls l = calls"

definition loop_ok :: "chat_adapter \<Rightarrow> wire_answer list \<Rightarrow> ledger \<Rightarrow> int \<Rightarrow> bool" where
  "loop_ok ca h l tool_count \<longleftrightarrow>
     settled h l \<and> 0 \<le> tool_count \<and> 0 \<le> lg_model_calls l \<and> lg_model_calls l \<le> ca_max_model_calls ca \<and>
     int (length h) \<le> lg_model_calls l * ca_max_http_attempts ca"

lemma room_bound:
  assumes "chat_ok ca" "room ca h l"
  shows "int (length h) \<le> ca_max_model_calls ca * ca_max_http_attempts ca"
proof -
  have "(lg_model_calls l + 1) * ca_max_http_attempts ca \<le> ca_max_model_calls ca * ca_max_http_attempts ca"
    using assms by (intro mult_right_mono) (auto simp: room_def chat_ok_def)
  then show ?thesis using assms by (simp add: room_def)
qed

lemma reported_ledger:
  "reported_rate_limits ((ledger_response l out None)\<lparr>ar_tool_call_count := c\<rparr>) = int (length (lg_rate_limit_events l))"
  by (simp add: reported_rate_limits_def ledger_response_def dict_get_def RATE_LIMIT_EVENTS_KEY_def RATE_LIMIT_CODES_KEY_def Let_def)

lemma reported_set_finish:
  "reported_rate_limits (r\<lparr>ar_metadata := dict_set (ar_metadata r) FINISH_REASON_KEY v\<rparr>) = reported_rate_limits r"
  by (simp add: reported_rate_limits_def dict_get_set RATE_LIMIT_EVENTS_KEY_def FINISH_REASON_KEY_def)

lemma add_usage_calls [simp]: "lg_model_calls (add_usage l u) = lg_model_calls l"
  by (auto simp: add_usage_def split: option.splits)

lemma parse_completion_usage: "parse_completion body = Inr (m, Some (i, out), f) \<Longrightarrow> 0 \<le> i \<and> 0 \<le> out"
  by (auto simp: parse_completion_def split: option.splits json.splits list.splits dest: usage_nonneg)

text \<open>A completion makes the ledger ready for the next pass of the loop.\<close>

lemma loop_completed:
  assumes "handed_on ca calls h a 200 l" "0 \<le> tool_count" "parse_completion body = Inr (m, usage, f)"
  shows "loop_ok ca (h @ [a]) (add_usage (l\<lparr>lg_model_calls := lg_model_calls l + 1\<rparr>) usage) tool_count"
proof -
  have "settled (h @ [a]) (add_usage (l\<lparr>lg_model_calls := lg_model_calls l + 1\<rparr>) usage)"
    using assms parse_completion_usage [of body m] by (intro settled_completion) (auto simp: handed_on_def)
  then show ?thesis using assms by (auto simp: loop_ok_def handed_on_def room_def)
qed

text \<open>
  Which exceptions may leave a run: at least those that keep the contract of the retry policy. The lemmas are
  instantiated with exactly those, and with all exceptions where only the responses matter.
\<close>

locale error_policy =
  fixes good :: "py_exc \<Rightarrow> bool"
  assumes contract_good: "exc_contract x \<Longrightarrow> good x"
begin

lemma own_errors [simp]: "error_ok e \<Longrightarrow> good (execution_exc e)" "good (exc_of_error e')"
  by (simp_all add: contract_good)

lemma path_ok_stopped:
  assumes "chat_ok ca" "room ca h l" "\<forall>a \<in> set (butlast h). replied 200 a \<or> replied 429 a"
  shows "good x \<Longrightarrow> chat_path_ok good ca h (ORaise x)" "chat_path_ok good ca h OTimeout" "chat_path_ok good ca h OCancelled"
  using assms room_bound by (auto simp: chat_path_ok_def)

lemma all_paths_post:
  assumes "chat_ok ca" "\<forall>a \<in> set h. replied 200 a \<or> replied 429 a" "room ca h l'" "\<And>a. room ca (h @ [a]) l'"
    and "\<And>status headers bytes. all_paths (chat_path_ok good ca) good wait (h @ [WReplies status headers bytes])
      (k status (body_of_bytes env bytes) headers)"
  shows "all_paths (chat_path_ok good ca) good wait h (chat_post env ca payload key l k)"
proof (cases "post_request env ca payload key")
  case (Inl e)
  moreover have "\<forall>a \<in> set (butlast h). replied 200 a \<or> replied 429 a" using assms(2) by (meson in_set_butlastD)
  ultimately show ?thesis using path_ok_stopped(1) [OF assms(1,3)] by (simp add: chat_post_def)
next
  case (Inr q)
  have "\<forall>b \<in> set (butlast (h @ [a])). replied 200 b \<or> replied 429 b" for a using assms(2) by simp
  note stopped = path_ok_stopped [OF assms(1) assms(4) this]
  show ?thesis
    using assms(5) stopped by (auto simp: chat_post_def Inr raise_error_def split: wire_answer.splits)
qed

text \<open>
  The retry of a rate limit: what is handed on is an answer that is no rate limit, or the last rate limit
  allowed; every answer before it was a rate limit.
\<close>

lemma all_paths_post_with_retry:
  assumes "chat_ok ca" "0 \<le> calls" "calls < ca_max_model_calls ca"
    and k: "\<And>h' a status body l'. handed_on ca calls h' a status l' \<Longrightarrow>
      all_paths (chat_path_ok good ca) good (wait_ok ca) (h' @ [a]) (k status body l')"
    and "settled h l" "lg_model_calls l = calls" "int tries < ca_max_http_attempts ca"
    and "int (length h) \<le> calls * ca_max_http_attempts ca + int tries"
  shows "all_paths (chat_path_ok good ca) good (wait_ok ca) h (post_with_retry env ca tries payload key l k)"
  using assms(5-8)
proof (induction "nat (ca_max_http_attempts ca) - tries" arbitrary: tries h l rule: less_induct)
  case less
  have rooms: "room ca h l" "\<And>a. room ca (h @ [a]) l"
    using less.prems assms(2,3) by (auto simp: room_def algebra_simps)
  have ok: "\<forall>a \<in> set h. replied 200 a \<or> replied 429 a" using less.prems(1) by (simp add: settled_def)
  have "all_paths (chat_path_ok good ca) good (wait_ok ca) (h @ [WReplies status headers bytes])
      (if status \<notin> set RETRYABLE_HTTP_STATUSES then k status (body_of_bytes env bytes) l
       else let l = note_retryable l status (allowlisted_provider_code (body_of_bytes env bytes) key)
            in if ca_max_http_attempts ca \<le> int (Suc tries) then k status (body_of_bytes env bytes) l
               else ChatSleep (retry_delay_seconds (Suc tries) (retry_after_seconds (ch_parse_date env) headers)
                      (ca_retry_initial ca) (ca_retry_max ca))
                    (chat_after (post_with_retry env ca (Suc tries) payload key l k)))"
    (is "all_paths _ _ _ (h @ [?a]) _") for status headers bytes
  proof (cases "status = 429")
    case False
    then have "handed_on ca calls h ?a status l"
      using less.prems ok rooms by (simp add: handed_on_def replied_def)
    then show ?thesis using False k by (simp add: RETRYABLE_HTTP_STATUSES_def)
  next
    case True
    define l' where "l' = note_retryable l 429 (allowlisted_provider_code (body_of_bytes env bytes) key)"
    have st: "settled (h @ [?a]) l'" "lg_model_calls l' = calls"
      using less.prems True settled_retryable [of h l ?a] by (simp_all add: l'_def replied_def)
    then have on: "handed_on ca calls h ?a status l'"
      using True ok rooms(2) [of ?a] less.prems(2) by (simp add: handed_on_def replied_def room_def)
    have "all_paths (chat_path_ok good ca) good (wait_ok ca) (h @ [?a])
        (chat_after (post_with_retry env ca (Suc tries) payload key l' k) x)"
      if "int (Suc tries) < ca_max_http_attempts ca" "case x of Raised y \<Rightarrow> good y | _ \<Rightarrow> True" for x
    proof (rule all_paths_after [OF _ _ _ _ that(2)])
      show "all_paths (chat_path_ok good ca) good (wait_ok ca) (h @ [?a]) (post_with_retry env ca (Suc tries) payload key l' k)"
        using less.prems that(1) st by (intro less.hyps) auto
    qed (use path_ok_stopped [OF assms(1) rooms(2)] ok in simp_all)
    then show ?thesis
      using True k [OF on] retry_delay_ok [OF assms(1)] by (simp add: RETRYABLE_HTTP_STATUSES_def Let_def l'_def [symmetric] not_le)
  qed
  then show ?case
    by (subst post_with_retry.simps) (intro all_paths_post [OF assms(1) ok rooms])
qed

lemma all_paths_execute_tools:
  assumes k: "\<And>ms n. executed \<le> n \<Longrightarrow> all_paths P good wait h (k ms n)"
    and stop: "\<And>x. good x \<Longrightarrow> P h (ORaise x)" "P h OTimeout" "P h OCancelled"
  shows "all_paths P good wait h (execute_tools env ca given calls messages l executed k)"
  using k
proof (induction calls arbitrary: messages executed)
  case Nil
  then show ?case by simp
next
  case (Cons call calls)
  have ih: "all_paths P good wait h (execute_tools env ca given calls ms l (executed + 1) k)" for ms
    using Cons.prems by (intro Cons.IH) auto
  show ?case
  proof (cases "parse_tool_call env call")
    case None
    then show ?thesis using stop by (simp add: raise_error_def)
  next
    case (Some t)
    obtain name args i where t: "t = (name, args, i)" by (metis surj_pair)
    note notified = all_paths_notify [where P = P and good = good and h = h, OF _ stop]
    have "all_paths P good wait h (raise_error e)" if "good (execution_exc e)" for e
      using that stop by (simp add: raise_error_def)
    then show ?thesis
      using stop ih by (auto simp: Some t Let_def intro!: notified split: tool_answer.splits sum.splits)
  qed
qed

lemma path_ok_answer:
  assumes "chat_ok ca" "settled h l" "0 \<le> tool_count" "room ca h l'"
  shows "all_paths (chat_path_ok good ca) good wait h (final_answer l message finish tool_count)"
proof -
  have "\<forall>a \<in> set (butlast h). replied 200 a \<or> replied 429 a"
    using assms(2) by (auto simp: settled_def dest: in_set_butlastD)
  note stopped = path_ok_stopped(1) [OF assms(1,4) this]
  have ret: "chat_path_ok good ca h (ORet r)"
    if "ar_model_call_count r = Some (lg_model_calls l)" "reported_rate_limits r = int (length (lg_rate_limit_events l))" "usage_ok r"
    for r
    using that assms room_bound by (auto simp: chat_path_ok_def settled_def dest: in_set_butlastD)
  have "usage_ok (r\<lparr>ar_metadata := m\<rparr>) \<longleftrightarrow> usage_ok r" for r m by (simp add: usage_ok_def)
  then have "chat_path_ok good ca h (ORet (if finish \<noteq> [] then
      r\<lparr>ar_metadata := dict_set (ar_metadata r) FINISH_REASON_KEY (JStr finish)\<rparr> else r))"
    if "ar_model_call_count r = Some (lg_model_calls l)" "reported_rate_limits r = int (length (lg_rate_limit_events l))" "usage_ok r"
    for r
    using that by (simp add: ret reported_set_finish)
  moreover have "usage_ok ((ledger_response l t None)\<lparr>ar_tool_call_count := Some tool_count\<rparr>)"
    "ar_model_call_count ((ledger_response l t None)\<lparr>ar_tool_call_count := Some tool_count\<rparr>) = Some (lg_model_calls l)" for t
    using assms(2,3) by (simp_all add: usage_ok_def ledger_response_def Let_def settled_def)
  ultimately have "chat_path_ok good ca h (ORet (let r = (ledger_response l t None)\<lparr>ar_tool_call_count := Some tool_count\<rparr>
      in if finish \<noteq> [] then r\<lparr>ar_metadata := dict_set (ar_metadata r) FINISH_REASON_KEY (JStr finish)\<rparr> else r))" for t
    unfolding Let_def using reported_ledger by metis
  then show ?thesis
    using stopped by (cases "message_text (obj_get message ''content'')") (simp_all add: final_answer_def Let_def raise_error_def)
qed

lemma loop_exhausted:
  assumes "chat_ok ca" "loop_ok ca h l tool_count"
  shows "all_paths (chat_path_ok good ca) good wait h (max_turns_exceeded l)"
proof -
  have "lg_model_calls l * ca_max_http_attempts ca \<le> ca_max_model_calls ca * ca_max_http_attempts ca"
    using assms by (intro mult_right_mono) (auto simp: loop_ok_def chat_ok_def)
  then show ?thesis
    using assms
    by (auto simp: max_turns_exceeded_def raise_error_def chat_path_ok_def loop_ok_def settled_def dest: in_set_butlastD)
qed

lemma all_paths_chat_turn:
  assumes "chat_ok ca" and on: "handed_on ca calls h a status l" and tc: "0 \<le> tool_count"
    and rest: "\<And>ms l' t. loop_ok ca (h @ [a]) l' t \<Longrightarrow>
      all_paths (chat_path_ok good ca) good wait (h @ [a]) (rest ms l' t)"
  shows "all_paths (chat_path_ok good ca) good wait (h @ [a])
    (chat_turn env ca given key messages tool_count rest status body l)"
proof -
  let ?paths = "all_paths (chat_path_ok good ca) good wait (h @ [a])"
  have "room ca (h @ [a]) l" "\<forall>b \<in> set (butlast (h @ [a])). replied 200 b \<or> replied 429 b"
    using on by (simp_all add: handed_on_def)
  note stop = path_ok_stopped [OF assms(1) this] and answer = path_ok_answer [OF assms(1) _ _ this(1)]
  show ?thesis
  proof (cases "status = 200 \<and> (\<exists>r. parse_completion body = Inr r)")
    case False
    then show ?thesis using stop by (auto simp: chat_turn_def raise_error_def Let_def split: sum.splits)
  next
    case True
    then obtain m usage f where p: "status = 200" "parse_completion body = Inr (m, usage, f)" by auto
    define l2 where "l2 = add_usage (l\<lparr>lg_model_calls := lg_model_calls l + 1\<rparr>) usage"
    have ok: "loop_ok ca (h @ [a]) l2 t" if "0 \<le> t" for t
      unfolding l2_def using on p that by (intro loop_completed [OF _ _ p(2)]) auto
    have "?paths (max_turns_exceeded l2)" using loop_exhausted [OF assms(1) ok [OF tc]] by simp
    moreover have "?paths (final_answer l2 m x tool_count)" for x
      using answer ok [OF tc] tc by (simp add: loop_ok_def)
    moreover have "?paths (execute_tools env ca given cs ms l2 0 (\<lambda>ms n. rest ms l2 (tool_count + n)))" for cs ms
      using rest ok tc stop by (intro all_paths_execute_tools) auto
    ultimately show ?thesis
      by (simp add: chat_turn_def p l2_def [symmetric] Let_def del: execute_tools.simps split: json.splits list.splits)
  qed
qed

lemma all_paths_chat_loop:
  assumes "chat_ok ca" "loop_ok ca h l tool_count"
  shows "all_paths (chat_path_ok good ca) good (wait_ok ca) h (chat_loop n env ca given key messages l tool_count)"
  using assms(2)
proof (induction n arbitrary: h messages l tool_count)
  case 0
  then show ?case using loop_exhausted [OF assms(1)] by simp
next
  case (Suc n)
  have "all_paths (chat_path_ok good ca) good (wait_ok ca) (h' @ [a])
      (chat_turn env ca given key messages tool_count (chat_loop n env ca given key) status body l')"
    if "handed_on ca (lg_model_calls l) h' a status l'" for h' a status body l'
    using Suc.IH Suc.prems by (intro all_paths_chat_turn [OF assms(1) that]) (simp_all add: loop_ok_def)
  then show ?case
    using Suc.prems assms(1) loop_exhausted [OF assms(1) Suc.prems]
    by (simp add: all_paths_post_with_retry [where calls = "lg_model_calls l"] loop_ok_def chat_ok_def)
qed

lemma all_paths_run:
  assumes "chat_ok ca"
  shows "all_paths (chat_path_ok good ca) good (wait_ok ca) [] (chat_run_tree env ca given c)"
  using assms
  by (simp add: chat_run_tree_def Let_def all_paths_chat_loop loop_ok_def settled_def new_ledger_def chat_ok_def)

end

text \<open>More fuel than \<open>max_model_calls\<close> passes changes nothing: the loop ends by its own guard.\<close>

lemma post_with_retry_cong:
  assumes "\<And>status body l'. lg_model_calls l' = lg_model_calls l \<Longrightarrow> k status body l' = k' status body l'"
  shows "post_with_retry env ca tries payload key l k = post_with_retry env ca tries payload key l k'"
  using assms
proof (induction "nat (ca_max_http_attempts ca) - tries" arbitrary: tries l rule: less_induct)
  case less
  have "post_with_retry env ca (Suc tries) payload key (note_retryable l s c) k =
      post_with_retry env ca (Suc tries) payload key (note_retryable l s c) k'"
    if "int (Suc tries) < ca_max_http_attempts ca" for s c
    using that less.prems by (intro less.hyps) auto
  then show ?case
    using less.prems
    by (subst (1 2) post_with_retry.simps) (auto simp: chat_post_def Let_def not_le fun_eq_iff split: sum.splits wire_answer.splits)
qed

lemma execute_tools_cong:
  assumes "\<And>ms n. k ms n = k' ms n"
  shows "execute_tools env ca given calls ms l n k = execute_tools env ca given calls ms l n k'"
proof -
  have "k = k'" using assms by (intro ext)
  then show ?thesis by simp
qed

lemma chat_turn_cong:
  assumes "\<And>ms l' t. lg_model_calls l' = lg_model_calls l + 1 \<Longrightarrow> rest ms l' t = rest' ms l' t"
  shows "chat_turn env ca given key ms tc rest status body l = chat_turn env ca given key ms tc rest' status body l"
  using assms
  by (simp add: chat_turn_def Let_def del: execute_tools.simps cong: execute_tools_cong split: sum.splits json.splits list.splits)

lemma chat_loop_fuel:
  assumes "ca_max_model_calls ca \<le> lg_model_calls l + int n"
  shows "chat_loop (n + extra) env ca given key messages l tc = chat_loop n env ca given key messages l tc"
  using assms
proof (induction n arbitrary: messages l tc)
  case 0
  then show ?case by (cases extra) simp_all
next
  case (Suc n)
  then show ?case by (auto intro!: post_with_retry_cong chat_turn_cong)
qed

interpretation contract_errors: error_policy exc_contract
  by unfold_locales

interpretation any_errors: error_policy "\<lambda>_. True"
  by unfold_locales simp

section \<open>The adapter inside the runner\<close>

text \<open>
  An environment that answers the n-th post and the n-th tool call, and a wait that is not finite, makes the
  tree a run of the adapter interface; waits and the lifecycle stay calls to the runner.
\<close>

record chat_world =
  wd_post :: "nat \<Rightarrow> http_request \<Rightarrow> wire_answer"
  wd_tool :: "nat \<Rightarrow> string \<Rightarrow> json dict \<Rightarrow> tool_answer"
  wd_sleep :: "pyfloat \<Rightarrow> answer"

primrec chat_embed :: "chat_run \<Rightarrow> chat_world \<Rightarrow> nat \<Rightarrow> nat \<Rightarrow> adapter_run" where
  "chat_embed (ChatReturns r) w p t = Returns r"
| "chat_embed (ChatRaises x) w p t = Raises x"
| "chat_embed ChatTimesOut w p t = TimesOut"
| "chat_embed ChatCancelled w p t = IsCancelled"
| "chat_embed (ChatPost q k) w p t = chat_embed (k (wd_post w p q)) w (Suc p) t"
| "chat_embed (ChatTool name args k) w p t = chat_embed (k (wd_tool w t name args)) w p (Suc t)"
| "chat_embed (ChatSleep d k) w p t =
     (case d of
        Fin x \<Rightarrow> Calls (Sleep x) (\<lambda>a. chat_embed (k a) w p t)
      | _ \<Rightarrow> chat_embed (k (wd_sleep w d)) w p t)"
| "chat_embed (ChatCall c k) w p t = Calls c (\<lambda>a. chat_embed (k a) w p t)"

definition chat_adapter_run :: "chat_env \<Rightarrow> chat_adapter \<Rightarrow> chat_world \<Rightarrow> bool \<Rightarrow> test_case \<Rightarrow> adapter_run" where
  "chat_adapter_run env ca w given c = chat_embed (chat_run_tree env ca given c) w 0 0"

lemma all_returns_embed:
  assumes "all_paths P (\<lambda>_. True) wait h t" and "\<And>h r. P h (ORet r) \<Longrightarrow> Q r"
  shows "all_returns Q (chat_embed t w p n)"
  using assms(1)
proof (induction t arbitrary: h p n)
  case (ChatPost q k)
  have "all_paths P (\<lambda>_. True) wait (h @ [wd_post w p q]) (k (wd_post w p q))"
    using ChatPost.prems by (simp split: wire_answer.splits)
  then show ?case using ChatPost.IH by simp
next
  case (ChatTool name args k)
  have "all_paths P (\<lambda>_. True) wait h (k (wd_tool w n name args))"
    using ChatTool.prems by (simp split: tool_answer.splits)
  then show ?case using ChatTool.IH by simp
next
  case (ChatSleep d k)
  have "all_returns Q (chat_embed (k a) w p n)" for a
    using ChatSleep.prems by (intro ChatSleep.IH [where h = h]) (auto split: answer.splits)
  then show ?case by (simp split: pyfloat.splits)
next
  case (ChatCall c k)
  have "all_returns Q (chat_embed (k a) w p n)" for a
    using ChatCall.prems by (intro ChatCall.IH [where h = h]) (auto split: answer.splits)
  then show ?case by simp
qed (use assms(2) in auto)

lemma chat_adapter_usage:
  assumes "chat_ok ca"
  shows "all_returns usage_ok (chat_adapter_run env ca w given c)"
  unfolding chat_adapter_run_def
  by (rule all_returns_embed [OF any_errors.all_paths_run [OF assms]]) (simp add: chat_path_ok_def)

section \<open>What the constructor accepts\<close>

lemma output_allowance_pos: "1 \<le> output_allowance d"
  by (auto simp: output_allowance_def UNKNOWN_CALL_OUTPUT_TOKENS_def not_less split: json.splits)

lemma positive_int_Inr [simp]: "positive_int v m msg = Inr n \<longleftrightarrow> v = JInt n \<and> 1 \<le> n \<and> n \<le> m"
  by (auto simp: positive_int_def split: json.splits if_splits)

lemma number_value_float:
  assumes "number_value v = Some (Fin x)" "\<bar>x\<bar> \<le> 300" "py_float v = Inr y"
  shows "y = Fin x"
proof (cases v)
  case (JInt i)
  then have "x = of_int i" using assms(1) by (simp add: number_value_def)
  then have "\<bar>i\<bar> \<le> 300" using assms(2) by linarith
  then have "f64 (of_int i) = of_int i" by (intro f64_of_int) simp
  then show ?thesis using assms(3) JInt \<open>x = of_int i\<close> by (auto simp: float_of_int_def Let_def split: if_splits)
qed (use assms in \<open>auto simp: number_value_def\<close>)

text \<open>Of a number that is not NaN, the check of the two backoffs leaves the unit of seconds between 0 and 300.\<close>

lemma backoff_ok_finite:
  assumes "backoff_ok lo hi" "number_value lo \<noteq> Some NaN" "number_value hi \<noteq> Some NaN"
  obtains x y where "number_value lo = Some (Fin x)" "number_value hi = Some (Fin y)" "0 \<le> x" "x \<le> y" "y \<le> 300"
proof -
  obtain a b where ab: "number_value lo = Some a" "number_value hi = Some b"
    using assms(1) by (auto simp: backoff_ok_def split: option.splits)
  show ?thesis
    using assms ab that by (cases a; cases b) (auto simp: backoff_ok_def MAX_HTTP_RETRY_WAIT_SECONDS_def)
qed

lemma openai_compatible_adapter_ok:
  assumes "openai_compatible_adapter urlsplit frep model base_url options = Inr ca"
    "number_value (co_retry_initial_backoff_seconds options) \<noteq> Some NaN"
    "number_value (co_retry_max_backoff_seconds options) \<noteq> Some NaN"
  shows "chat_ok ca"
proof -
  let ?lo = "co_retry_initial_backoff_seconds options" and ?hi = "co_retry_max_backoff_seconds options"
  have "backoff_ok ?lo ?hi" using assms(1) by (auto simp: openai_compatible_adapter_def)
  then obtain x y where xy: "number_value ?lo = Some (Fin x)" "number_value ?hi = Some (Fin y)" "0 \<le> x" "x \<le> y" "y \<le> 300"
    using assms(2,3) by (rule backoff_ok_finite)
  have "py_float ?lo = Inr (ca_retry_initial ca)" "py_float ?hi = Inr (ca_retry_max ca)"
    using assms(1) by (auto simp: openai_compatible_adapter_def)
  then have "ca_retry_initial ca = Fin x" "ca_retry_max ca = Fin y"
    using xy number_value_float [of ?lo x] number_value_float [of ?hi y] by auto
  moreover have "1 \<le> ca_max_model_calls ca \<and> ca_max_model_calls ca \<le> 32" "1 \<le> ca_max_http_attempts ca \<and> ca_max_http_attempts ca \<le> 16"
    "1 \<le> ca_unknown_output_tokens ca"
    using assms(1) output_allowance_pos by (auto simp: openai_compatible_adapter_def MAX_HTTP_RETRY_ATTEMPTS_def)
  moreover have "1 \<le> ca_unknown_input_tokens ca"
    using assms(1) by (auto simp: openai_compatible_adapter_def split: json.splits)
  ultimately show ?thesis using xy by (simp add: chat_ok_def)
qed

section \<open>A concrete adapter\<close>

definition sample_chat :: chat_adapter where
  "sample_chat = projr (openai_compatible_adapter (ce_urlsplit sample_env) (ce_frep sample_env) ''m-1'' ''https://api'' default_options)"

lemma sample_chat_built:
  "openai_compatible_adapter (ce_urlsplit sample_env) (ce_frep sample_env) ''m-1'' ''https://api'' default_options = Inr sample_chat"
proof -
  have "\<not> isl (openai_compatible_adapter (ce_urlsplit sample_env) (ce_frep sample_env) ''m-1'' ''https://api'' default_options)"
    by (simp add: openai_compatible_adapter_def default_options_def sample_env_def sample_url_def validate_pinned_model_def validate_base_url_def
        UNKNOWN_CALL_INPUT_TOKENS_def DEFAULT_HTTP_RETRY_ATTEMPTS_def DEFAULT_HTTP_RETRY_INITIAL_SECONDS_def MAX_HTTP_RETRY_ATTEMPTS_def
        DEFAULT_HTTP_RETRY_MAX_SECONDS_def MAX_HTTP_RETRY_WAIT_SECONDS_def backoff_ok_def number_value_def positive_int_def
        validate_request_fields_def py_isspace_def utf8_len_def utf8_width_def MAX_MODEL_LENGTH_def MAX_URL_LENGTH_def absent_def
        endswith_def rstrip_char_def py_strip_def py_lstrip_def py_rstrip_def)
  then show ?thesis by (simp add: sample_chat_def)
qed

definition sample_chat_env :: chat_env where
  "sample_chat_env = \<lparr>ch_loads = ce_loads sample_env, ch_frep = ce_frep sample_env, ch_parse_date = (\<lambda>_. None), ch_openai_api_key = ''k''\<rparr>"

text \<open>Neither of the two backoffs is NaN.\<close>

definition finite_backoff :: "chat_options \<Rightarrow> bool" where
  "finite_backoff options \<longleftrightarrow>
     number_value (co_retry_initial_backoff_seconds options) \<noteq> Some NaN \<and> number_value (co_retry_max_backoff_seconds options) \<noteq> Some NaN"

lemma default_backoff: "finite_backoff default_options"
  by (simp add: finite_backoff_def default_options_def number_value_def)

section \<open>Properties\<close>

text \<open>C13: whatever the endpoint, the tools and the lifecycle do, a run of an adapter that the constructor accepted posts at most
  \<open>max_model_calls\<close> times \<open>max_http_attempts\<close> requests, hence at most 512, and every wait before a retry is a finite number of
  seconds between 0 and the configured maximum. (The backoffs given to the constructor are not NaN.)\<close>

theorem chat_posts:
  assumes "openai_compatible_adapter urlsplit frep model base_url options = Inr ca" and "finite_backoff options"
  shows "all_paths (\<lambda>answers _. int (length answers) \<le> ca_max_model_calls ca * ca_max_http_attempts ca \<and> length answers \<le> 512)
    (\<lambda>_. True) (wait_ok ca) [] (chat_run_tree env ca given c)"
proof -
  have ok: "chat_ok ca" using assms by (simp add: openai_compatible_adapter_ok finite_backoff_def)
  then have "ca_max_model_calls ca * ca_max_http_attempts ca \<le> 32 * 16" by (intro mult_mono) (auto simp: chat_ok_def)
  then show ?thesis by (intro all_paths_mono [OF any_errors.all_paths_run [OF ok]]) (auto simp: chat_path_ok_def)
qed

theorem chat_posts_witness:
  "all_paths (\<lambda>answers _. int (length answers) \<le> ca_max_model_calls sample_chat * ca_max_http_attempts sample_chat \<and> length answers \<le> 512)
     (\<lambda>_. True) (wait_ok sample_chat) [] (chat_run_tree sample_chat_env sample_chat True (hd sample_cases))"
  by (rule chat_posts [OF sample_chat_built default_backoff])

text \<open>C4: a request is repeated only after the endpoint said that it was not served: on every path, every answer before the last
  is a completion or a rate limit. When the run returns, all of them are, and the response reports exactly as many
  model calls as there were completions, as many rate limits as there were, and no negative number of tokens.\<close>

theorem chat_resend:
  assumes "openai_compatible_adapter urlsplit frep model base_url options = Inr ca" and "finite_backoff options"
  shows "all_paths
    (\<lambda>answers oc. (\<forall>a \<in> set (butlast answers). replied 200 a \<or> replied 429 a) \<and>
       (\<forall>r. oc = ORet r \<longrightarrow> usage_ok r \<and> (\<forall>a \<in> set answers. replied 200 a \<or> replied 429 a) \<and>
          ar_model_call_count r = Some (int (tally 200 answers)) \<and> reported_rate_limits r = int (tally 429 answers)))
    (\<lambda>_. True) (wait_ok ca) [] (chat_run_tree env ca given c)"
proof -
  have "chat_ok ca" using assms by (simp add: openai_compatible_adapter_ok finite_backoff_def)
  from any_errors.all_paths_run [OF this] show ?thesis by (rule all_paths_mono) (auto simp: chat_path_ok_def)
qed

theorem chat_resend_witness:
  "all_paths
    (\<lambda>answers oc. (\<forall>a \<in> set (butlast answers). replied 200 a \<or> replied 429 a) \<and>
       (\<forall>r. oc = ORet r \<longrightarrow> usage_ok r \<and> (\<forall>a \<in> set answers. replied 200 a \<or> replied 429 a) \<and>
          ar_model_call_count r = Some (int (tally 200 answers)) \<and> reported_rate_limits r = int (tally 429 answers)))
    (\<lambda>_. True) (wait_ok sample_chat) [] (chat_run_tree sample_chat_env sample_chat True (hd sample_cases))"
  by (rule chat_resend [OF sample_chat_built default_backoff])

text \<open>C23: every exception that leaves a run keeps the contract of the retry policy (only a rate limit of the
  provider is safe to repeat, never an ambiguous failure, and only the provider and tools fail ambiguously), as long as what the lifecycle, the tool handlers
  and the opener themselves raise into the run keeps it; a run that returns reports a usage that is never negative.\<close>

theorem chat_errors:
  assumes "openai_compatible_adapter urlsplit frep model base_url options = Inr ca" and "finite_backoff options"
  shows "all_paths (\<lambda>_ oc. case oc of ORaise x \<Rightarrow> exc_contract x | ORet r \<Rightarrow> usage_ok r | _ \<Rightarrow> True) exc_contract (wait_ok ca) []
    (chat_run_tree env ca given c)"
proof -
  have "chat_ok ca" using assms by (simp add: openai_compatible_adapter_ok finite_backoff_def)
  from contract_errors.all_paths_run [OF this] show ?thesis
    by (rule all_paths_mono) (auto simp: chat_path_ok_def split: outcome.splits)
qed

theorem chat_errors_witness:
  "all_paths (\<lambda>_ oc. case oc of ORaise x \<Rightarrow> exc_contract x | ORet r \<Rightarrow> usage_ok r | _ \<Rightarrow> True) exc_contract (wait_ok sample_chat) []
     (chat_run_tree sample_chat_env sample_chat True (hd sample_cases))"
  by (rule chat_errors [OF sample_chat_built default_backoff])

text \<open>The check of the backoffs lets NaN pass, because every comparison with it is false.\<close>

lemma nan_backoff_accepted: "backoff_ok (JFloat NaN) (JFloat NaN)"
  by (simp add: backoff_ok_def number_value_def)

end
