(* ===== verification/Agents.thy ===== *)
theory Agents
  imports Faults PyConv "HOL-Library.AList"
begin

text \<open>
  \<open>worker/src/agentstorm_worker/adapters/openai_agents.py\<close>: the hooks that turn the callbacks of the agents
  SDK into lifecycle events, and the adapter around the SDK's runner.

  The SDK is outside. One call of its runner is a tree: it returns a result, raises, is stopped, or calls a
  hook and goes on with what the hook raises into it. An object the hooks are given is what they read of
  it: its identity, its \<open>name\<close> attribute, the name of its class and its \<open>tool_call_id\<close>.
\<close>

section \<open>Hooks\<close>

record sdk_object =
  ob_id :: nat
  ob_name :: json
  ob_class :: string
  ob_tool_call_id :: json

definition optional_text :: "json \<Rightarrow> string option" where
  "optional_text v = (case v of JStr s \<Rightarrow> if s \<noteq> [] then Some s else None | _ \<Rightarrow> None)"

definition named :: "json \<Rightarrow> string \<Rightarrow> string" where
  "named v fallback = (case optional_text v of Some s \<Rightarrow> s | None \<Rightarrow> fallback)"

text \<open>The counter of local invocations and the dictionary of tools that are running.\<close>

record hook_state =
  hs_sequence :: nat
  hs_tools :: "((nat \<times> nat) \<times> tool_lifecycle_event) list"

definition new_hooks :: hook_state where
  "new_hooks = \<lparr>hs_sequence = 1, hs_tools = []\<rparr>"

definition hook_event :: "hook_state \<Rightarrow> sdk_object \<Rightarrow> sdk_object \<Rightarrow> sdk_object \<Rightarrow> tool_lifecycle_event \<times> hook_state" where
  "hook_event s context agent tool =
     (let call_id = optional_text (ob_tool_call_id context);
          event = (\<lambda>invocation_id. (ToolLifecycleEvent invocation_id (named (ob_name tool) (ob_class tool)))
                     \<lparr>te_call_id := call_id, te_agent_name := Some (named (ob_name agent) (ob_class agent))\<rparr>)
      in case call_id of
           Some i \<Rightarrow> (event i, s)
         | None \<Rightarrow> (event (''local-tool-'' @ str_of_nat (hs_sequence s)), s\<lparr>hs_sequence := Suc (hs_sequence s)\<rparr>))"

definition on_tool_start :: "hook_state \<Rightarrow> sdk_object \<Rightarrow> sdk_object \<Rightarrow> sdk_object \<Rightarrow> adapter_call list \<times> hook_state" where
  "on_tool_start s context agent tool =
     (case hook_event s context agent tool of
        (event, s) \<Rightarrow>
          ([ToolStarted event], s\<lparr>hs_tools := AList.update (ob_id context, ob_id tool) event (hs_tools s)\<rparr>))"

definition on_tool_end ::
  "hook_state \<Rightarrow> sdk_object \<Rightarrow> sdk_object \<Rightarrow> sdk_object \<Rightarrow> json \<Rightarrow> adapter_call list \<times> hook_state" where
  "on_tool_end s context agent tool result =
     (let key = (ob_id context, ob_id tool)
      in case map_of (hs_tools s) key of
           Some event \<Rightarrow>
             ([ToolFinished (event\<lparr>te_result := result\<rparr>) []], s\<lparr>hs_tools := AList.delete key (hs_tools s)\<rparr>)
         | None \<Rightarrow>
             (case hook_event s context agent tool of
                (event, s) \<Rightarrow> ([ToolStarted event, ToolFinished (event\<lparr>te_result := result\<rparr>) []], s)))"

definition on_handoff :: "sdk_object \<Rightarrow> sdk_object \<Rightarrow> adapter_call list" where
  "on_handoff from_agent to_agent =
     [HandedOff \<lparr>he_source_agent = named (ob_name from_agent) (ob_class from_agent),
                 he_target_agent = named (ob_name to_agent) (ob_class to_agent)\<rparr>]"

datatype hook_call =
    ToolStart sdk_object sdk_object sdk_object
  | ToolEnd sdk_object sdk_object sdk_object json
  | Handoff sdk_object sdk_object

definition run_hook :: "hook_state \<Rightarrow> hook_call \<Rightarrow> adapter_call list \<times> hook_state" where
  "run_hook s c =
     (case c of
        ToolStart context agent tool \<Rightarrow> on_tool_start s context agent tool
      | ToolEnd context agent tool result \<Rightarrow> on_tool_end s context agent tool result
      | Handoff from_agent to_agent \<Rightarrow> (on_handoff from_agent to_agent, s))"

section \<open>The adapter\<close>

record agents_adapter =
  ag_agent_options :: "json dict"
  ag_run_config :: "json dict"

definition optional_field :: "string \<Rightarrow> json option \<Rightarrow> json dict" where
  "optional_field k v = (case v of None \<Rightarrow> [] | Some w \<Rightarrow> [(k, w)])"

text \<open>\<open>installed\<close> says whether the SDK can be imported; its objects are described by their arguments.\<close>

definition openai_agents_adapter ::
  "bool \<Rightarrow> string \<Rightarrow> string \<Rightarrow> string \<Rightarrow> string \<Rightarrow> json option \<Rightarrow> json option \<Rightarrow> json option \<Rightarrow> agents_adapter res" where
  "openai_agents_adapter installed model base_url name instructions tools output_type model_settings =
     raise_if (model = []) (ValueError ''target.model is required for provider openai-agents'')
     (raise_if (\<not> installed)
       (RuntimeError ''openai-agents is not installed; install agentstorm-worker[openai]'')
     (Inr \<lparr>ag_agent_options =
             [(''name'', JStr name),
              (''instructions'', JStr (if instructions \<noteq> [] then instructions
                 else ''Complete the supplied task accurately. Use concise answers and do not invent tool results.'')),
              (''model'', JStr model)]
             @ optional_field ''tools'' tools @ optional_field ''output_type'' output_type
             @ optional_field ''model_settings'' model_settings,
           ag_run_config =
             [(''trace_include_sensitive_data'', JBool False)]
             @ (if base_url \<noteq> [] then [(''model_provider'', JObj [(''base_url'', JStr base_url)])] else [])\<rparr>))"

text \<open>What the adapter reads of the SDK's result.\<close>

record sdk_result =
  sr_final_output :: json
  sr_input_tokens :: json
  sr_output_tokens :: json
  sr_requests :: json

datatype sdk_run =
    SdkReturns sdk_result
  | SdkRaises py_exc
  | SdkTimesOut
  | SdkCancelled
  | SdkHook hook_call "py_exc option \<Rightarrow> sdk_run"

definition request_count :: "json \<Rightarrow> int option" where
  "request_count v = (case v of JInt i \<Rightarrow> Some i | JBool b \<Rightarrow> Some (if b then 1 else 0) | _ \<Rightarrow> None)"

definition agents_response :: "(json \<Rightarrow> string) \<Rightarrow> sdk_result \<Rightarrow> adapter_response res" where
  "agents_response serialize_output r =
     rbind (py_int (sr_input_tokens r)) (\<lambda>input_tokens.
     rbind (py_int (sr_output_tokens r)) (\<lambda>output_tokens.
     Inr \<lparr>ar_output = serialize_output (sr_final_output r), ar_input_tokens = Some input_tokens,
          ar_output_tokens = Some output_tokens, ar_model_call_count = request_count (sr_requests r),
          ar_tool_call_count = None, ar_metadata = []\<rparr>))"

text \<open>
  The lifecycle calls of one hook, one after the other; an exception of one of them leaves the hook and
  is raised into the SDK.
\<close>

fun calls_of_hook :: "adapter_call list \<Rightarrow> (py_exc option \<Rightarrow> adapter_run) \<Rightarrow> adapter_run" where
  "calls_of_hook [] k = k None"
| "calls_of_hook (c # cs) k =
     Calls c (\<lambda>a. case a of
       Done \<Rightarrow> calls_of_hook cs k
     | Raised x \<Rightarrow> k (Some x)
     | Expired \<Rightarrow> TimesOut
     | Cancelled \<Rightarrow> IsCancelled)"

text \<open>Without a lifecycle no hooks are passed, and the SDK calls none.\<close>

primrec agents_run :: "bool \<Rightarrow> bool \<Rightarrow> (json \<Rightarrow> string) \<Rightarrow> bool \<Rightarrow> sdk_run \<Rightarrow> hook_state \<Rightarrow> adapter_run" where
  "agents_run agents openai serialize given (SdkReturns r) s =
     (case agents_response serialize r of Inl e \<Rightarrow> Raises (exc_of_error e) | Inr response \<Rightarrow> Returns response)"
| "agents_run agents openai serialize given (SdkRaises x) s =
     Raises (execution_exc (classify_adapter_exception agents openai x))"
| "agents_run agents openai serialize given SdkTimesOut s = TimesOut"
| "agents_run agents openai serialize given SdkCancelled s = IsCancelled"
| "agents_run agents openai serialize given (SdkHook c k) s =
     (if given then
        (case run_hook s c of
           (calls, s') \<Rightarrow> calls_of_hook calls (\<lambda>x. agents_run agents openai serialize given (k x) s'))
      else agents_run agents openai serialize given (k None) s)"

section \<open>Hooks start what they finish\<close>

text \<open>
  Over a sequence of callbacks, whatever the SDK calls: every event that is finished was started before, with the
  same invocation, name and agent.
\<close>

fun hook_trace :: "hook_state \<Rightarrow> hook_call list \<Rightarrow> adapter_call list" where
  "hook_trace s [] = []"
| "hook_trace s (c # cs) = (case run_hook s c of (calls, s') \<Rightarrow> calls @ hook_trace s' cs)"

fun starts_before :: "tool_lifecycle_event list \<Rightarrow> adapter_call list \<Rightarrow> bool" where
  "starts_before open_events [] = True"
| "starts_before open_events (ToolStarted e # cs) = starts_before (e # open_events) cs"
| "starts_before open_events (ToolFinished e t # cs) =
     (e\<lparr>te_result := JNull\<rparr> \<in> set open_events \<and> starts_before open_events cs)"
| "starts_before open_events (c # cs) = starts_before open_events cs"

definition running :: "hook_state \<Rightarrow> tool_lifecycle_event set" where
  "running s = snd ` set (hs_tools s)"

lemma hook_event_plain:
  assumes "hook_event s c a t = (e, s')"
  shows "te_result e = JNull" "hs_tools s' = hs_tools s"
  using assms by (auto simp: hook_event_def ToolLifecycleEvent_def Let_def split: option.splits)

lemma result_reset: "te_result e = JNull \<Longrightarrow> e\<lparr>te_result := r, te_result := JNull\<rparr> = e"
  by (cases e) simp

definition hooks_ok :: "hook_state \<Rightarrow> tool_lifecycle_event list \<Rightarrow> bool" where
  "hooks_ok s es \<longleftrightarrow> running s \<subseteq> set es \<and> (\<forall>e \<in> running s. te_result e = JNull)"

lemma snd_update: "snd ` set (AList.update k v al) \<subseteq> insert v (snd ` set al)"
  by (induction al) auto

lemma snd_map_of: "map_of al k = Some v \<Longrightarrow> v \<in> snd ` set al"
  by (force dest: map_of_SomeD)

lemma run_hook_ok:
  assumes "run_hook s c = (calls, s')" "hooks_ok s es"
  obtains es' where "hooks_ok s' es'" "\<And>rest. starts_before es' rest \<Longrightarrow> starts_before es (calls @ rest)"
proof (cases c)
  case (ToolStart x a t)
  obtain e s1 where h: "hook_event s x a t = (e, s1)" by force
  have calls: "calls = [ToolStarted e]" "hs_tools s' = AList.update (ob_id x, ob_id t) e (hs_tools s)"
    using assms(1) hook_event_plain(2) [OF h] by (auto simp: ToolStart run_hook_def on_tool_start_def h)
  then have "running s' \<subseteq> insert e (running s)" by (simp add: running_def snd_update)
  then have "hooks_ok s' (e # es)" using assms(2) hook_event_plain(1) [OF h] by (auto simp: hooks_ok_def)
  then show ?thesis using that calls by simp
next
  case (ToolEnd x a t r)
  show ?thesis
  proof (cases "map_of (hs_tools s) (ob_id x, ob_id t)")
    case (Some e)
    then have "calls = [ToolFinished (e\<lparr>te_result := r\<rparr>) []]" "running s' \<subseteq> running s" "e \<in> running s"
      using assms(1) snd_map_of [OF Some] by (auto simp: ToolEnd run_hook_def on_tool_end_def running_def AList.delete_eq)
    moreover from this have "te_result e = JNull" "e \<in> set es" using assms(2) by (auto simp: hooks_ok_def)
    ultimately show ?thesis using that [of es] assms(2) by (auto simp: hooks_ok_def result_reset)
  next
    case None
    obtain e s1 where h: "hook_event s x a t = (e, s1)" by force
    then have "calls = [ToolStarted e, ToolFinished (e\<lparr>te_result := r\<rparr>) []]" "running s' = running s"
      using assms(1) None hook_event_plain(2) [OF h] by (auto simp: ToolEnd run_hook_def on_tool_end_def running_def)
    then show ?thesis
      using that [of "e # es"] assms(2) hook_event_plain(1) [OF h] by (auto simp: hooks_ok_def result_reset)
  qed
next
  case (Handoff a b)
  then show ?thesis using assms that [of es] by (auto simp: run_hook_def on_handoff_def)
qed

lemma hook_trace_ok: "hooks_ok s es \<Longrightarrow> starts_before es (hook_trace s cs)"
proof (induction cs arbitrary: s es)
  case (Cons c cs)
  obtain calls s' where r: "run_hook s c = (calls, s')" by force
  obtain es' where "hooks_ok s' es'" "\<And>rest. starts_before es' rest \<Longrightarrow> starts_before es (calls @ rest)"
    using run_hook_ok [OF r Cons.prems] by metis
  then show ?case using Cons.IH by (simp add: r)
qed simp

section \<open>Properties\<close>

text \<open>C34: whatever callbacks the SDK makes, in whatever order and for whatever calls, the lifecycle hears of no tool call finishing
  that it has not heard start before, as the same invocation of the same tool by the same agent: an end without a
  start is reported as both.\<close>

theorem hooks_start_first: "starts_before [] (hook_trace new_hooks calls)"
  by (rule hook_trace_ok) (simp add: hooks_ok_def running_def new_hooks_def)

end
