(* ===== verification/Factory.thy ===== *)
theory Factory
  imports Chat Agents
begin

text \<open>
  \<open>worker/src/agentstorm_worker/adapters/__init__.py\<close>: which adapter a target gets. Importing a module is a
  parameter: what the entrypoint's module and function resolve to, and what the factory found there does
  with the context.
\<close>

record adapter_context =
  cx_provider :: string
  cx_model :: string
  cx_base_url :: string
  cx_max_output_tokens :: "int option"
  cx_request_fields :: "json dict"
  cx_http_retry_attempts :: "int option"
  cx_http_retry_max_wait_seconds :: "int option"

text \<open>A factory raises, returns something that is no adapter, or an adapter.\<close>

datatype 'p built = FactoryRaises | InvalidAdapter | BuiltAdapter 'p

datatype 'p imported = ImportRaises | NotCallable | AdapterFactory "adapter_context \<Rightarrow> 'p built"

datatype 'p adapter = FakeAdapter | ChatAdapter chat_adapter | AgentsAdapter agents_adapter | PluginAdapter 'p

datatype adapter_failure = AdapterPluginError string | AdapterRaises py_error

text \<open>\<open>entrypoint.split(":", 1)\<close> unpacked into two names.\<close>

definition plugin_entrypoint :: "string \<Rightarrow> (string \<times> string) option" where
  "plugin_entrypoint e =
     (case dropWhile (\<lambda>c. c \<noteq> CHR '':'') e of
        [] \<Rightarrow> None
      | _ # f \<Rightarrow> Some (takeWhile (\<lambda>c. c \<noteq> CHR '':'') e, f))"

definition create_plugin_adapter ::
  "(string \<Rightarrow> string \<Rightarrow> 'p imported) \<Rightarrow> string \<Rightarrow> adapter_context \<Rightarrow> adapter_failure + 'p adapter" where
  "create_plugin_adapter resolve entrypoint context =
     (case (case plugin_entrypoint entrypoint of None \<Rightarrow> ImportRaises | Some (m, f) \<Rightarrow> resolve m f) of
        ImportRaises \<Rightarrow> Inl (AdapterPluginError ''adapter plugin import failed'')
      | NotCallable \<Rightarrow> Inl (AdapterPluginError ''adapter plugin factory is not callable'')
      | AdapterFactory factory \<Rightarrow>
          (case factory context of
             FactoryRaises \<Rightarrow> Inl (AdapterPluginError ''adapter plugin factory failed'')
           | InvalidAdapter \<Rightarrow> Inl (AdapterPluginError ''adapter plugin factory returned an invalid adapter'')
           | BuiltAdapter p \<Rightarrow> Inr (PluginAdapter p)))"

text \<open>The keyword arguments of \<open>http_retry_adapter_kwargs\<close> over the defaults of the constructor.\<close>

definition with_retry_kwargs :: "http_retry_kwargs \<Rightarrow> chat_options \<Rightarrow> chat_options" where
  "with_retry_kwargs kwargs options =
     (let options = (case hk_max_http_attempts kwargs of
                       None \<Rightarrow> options | Some n \<Rightarrow> options\<lparr>co_max_http_attempts := JInt n\<rparr>)
      in case hk_retry_max_backoff_seconds kwargs of
           None \<Rightarrow> options | Some x \<Rightarrow> options\<lparr>co_retry_max_backoff_seconds := JFloat (Fin x)\<rparr>)"

definition lift_adapter :: "'a res \<Rightarrow> adapter_failure + 'a" where
  "lift_adapter r = (case r of Inl e \<Rightarrow> Inl (AdapterRaises e) | Inr v \<Rightarrow> Inr v)"

definition create_chat_adapter :: "(string \<Rightarrow> url_parts res) \<Rightarrow> (rat \<Rightarrow> string) \<Rightarrow> adapter_context \<Rightarrow> chat_adapter res" where
  "create_chat_adapter urlsplit frep context =
     rbind (validate_request_fields frep [''temperature'', ''max_tokens''] (JObj (cx_request_fields context))) (\<lambda>fs.
     rbind (case cx_max_output_tokens context of
              None \<Rightarrow> Inr fs
            | Some n \<Rightarrow> rbind (validate_max_output_tokens (JInt n)) (\<lambda>n. Inr (dict_set fs ''max_tokens'' (JInt n)))) (\<lambda>fs.
     rbind (http_retry_adapter_kwargs (cx_http_retry_attempts context) (cx_http_retry_max_wait_seconds context)) (\<lambda>kwargs.
     openai_compatible_adapter urlsplit frep (cx_model context) (cx_base_url context)
       (with_retry_kwargs kwargs (default_options\<lparr>co_request_fields := JObj fs\<rparr>)))))"

definition create_adapter ::
  "(string \<Rightarrow> url_parts res) \<Rightarrow> (rat \<Rightarrow> string) \<Rightarrow> bool \<Rightarrow> (string \<Rightarrow> string \<Rightarrow> 'p imported) \<Rightarrow> string \<Rightarrow> adapter_context \<Rightarrow>
   adapter_failure + 'p adapter" where
  "create_adapter urlsplit frep sdk_installed resolve adapter_entrypoint context =
     (if adapter_entrypoint \<noteq> [] then create_plugin_adapter resolve adapter_entrypoint context
      else if cx_provider context = ''fake'' then Inr FakeAdapter
      else if cx_provider context = ''openai-compatible'' then
        rbind (lift_adapter (create_chat_adapter urlsplit frep context)) (\<lambda>ca. Inr (ChatAdapter ca))
      else if cx_provider context = ''openai-agents'' then
        rbind (lift_adapter (openai_agents_adapter sdk_installed (cx_model context) (cx_base_url context) ''AgentStorm target'' []
                 None None None)) (\<lambda>ag. Inr (AgentsAdapter ag))
      else Inl (AdapterRaises (ValueError (''unsupported provider: '' @ cx_provider context))))"

text \<open>The context that the entry point of the worker makes of a configured target.\<close>

definition context_of_target :: "target_config \<Rightarrow> adapter_context" where
  "context_of_target t =
     \<lparr>cx_provider = tg_provider t, cx_model = tg_model t, cx_base_url = tg_base_url t,
      cx_max_output_tokens = tg_max_output_tokens t, cx_request_fields = tg_request_fields t,
      cx_http_retry_attempts = tg_http_retry_attempts t, cx_http_retry_max_wait_seconds = tg_http_retry_max_wait_seconds t\<rparr>"

section \<open>A target that the loader accepts gets its adapter\<close>

lemma rmap_list_fixed: "rmap_list f xs = Inr ys \<Longrightarrow> (\<And>x y. f x = Inr y \<Longrightarrow> y = x) \<Longrightarrow> ys = xs"
  by (induction xs arbitrary: ys) auto

lemma rmap_list_all: "(\<And>x. x \<in> set xs \<Longrightarrow> f x = Inr x) \<Longrightarrow> rmap_list f xs = Inr xs"
  by (induction xs) auto

lemma request_field_fixed: "request_field frep blocked e = Inr e' \<Longrightarrow> e' = e"
  by (cases e) (auto simp: request_field_def)

lemma request_field_fewer:
  "request_field frep blocked e = Inr e' \<Longrightarrow> set blocked' \<subseteq> set blocked \<Longrightarrow> request_field frep blocked' e = Inr e"
  by (cases e) (auto simp: request_field_def)

text \<open>Request fields that were accepted are accepted again, also with fewer reserved names.\<close>

lemma validated_fields:
  assumes "validate_request_fields frep reject v = Inr fs"
  shows "length fs \<le> 16" "e \<in> set fs \<Longrightarrow> request_field frep (RESERVED_REQUEST_FIELDS @ reject) e = Inr e"
proof -
  have "length fs \<le> 16 \<and> (e \<in> set fs \<longrightarrow> request_field frep (RESERVED_REQUEST_FIELDS @ reject) e = Inr e)"
  proof (cases v)
    case (JObj d)
    then have r: "rmap_list (request_field frep (RESERVED_REQUEST_FIELDS @ reject)) d = Inr fs" "length d \<le> 16"
      using assms by (auto simp: validate_request_fields_def MAX_REQUEST_FIELDS_def)
    have "fs = d" by (rule rmap_list_fixed [OF r(1)]) (rule request_field_fixed)
    then show ?thesis using r(2) rmap_list_defined [OF r(1)] request_field_fixed by (metis request_field_fixed)
  qed (use assms in \<open>auto simp: validate_request_fields_def\<close>)
  then show "length fs \<le> 16" "e \<in> set fs \<Longrightarrow> request_field frep (RESERVED_REQUEST_FIELDS @ reject) e = Inr e" by auto
qed

lemma revalidate_fields:
  assumes "\<And>e. e \<in> set fs \<Longrightarrow> request_field frep (RESERVED_REQUEST_FIELDS @ reject) e = Inr e" "length fs \<le> 16"
    "set reject' \<subseteq> set reject"
  shows "validate_request_fields frep reject' (JObj fs) = Inr fs"
proof -
  have "request_field frep (RESERVED_REQUEST_FIELDS @ reject') e = Inr e" if "e \<in> set fs" for e
    using assms that by (intro request_field_fewer [OF assms(1) [OF that]]) auto
  then show ?thesis using assms(2) by (simp add: validate_request_fields_def MAX_REQUEST_FIELDS_def rmap_list_all)
qed

lemma length_str_of_nat: "n < 10 ^ Suc k \<Longrightarrow> length (str_of_nat n) \<le> Suc k"
proof (induction k arbitrary: n)
  case 0
  then show ?case by (subst str_of_nat.simps) simp
next
  case (Suc k)
  then have "n div 10 < 10 ^ Suc k" by (simp add: less_mult_imp_div_less)
  then show ?case using Suc.IH by (subst str_of_nat.simps) (simp add: le_SucI)
qed

lemma utf8_len_le: "utf8_len s \<le> 2 * length s"
proof (induction s)
  case (Cons c s)
  then show ?case using utf8_width_bounds(2) [of c] by simp
qed simp

lemma max_tokens_field:
  assumes "1 \<le> n" "n \<le> 131072"
  shows "request_field frep RESERVED_REQUEST_FIELDS (''max_tokens'', JInt n) = Inr (''max_tokens'', JInt n)"
proof -
  have "length (str_of_nat (nat n)) \<le> 6" using assms length_str_of_nat [of "nat n" 5] by simp
  then have "utf8_len (str_of_int n) \<le> 1024" using utf8_len_le [of "str_of_nat (nat n)"] assms by (simp add: str_of_int_def)
  then show ?thesis
    by (simp add: request_field_def request_field_key_def ident_start_def ident_char_def is_ascii_lower_def is_ascii_upper_def
        RESERVED_REQUEST_FIELDS_def MAX_REQUEST_FIELD_BYTES_def MAX_REQUEST_FIELD_DEPTH_def)
qed

lemma set_dict_set: "set (dict_set d k v) \<subseteq> insert (k, v) (set d)"
  by (induction d k v rule: dict_set.induct) auto

text \<open>The limits of the retry that the loader checked are within those of the constructor.\<close>

lemma retry_kwargs_ok:
  assumes "\<And>n. attempts = Some n \<Longrightarrow> 1 \<le> n \<and> n \<le> 16" "\<And>n. wait = Some n \<Longrightarrow> 1 \<le> n \<and> n \<le> 300"
  obtains kwargs where "http_retry_adapter_kwargs attempts wait = Inr kwargs"
    "\<And>n. hk_max_http_attempts kwargs = Some n \<Longrightarrow> 1 \<le> n \<and> n \<le> 16"
    "\<And>x. hk_retry_max_backoff_seconds kwargs = Some x \<Longrightarrow> 1 \<le> x \<and> x \<le> 300"
proof -
  have "float_of_int n = Inr (of_int n)" if "1 \<le> n" "n \<le> 300" for n
  proof -
    have "f64 (of_int n) = of_int n" using that by (intro f64_of_int) simp
    moreover have "\<bar>of_int n :: rat\<bar> < 2 ^ 1024" using that by simp
    ultimately show ?thesis by (simp add: float_of_int_def not_le)
  qed
  then have "http_retry_adapter_kwargs attempts wait =
      Inr \<lparr>hk_max_http_attempts = attempts, hk_retry_max_backoff_seconds = map_option of_int wait\<rparr>"
    using assms
    by (cases attempts; cases wait)
      (auto simp: http_retry_adapter_kwargs_def validate_http_retry_attempts_Inr validate_http_retry_max_wait_seconds_Inr)
  moreover have "1 \<le> (of_int n :: rat) \<and> of_int n \<le> (300 :: rat)" if "wait = Some n" for n
    using assms(2) [OF that] by simp
  ultimately show ?thesis using assms(1) by (intro that) auto
qed

lemma with_retry_kwargs_same [simp]:
  "co_max_model_calls (with_retry_kwargs kw opts) = co_max_model_calls opts"
  "co_request_timeout_seconds (with_retry_kwargs kw opts) = co_request_timeout_seconds opts"
  "co_unknown_input_tokens (with_retry_kwargs kw opts) = co_unknown_input_tokens opts"
  "co_request_fields (with_retry_kwargs kw opts) = co_request_fields opts"
  "co_tools (with_retry_kwargs kw opts) = co_tools opts"
  "co_retry_initial_backoff_seconds (with_retry_kwargs kw opts) = co_retry_initial_backoff_seconds opts"
  "co_max_http_attempts (with_retry_kwargs kw opts) =
     (case hk_max_http_attempts kw of None \<Rightarrow> co_max_http_attempts opts | Some n \<Rightarrow> JInt n)"
  "co_retry_max_backoff_seconds (with_retry_kwargs kw opts) =
     (case hk_retry_max_backoff_seconds kw of None \<Rightarrow> co_retry_max_backoff_seconds opts | Some x \<Rightarrow> JFloat (Fin x))"
  by (simp_all add: with_retry_kwargs_def Let_def split: option.splits)

text \<open>The options that a factory does not change keep their defaults.\<close>

definition standard_options :: "chat_options \<Rightarrow> bool" where
  "standard_options opts \<longleftrightarrow>
     1 \<le> co_max_model_calls opts \<and> co_max_model_calls opts \<le> 32 \<and> co_request_timeout_seconds opts = Fin 120 \<and>
     distinct (map ct_name (co_tools opts)) \<and> [] \<notin> set (map ct_name (co_tools opts)) \<and>
     co_unknown_input_tokens opts = JInt UNKNOWN_CALL_INPUT_TOKENS \<and> co_max_http_attempts opts = JInt DEFAULT_HTTP_RETRY_ATTEMPTS \<and>
     co_retry_initial_backoff_seconds opts = JFloat (Fin DEFAULT_HTTP_RETRY_INITIAL_SECONDS) \<and>
     co_retry_max_backoff_seconds opts = JFloat (Fin DEFAULT_HTTP_RETRY_MAX_SECONDS)"

lemma default_standard: "standard_options (default_options\<lparr>co_request_fields := v\<rparr>)"
  by (simp add: standard_options_def default_options_def)

lemma constructor_succeeds:
  assumes "validate_pinned_model model = Inr ()" "validate_base_url urlsplit base_url = Inr ()"
    and "standard_options opts" "validate_request_fields frep [] (co_request_fields opts) = Inr fs"
    and "\<And>n. hk_max_http_attempts kw = Some n \<Longrightarrow> 1 \<le> n \<and> n \<le> 16"
    and "\<And>x. hk_retry_max_backoff_seconds kw = Some x \<Longrightarrow> 1 \<le> x \<and> x \<le> 300"
  shows "\<exists>ca. openai_compatible_adapter urlsplit frep model base_url (with_retry_kwargs kw opts) = Inr ca \<and> chat_ok ca"
proof -
  let ?o = "with_retry_kwargs kw opts"
  note d = assms(3) [unfolded standard_options_def]
  obtain n where n: "co_max_http_attempts ?o = JInt n" "1 \<le> n" "n \<le> 16"
    using assms(5) d by (cases "hk_max_http_attempts kw") (auto simp: DEFAULT_HTTP_RETRY_ATTEMPTS_def)
  obtain x where x: "co_retry_max_backoff_seconds ?o = JFloat (Fin x)" "1 \<le> x" "x \<le> 300"
    using assms(6) d by (cases "hk_retry_max_backoff_seconds kw") (auto simp: DEFAULT_HTTP_RETRY_MAX_SECONDS_def)
  have "1 / 2 \<le> x" using x(2) by (rule order_trans [rotated]) simp
  then have "\<exists>ca. openai_compatible_adapter urlsplit frep model base_url ?o = Inr ca"
    using n x d by (simp add: openai_compatible_adapter_def assms(1,2,4) positive_int_def backoff_ok_def number_value_def
        MAX_HTTP_RETRY_ATTEMPTS_def MAX_HTTP_RETRY_WAIT_SECONDS_def UNKNOWN_CALL_INPUT_TOKENS_def
        DEFAULT_HTTP_RETRY_INITIAL_SECONDS_def)
  then show ?thesis
    using openai_compatible_adapter_ok [of urlsplit frep model base_url ?o] x d by (auto simp: number_value_def)
qed

text \<open>The number of request fields the constructor sees.\<close>

definition field_count :: "target_config \<Rightarrow> nat" where
  "field_count t = length (tg_request_fields t) + (if tg_max_output_tokens t = None then 0 else 1)"

lemma target_fields:
  assumes "target_of_json env v = Inr t"
  shows "\<exists>w. validate_request_fields (ce_frep env) [''temperature'', ''max_tokens''] w = Inr (tg_request_fields t)"
  using assms by (auto simp: target_of_json_def request_fields_of_json_def)

lemma target_kwargs:
  assumes "target_of_json env v = Inr t"
  obtains kw where "http_retry_adapter_kwargs (tg_http_retry_attempts t) (tg_http_retry_max_wait_seconds t) = Inr kw"
    "\<And>n. hk_max_http_attempts kw = Some n \<Longrightarrow> 1 \<le> n \<and> n \<le> 16"
    "\<And>x. hk_retry_max_backoff_seconds kw = Some x \<Longrightarrow> 1 \<le> x \<and> x \<le> 300"
  using target_of_json_ok [OF assms] retry_kwargs_ok [of "tg_http_retry_attempts t" "tg_http_retry_max_wait_seconds t"]
  by (auto simp: target_ok_def)

lemma chat_adapter_of_target:
  assumes "target_of_json env v = Inr t" "field_count t \<le> 16"
    "validate_pinned_model (tg_model t) = Inr ()" "validate_base_url (ce_urlsplit env) (tg_base_url t) = Inr ()"
  shows "\<exists>ca. create_chat_adapter (ce_urlsplit env) (ce_frep env) (context_of_target t) = Inr ca \<and> chat_ok ca"
proof -
  let ?fs = "tg_request_fields t" and ?reject = "[''temperature'', ''max_tokens'']"
  obtain w where w: "validate_request_fields (ce_frep env) ?reject w = Inr ?fs" using target_fields [OF assms(1)] by blast
  note fields = validated_fields [OF w]
  have ok: "target_ok env t" using assms(1) by (rule target_of_json_ok)
  obtain kw where kw: "http_retry_adapter_kwargs (tg_http_retry_attempts t) (tg_http_retry_max_wait_seconds t) = Inr kw"
    "\<And>n. hk_max_http_attempts kw = Some n \<Longrightarrow> 1 \<le> n \<and> n \<le> 16"
    "\<And>x. hk_retry_max_backoff_seconds kw = Some x \<Longrightarrow> 1 \<le> x \<and> x \<le> 300"
    using target_kwargs [OF assms(1)] by blast
  define gs where "gs = (case tg_max_output_tokens t of None \<Rightarrow> ?fs | Some n \<Rightarrow> dict_set ?fs ''max_tokens'' (JInt n))"
  have "length gs \<le> 16"
    using assms(2) by (auto simp: gs_def field_count_def length_dict_set split: option.splits)
  moreover have "request_field (ce_frep env) (RESERVED_REQUEST_FIELDS @ []) e = Inr e" if "e \<in> set gs" for e
  proof -
    consider "e \<in> set ?fs" | n where "tg_max_output_tokens t = Some n" "e = (''max_tokens'', JInt n)"
      using \<open>e \<in> set gs\<close> set_dict_set [of ?fs "''max_tokens''"] by (auto simp: gs_def split: option.splits)
    then show ?thesis
    proof cases
      case 1
      then show ?thesis by (rule request_field_fewer [OF fields(2)]) auto
    next
      case 2
      then show ?thesis using ok by (simp add: max_tokens_field target_ok_def)
    qed
  qed
  ultimately have "validate_request_fields (ce_frep env) [] (JObj gs) = Inr gs"
    by (intro revalidate_fields [where reject = "[]"]) auto
  then have "validate_request_fields (ce_frep env) [] (co_request_fields (default_options\<lparr>co_request_fields := JObj gs\<rparr>)) = Inr gs"
    by simp
  note built = constructor_succeeds [OF assms(3,4) default_standard this kw(2,3)]
  have "validate_request_fields (ce_frep env) ?reject (JObj ?fs) = Inr ?fs" using fields by (intro revalidate_fields) auto
  then show ?thesis
    using built ok kw(1)
    by (auto simp: create_chat_adapter_def context_of_target_def gs_def target_ok_def validate_max_output_tokens_def
        MAX_OUTPUT_TOKENS_def split: option.splits)
qed

lemma chat_adapter_overflow:
  assumes "target_of_json env v = Inr t" "16 < field_count t"
    "validate_pinned_model (tg_model t) = Inr ()" "validate_base_url (ce_urlsplit env) (tg_base_url t) = Inr ()"
  shows "\<nexists>ca. create_chat_adapter (ce_urlsplit env) (ce_frep env) (context_of_target t) = Inr ca"
proof -
  let ?fs = "tg_request_fields t" and ?reject = "[''temperature'', ''max_tokens'']"
  obtain w where w: "validate_request_fields (ce_frep env) ?reject w = Inr ?fs" using target_fields [OF assms(1)] by blast
  then obtain n where n: "tg_max_output_tokens t = Some n" and len: "length ?fs = 16"
    using assms(2) validated_fields(1) [OF w] by (cases "tg_max_output_tokens t") (auto simp: field_count_def)
  have "''max_tokens'' \<notin> fst ` set ?fs"
    using validated_fields(2) [OF w] by (fastforce simp: request_field_def)
  then have "dict_get ?fs ''max_tokens'' = None" by (simp add: dict_get_def map_of_eq_None_iff)
  then have "length (dict_set ?fs ''max_tokens'' (JInt n)) = 17" using len by (simp add: length_dict_set)
  moreover have "validate_request_fields (ce_frep env) ?reject (JObj ?fs) = Inr ?fs"
    using validated_fields [OF w] by (intro revalidate_fields) auto
  ultimately show ?thesis
    using n by (auto simp: create_chat_adapter_def context_of_target_def openai_compatible_adapter_def
        validate_max_output_tokens_def validate_request_fields_def MAX_REQUEST_FIELDS_def)
qed

lemma chat_adapter_of_config:
  assumes "load_run_config env document = Inr config" "tg_provider (rc_target config) = ''openai-compatible''"
  shows "if field_count (rc_target config) \<le> 16
    then \<exists>ca. create_chat_adapter (ce_urlsplit env) (ce_frep env) (context_of_target (rc_target config)) = Inr ca \<and> chat_ok ca
    else \<exists>e. create_chat_adapter (ce_urlsplit env) (ce_frep env) (context_of_target (rc_target config)) = Inl e"
proof -
  obtain raw where t: "target_of_json env (obj_get_default raw ''target'' (JObj [])) = Inr (rc_target config)"
    and check: "check_run_config env config = Inr config" using assms(1) by (rule load_run_config_parts)
  have "validate_pinned_model (tg_model (rc_target config)) = Inr ()"
    "validate_base_url (ce_urlsplit env) (tg_base_url (rc_target config)) = Inr ()"
    using check assms(2) by (auto simp: check_run_config_def Let_def)
  then show ?thesis
    using chat_adapter_of_target [OF t] chat_adapter_overflow [OF t] by (metis not_le sum.exhaust)
qed

section \<open>Properties\<close>

text \<open>C15: a target that the loader accepted, without a plugin, gets the adapter of its provider. The fake provider always has
  one, \<open>openai-agents\<close> exactly when its SDK is installed, and \<open>openai-compatible\<close> exactly when its request fields,
  with the output limit as one more, are at most 16, and then the adapter's limits are well formed. (So a
  document with 16 request fields and an output limit is accepted and then fails here.) Any other provider fails here too.\<close>

theorem factory_serves:
  assumes load: "load_run_config env document = Inr config" and plugin: "tg_adapter_entrypoint (rc_target config) = []"
  shows "let t = rc_target config; made = create_adapter (ce_urlsplit env) (ce_frep env) installed resolve [] (context_of_target t) in
    (tg_provider t = ''fake'' \<longrightarrow> made = Inr FakeAdapter) \<and>
    (tg_provider t = ''openai-agents'' \<longrightarrow> ((\<exists>ag. made = Inr (AgentsAdapter ag)) \<longleftrightarrow> installed)) \<and>
    (tg_provider t = ''openai-compatible'' \<longrightarrow>
       (if field_count t \<le> 16 then \<exists>ca. made = Inr (ChatAdapter ca) \<and> chat_ok ca else \<exists>e. made = Inl (AdapterRaises e))) \<and>
    (tg_provider t \<notin> {''fake'', ''openai-agents'', ''openai-compatible''} \<longrightarrow>
       made = Inl (AdapterRaises (ValueError (''unsupported provider: '' @ tg_provider t))))"
proof -
  let ?t = "rc_target config"
  have agents: "tg_model ?t \<noteq> []" if "tg_provider ?t = ''openai-agents''"
    using load_run_config_ok [OF load] that by (auto simp: run_config_ok_def py_strip_eq_Nil)
  show ?thesis
    unfolding Let_def
  proof (intro conjI impI)
    assume "tg_provider ?t = ''openai-compatible''"
    from chat_adapter_of_config [OF load this] this show "if field_count ?t \<le> 16
      then \<exists>ca. create_adapter (ce_urlsplit env) (ce_frep env) installed resolve [] (context_of_target ?t) = Inr (ChatAdapter ca) \<and> chat_ok ca
      else \<exists>e. create_adapter (ce_urlsplit env) (ce_frep env) installed resolve [] (context_of_target ?t) = Inl (AdapterRaises e)"
      by (auto simp: create_adapter_def context_of_target_def lift_adapter_def split: if_splits)
  qed (use agents in \<open>auto simp: create_adapter_def context_of_target_def lift_adapter_def openai_agents_adapter_def\<close>)
qed

theorem factory_serves_witness:
  "\<exists>ca. create_adapter (ce_urlsplit sample_env) (ce_frep sample_env) False (\<lambda>_ _. ImportRaises :: unit imported) []
       (context_of_target (rc_target sample_config)) = Inr (ChatAdapter ca) \<and> chat_ok ca"
proof -
  have "field_count (rc_target sample_config) \<le> 16" using sample_target by (simp add: field_count_def)
  then show ?thesis
    using factory_serves [OF sample_document_loads, of False "\<lambda>_ _. ImportRaises :: unit imported"] sample_target
    by (simp add: Let_def)
qed

end
