(* ===== verification/Entry.thy ===== *)
theory Entry
  imports Results Factory Pool Telemetry
begin

text \<open>
  \<open>worker/src/agentstorm_worker/__main__.py\<close>: the entry point of a worker. It composes the loader, the
  client of the result API, the factory of adapters and the runner; the model records what it does, in order,
  as a log of actions.

  The files, the process environment, the result API behind the opener, the run of the cases (theory
  \<open>Pool\<close>) and the events that other tasks set are given by a world. A \<open>KeyboardInterrupt\<close> can end the
  run of the cases; it is not an \<open>Exception\<close>, so the handlers let it pass.
\<close>

section \<open>The world\<close>

datatype run_end = RunReturns "case_result list" run_summary | RunRaises py_error | RunInterrupted

record entry_world =
  ew_document :: "json res"
  ew_dataset :: "string res"
  ew_getenv :: "string \<Rightarrow> string option"
  ew_config_env :: config_env
  ew_opener :: "http_request \<Rightarrow> http_reply"
  ew_sdk_installed :: bool
  ew_resolve :: "string \<Rightarrow> string \<Rightarrow> nat imported"
  ew_otel_installed :: bool
  ew_run :: "nat adapter \<Rightarrow> int \<Rightarrow> int \<Rightarrow> run_end"
  ew_stop_set :: bool
  ew_renewals :: "(sink_exn + int) list"
  ew_permit_lost :: bool
  ew_write :: "unit res"
  ew_flush_cut :: "nat option"

text \<open>What the worker does; the flag of an action says that it succeeded.\<close>

datatype entry_action =
    RegisterRun bool
  | ClaimShard bool
  | RunCases int
  | WriteResults bool
  | UploadShard int "string option" bool
  | MarkTerminal string string

datatype entry_exn = SinkFailure | PluginFailure | OtherFailure py_error | Interrupt

record entry_state =
  es_log :: "entry_action list"
  es_client :: "result_sink_config option"
  es_registered :: bool
  es_queue_mode :: bool

type_synonym 'a step = "entry_state \<Rightarrow> (entry_exn + 'a) \<times> entry_state"

definition then_do :: "'a step \<Rightarrow> ('a \<Rightarrow> 'b step) \<Rightarrow> 'b step" where
  "then_do m f s = (case m s of (Inl e, s') \<Rightarrow> (Inl e, s') | (Inr v, s') \<Rightarrow> f v s')"

definition finish :: "'a \<Rightarrow> 'a step" where
  "finish v s = (Inr v, s)"

definition fail :: "entry_exn \<Rightarrow> 'a step" where
  "fail e s = (Inl e, s)"

definition log_action :: "entry_action \<Rightarrow> unit step" where
  "log_action a s = (Inr (), s\<lparr>es_log := es_log s @ [a]\<rparr>)"

definition get_client :: "result_sink_config option step" where
  "get_client s = (Inr (es_client s), s)"

definition set_client :: "result_sink_config option \<Rightarrow> unit step" where
  "set_client c s = (Inr (), s\<lparr>es_client := c\<rparr>)"

definition set_registered :: "unit step" where
  "set_registered s = (Inr (), s\<lparr>es_registered := True\<rparr>)"

definition set_queue_mode :: "bool \<Rightarrow> unit step" where
  "set_queue_mode q s = (Inr (), s\<lparr>es_queue_mode := q\<rparr>)"

definition from_res :: "'a res \<Rightarrow> 'a step" where
  "from_res r = (case r of Inl e \<Rightarrow> fail (OtherFailure e) | Inr v \<Rightarrow> finish v)"

definition sink_failure :: "sink_exn \<Rightarrow> entry_exn" where
  "sink_failure x = (case x of SinkRaises e \<Rightarrow> OtherFailure e | _ \<Rightarrow> SinkFailure)"

text \<open>A request of the client: the action is logged with whether it succeeded, a failure is raised.\<close>

definition request_action :: "(bool \<Rightarrow> entry_action) \<Rightarrow> sink_exn + 'a \<Rightarrow> 'a step" where
  "request_action a r =
     then_do (log_action (a (\<not> isl r))) (\<lambda>_.
     case r of Inl x \<Rightarrow> fail (sink_failure x) | Inr v \<Rightarrow> finish v)"

section \<open>Inputs\<close>

definition provider_spend_allowed :: "(string \<Rightarrow> string option) \<Rightarrow> string \<Rightarrow> bool" where
  "provider_spend_allowed getenv provider =
     (if provider \<notin> {''openai-compatible'', ''openai-agents''} then True
      else getenv ''AGENTSTORM_ALLOW_PROVIDER_SPEND'' = Some ''1'')"

definition pre_registered :: "(string \<Rightarrow> string option) \<Rightarrow> bool" where
  "pre_registered getenv = (py_lower (getenv_or getenv ''AGENTSTORM_RESULT_PRE_REGISTERED'' ''false'') = ''true'')"

section \<open>The steps inside the run span\<close>

definition open_sink :: "entry_world \<Rightarrow> run_config \<Rightarrow> int \<Rightarrow> unit step" where
  "open_sink w config shard_count =
     then_do (from_res (from_environment (ew_config_env w) (ew_getenv w))) (\<lambda>client.
     then_do (set_client client) (\<lambda>_.
     case client of
       None \<Rightarrow> finish ()
     | Some c \<Rightarrow>
         then_do (if pre_registered (ew_getenv w) then finish ()
                  else request_action RegisterRun (register_run (ew_config_env w) c (ew_opener w) config shard_count)) (\<lambda>_. set_registered)))"

text \<open>
  The task that renews the lease of a claimed shard, on the answers it gets before it is cancelled: the
  pauses it makes, and whether it gave the lease up as lost.
\<close>

fun renew_task :: "int \<Rightarrow> (sink_exn + int) list \<Rightarrow> rat list \<times> bool" where
  "renew_task delay_ms [] = ([int_truediv delay_ms 1000], False)"
| "renew_task delay_ms (Inl _ # answers) = ([int_truediv delay_ms 1000], True)"
| "renew_task delay_ms (Inr next_ms # answers) =
     (case renew_task next_ms answers of (pauses, lost) \<Rightarrow> (int_truediv delay_ms 1000 # pauses, lost))"

text \<open>The shard to run, its lease and whether the lease is lost in the end: None when the queue is empty.\<close>

definition claim_next :: "entry_world \<Rightarrow> run_config \<Rightarrow> result_sink_config option \<Rightarrow> (int \<times> string option \<times> bool) option step" where
  "claim_next w config client =
     (case client of
        None \<Rightarrow> fail (OtherFailure (RuntimeError ''queued scheduling requires the Result API''))
      | Some c \<Rightarrow>
          then_do (request_action ClaimShard (claim_shard (ew_config_env w) c (ew_opener w) (rc_run_id config)
                    (getenv_or (ew_getenv w) ''AGENTSTORM_WORKER_ID'' ''local-worker''))) (\<lambda>claim.
          finish (map_option (\<lambda>q. (qc_shard_index q, Some (qc_lease_token q),
             snd (renew_task (qc_renew_after_ms q) (ew_renewals w)))) claim)))"

definition take_shard :: "entry_world \<Rightarrow> run_config \<Rightarrow> int \<Rightarrow> (int \<times> string option \<times> bool) option step" where
  "take_shard w config shard_index =
     then_do (from_res (environment_boolean (ew_getenv w) ''AGENTSTORM_QUEUE_MODE'' False)) (\<lambda>queue_mode.
     then_do (set_queue_mode queue_mode) (\<lambda>_.
     if queue_mode then then_do get_client (claim_next w config) else finish (Some (shard_index, None, False))))"

definition make_adapter :: "entry_world \<Rightarrow> target_config \<Rightarrow> nat adapter step" where
  "make_adapter w target =
     (case create_adapter (ce_urlsplit (ew_config_env w)) (ce_frep (ew_config_env w)) (ew_sdk_installed w) (ew_resolve w)
             (tg_adapter_entrypoint target) (context_of_target target) of
        Inl (AdapterPluginError _) \<Rightarrow> fail PluginFailure
      | Inl (AdapterRaises e) \<Rightarrow> fail (OtherFailure e)
      | Inr a \<Rightarrow> finish a)"

definition use_limiter :: "entry_world \<Rightarrow> bool step" where
  "use_limiter w =
     then_do get_client (\<lambda>client.
     if client = None then finish False
     else from_res (environment_boolean (ew_getenv w) ''AGENTSTORM_DISTRIBUTED_LIMITS'' False))"

definition run_cases :: "entry_world \<Rightarrow> nat adapter \<Rightarrow> int \<Rightarrow> int \<Rightarrow> (case_result list \<times> run_summary) step" where
  "run_cases w adapter shard_index shard_count =
     then_do (from_res (check_shard shard_index shard_count)) (\<lambda>_.
     then_do (log_action (RunCases shard_index)) (\<lambda>_.
     case ew_run w adapter shard_index shard_count of
       RunReturns results summary \<Rightarrow> finish (results, summary)
     | RunRaises e \<Rightarrow> fail (OtherFailure e)
     | RunInterrupted \<Rightarrow> fail Interrupt))"

definition write_action :: "entry_world \<Rightarrow> unit step" where
  "write_action w = then_do (log_action (WriteResults (\<not> isl (ew_write w)))) (\<lambda>_. from_res (ew_write w))"

definition upload_action ::
  "entry_world \<Rightarrow> result_sink_config \<Rightarrow> string \<Rightarrow> int \<Rightarrow> case_result list \<Rightarrow> run_summary \<Rightarrow> string option \<Rightarrow> unit step" where
  "upload_action w c run_id shard_index results summary lease =
     request_action (UploadShard shard_index lease)
       (upload_shard (ew_config_env w) c (ew_opener w) run_id shard_index results summary lease)"

text \<open>\<open>try: ... except Exception: print(...)\<close>.\<close>

definition attempt :: "unit step \<Rightarrow> unit step" where
  "attempt m s = (case m s of (Inl Interrupt, s') \<Rightarrow> (Inl Interrupt, s') | (_, s') \<Rightarrow> (Inr (), s'))"

definition terminal_action :: "entry_world \<Rightarrow> result_sink_config \<Rightarrow> string \<Rightarrow> string \<Rightarrow> string \<Rightarrow> unit step" where
  "terminal_action w c run_id status reason =
     request_action (\<lambda>_. MarkTerminal status reason) (mark_terminal (ew_config_env w) c (ew_opener w) run_id status reason)"

text \<open>
  The flush of a cancelled run has ten seconds. Running out of them cuts it at one of its two waits:
  while the terminal update is under way, or while the upload is.
\<close>

definition finish_cancelled ::
  "entry_world \<Rightarrow> string \<Rightarrow> int \<Rightarrow> case_result list \<Rightarrow> run_summary \<Rightarrow> string option \<Rightarrow> unit step" where
  "finish_cancelled w run_id shard_index results summary lease =
     then_do get_client (\<lambda>client.
     case client of
       None \<Rightarrow> attempt (write_action w)
     | Some c \<Rightarrow>
         then_do (attempt (terminal_action w c run_id ''cancelled'' ''cancellation_requested'')) (\<lambda>_.
         if ew_flush_cut w = Some 0 then finish ()
         else
           then_do (attempt (write_action w)) (\<lambda>_.
           if ew_flush_cut w = None
           then attempt (upload_action w c run_id shard_index results summary lease)
           else log_action (UploadShard shard_index lease False))))"

definition permit_lost_action :: "entry_world \<Rightarrow> string \<Rightarrow> bool \<Rightarrow> bool \<Rightarrow> unit step" where
  "permit_lost_action w run_id limited lease_lost =
     then_do get_client (\<lambda>client.
     case client of
       Some c \<Rightarrow>
         if \<not> lease_lost \<and> limited \<and> ew_permit_lost w
         then attempt (terminal_action w c run_id ''harness_failed'' ''distributed_permit_lost'')
         else finish ()
     | None \<Rightarrow> finish ())"

text \<open>After the cases: a lost lease, a cancellation, or the results.\<close>

definition settle ::
  "entry_world \<Rightarrow> run_config \<Rightarrow> bool \<Rightarrow> int \<Rightarrow> string option \<Rightarrow> bool \<Rightarrow> case_result list \<Rightarrow> run_summary \<Rightarrow> int step" where
  "settle w config limited shard_index lease lease_lost results summary =
     (if lease_lost \<or> (limited \<and> ew_permit_lost w) then
        then_do (permit_lost_action w (rc_run_id config) limited lease_lost) (\<lambda>_. finish 3)
      else if ew_stop_set w then
        then_do (finish_cancelled w (rc_run_id config) shard_index results summary lease) (\<lambda>_. finish 130)
      else
        then_do (write_action w) (\<lambda>_.
        then_do get_client (\<lambda>client.
        then_do (case client of
                   None \<Rightarrow> finish ()
                 | Some c \<Rightarrow> upload_action w c (rc_run_id config) shard_index results summary lease) (\<lambda>_.
        finish (if rs_thresholds_passed summary then 0 else 2)))))"

definition run_body :: "entry_world \<Rightarrow> run_config \<Rightarrow> int \<Rightarrow> int \<Rightarrow> int step" where
  "run_body w config shard_index shard_count =
     then_do (open_sink w config shard_count) (\<lambda>_.
     then_do (take_shard w config shard_index) (\<lambda>shard.
     case shard of
       None \<Rightarrow> finish 0
     | Some (shard_index, lease, lease_lost) \<Rightarrow>
         then_do (make_adapter w (rc_target config)) (\<lambda>adapter.
         then_do (use_limiter w) (\<lambda>limited.
         then_do (run_cases w adapter shard_index shard_count) (\<lambda>(results, summary).
         settle w config limited shard_index lease lease_lost results summary)))))"

text \<open>\<open>except Exception\<close> around the body: a failure of the sink in queue mode leaves the shard to its lease.\<close>

definition on_failure :: "entry_world \<Rightarrow> string \<Rightarrow> entry_exn \<Rightarrow> int step" where
  "on_failure w run_id e s =
     (case e of
        Interrupt \<Rightarrow> (Inl Interrupt, s)
      | _ \<Rightarrow>
          (case es_client s of
             Some c \<Rightarrow>
               if es_registered s \<and> \<not> (es_queue_mode s \<and> e = SinkFailure) then
                 then_do (attempt (terminal_action w c run_id ''harness_failed''
                   (if e = PluginFailure then ''adapter_plugin_invalid'' else ''worker_harness_failure''))) (\<lambda>_. finish 3) s
               else (Inr 3, s)
           | None \<Rightarrow> (Inr 3, s)))"

definition guarded :: "entry_world \<Rightarrow> string \<Rightarrow> int step \<Rightarrow> int step" where
  "guarded w run_id m s =
     (case m s of (Inl e, s') \<Rightarrow> on_failure w run_id e s' | (Inr code, s') \<Rightarrow> (Inr code, s'))"

definition new_state :: entry_state where
  "new_state = \<lparr>es_log = [], es_client = None, es_registered = False, es_queue_mode = False\<rparr>"

section \<open>The process\<close>

definition execute :: "entry_world \<Rightarrow> bool \<Rightarrow> int step" where
  "execute w validate_only =
     then_do (from_res (rbind (ew_document w) (load_run_config (ew_config_env w)))) (\<lambda>config.
     then_do (from_res (rbind (ew_dataset w) (load_dataset (ew_config_env w)))) (\<lambda>cases.
     if validate_only then finish 0
     else if \<not> provider_spend_allowed (ew_getenv w) (tg_provider (rc_target config)) then finish 3
     else
       then_do (from_res (py_int (JStr (getenv_or (ew_getenv w) ''AGENTSTORM_SHARD_COUNT'' ''1'')))) (\<lambda>shard_count.
       then_do (from_res (py_int (JStr (getenv_or (ew_getenv w) ''AGENTSTORM_SHARD_INDEX'' ''0'')))) (\<lambda>shard_index.
       then_do (from_res (telemetry_from_environment (ew_getenv w ''AGENTSTORM_OTEL_ENABLED'') (ew_otel_installed w)
                            (rc_telemetry config))) (\<lambda>_.
       guarded w (rc_run_id config) (run_body w config shard_index shard_count))))))"

text \<open>The exit code of the process and what it did.\<close>

definition entry_main :: "entry_world \<Rightarrow> bool \<Rightarrow> int \<times> entry_action list" where
  "entry_main w validate_only =
     (case execute w validate_only new_state of
        (Inr code, s) \<Rightarrow> (code, es_log s)
      | (Inl Interrupt, s) \<Rightarrow> (130, es_log s)
      | (Inl _, s) \<Rightarrow> (3, es_log s))"

section \<open>Reasoning about steps\<close>

lemma then_do_Inr [simp]: "then_do m f s = (Inr v, t) \<longleftrightarrow> (\<exists>u s'. m s = (Inr u, s') \<and> f u s' = (Inr v, t))"
  by (auto simp: then_do_def split: prod.splits sum.splits)

lemma step_simps [simp]:
  "finish v s = (r, t) \<longleftrightarrow> r = Inr v \<and> t = s"
  "fail e s = (r, t) \<longleftrightarrow> r = Inl e \<and> t = s"
  "log_action a s = (r', t) \<longleftrightarrow> r' = Inr () \<and> t = s\<lparr>es_log := es_log s @ [a]\<rparr>"
  by (auto simp: finish_def fail_def log_action_def)

lemma from_res_Inr [simp]: "from_res r s = (Inr v, t) \<longleftrightarrow> r = Inr v \<and> t = s"
  by (auto simp: from_res_def split: sum.splits)

lemma request_action_Inr [simp]:
  "request_action a r s = (Inr v, t) \<longleftrightarrow> r = Inr v \<and> t = s\<lparr>es_log := es_log s @ [a True]\<rparr>"
  by (auto simp: request_action_def split: sum.splits)

text \<open>
  What a step does: the actions it adds to the log are among \<open>A\<close>, and the value it returns satisfies
  \<open>P\<close>.
\<close>

definition does :: "entry_action set \<Rightarrow> ('a \<Rightarrow> bool) \<Rightarrow> 'a step \<Rightarrow> bool" where
  "does A P m \<longleftrightarrow>
     (\<forall>s r t. m s = (r, t) \<longrightarrow> (\<exists>as. es_log t = es_log s @ as \<and> set as \<subseteq> A) \<and> (\<forall>v. r = Inr v \<longrightarrow> P v))"

lemma does_then:
  assumes "does A P m" "\<And>v. P v \<Longrightarrow> does A Q (f v)"
  shows "does A Q (then_do m f)"
  unfolding does_def
proof (intro allI impI)
  fix s r t
  assume run: "then_do m f s = (r, t)"
  obtain r1 s1 where m: "m s = (r1, s1)" by force
  then obtain as where as: "es_log s1 = es_log s @ as" "set as \<subseteq> A" "\<And>v. r1 = Inr v \<Longrightarrow> P v"
    using assms(1) unfolding does_def by metis
  show "(\<exists>as. es_log t = es_log s @ as \<and> set as \<subseteq> A) \<and> (\<forall>v. r = Inr v \<longrightarrow> Q v)"
  proof (cases r1)
    case (Inl e)
    then show ?thesis using run m as by (auto simp: then_do_def)
  next
    case (Inr v)
    then have "f v s1 = (r, t)" using run m by (simp add: then_do_def)
    then obtain bs where "es_log t = es_log s1 @ bs" "set bs \<subseteq> A" "\<forall>v. r = Inr v \<longrightarrow> Q v"
      using assms(2) [OF as(3) [OF Inr]] unfolding does_def by metis
    then show ?thesis using as by (intro conjI exI [of _ "as @ bs"]) auto
  qed
qed

lemma does_silent:
  assumes "\<And>s. es_log (snd (m s)) = es_log s" "\<And>s v. fst (m s) = Inr v \<Longrightarrow> P v"
  shows "does A P m"
  unfolding does_def using assms by (metis append_Nil2 empty_subsetI fst_conv list.set(1) snd_conv)

lemma does_finish [intro]: "P v \<Longrightarrow> does A P (finish v)"
  by (rule does_silent) (auto simp: finish_def)

lemma does_fail [intro]: "does A P (fail e)"
  by (rule does_silent) (auto simp: fail_def)

lemma does_from_res [intro]: "(\<And>v. r = Inr v \<Longrightarrow> P v) \<Longrightarrow> does A P (from_res r)"
  by (cases r) (auto simp: from_res_def)

lemma does_silent_steps [intro]:
  "does A (\<lambda>_. True) get_client" "does A (\<lambda>_. True) (set_client c)" "does A (\<lambda>_. True) set_registered"
  "does A (\<lambda>_. True) (set_queue_mode q)"
  by (rule does_silent; simp add: get_client_def set_client_def set_registered_def set_queue_mode_def)+

lemma does_log: "a \<in> A \<Longrightarrow> does A (\<lambda>_. True) (log_action a)"
  by (simp add: does_def)

lemma does_mono: "does A P m \<Longrightarrow> A \<subseteq> B \<Longrightarrow> (\<And>v. P v \<Longrightarrow> Q v) \<Longrightarrow> does B Q m"
  unfolding does_def by (metis subset_trans)

lemma does_request:
  assumes "a True \<in> A" "a False \<in> A" "\<And>v. r = Inr v \<Longrightarrow> P v"
  shows "does A P (request_action a r)"
proof -
  have "a (\<not> isl r) \<in> A" using assms(1,2) by (cases "isl r") auto
  then show ?thesis
    unfolding request_action_def using assms(3) by (intro does_then [OF does_log]) (auto split: sum.splits)
qed

lemma does_attempt: "does A P m \<Longrightarrow> does A (\<lambda>_. True) (attempt m)"
  unfolding does_def attempt_def by (auto split: prod.splits sum.splits entry_exn.splits)

lemma attempt_Inr: "(\<And>s. fst (m s) \<noteq> Inl Interrupt) \<Longrightarrow> fst (attempt m s) = Inr ()"
  by (auto simp: attempt_def split: prod.splits sum.splits entry_exn.splits) (metis fst_conv)

text \<open>Sequencing when the value in between does not matter.\<close>

lemmas does_seq = does_then [where P = "\<lambda>_. True"]

section \<open>The phases\<close>

definition before_run :: "entry_action set" where
  "before_run = range RegisterRun \<union> range ClaimShard"

lemma before_run_mem [simp]: "RegisterRun b \<in> before_run" "ClaimShard b \<in> before_run"
  by (simp_all add: before_run_def)

lemma does_open_sink: "does before_run (\<lambda>_. True) (open_sink w config n)"
  unfolding open_sink_def by (auto split: option.splits intro!: does_seq does_request)


lemmas does_steps = does_seq does_request does_finish does_fail does_from_res does_silent_steps does_log does_attempt


lemma does_take_shard: "does before_run (\<lambda>_. True) (take_shard w config i)"
  unfolding take_shard_def claim_next_def by (auto split: option.splits intro!: does_steps)


lemma does_make_adapter: "does A (\<lambda>_. True) (make_adapter w t)"
  unfolding make_adapter_def by (auto split: sum.splits adapter_failure.splits)

lemma does_use_limiter: "does A (\<lambda>_. True) (use_limiter w)"
  unfolding use_limiter_def by (auto intro!: does_steps)

lemma does_run_cases: "does {RunCases i} (\<lambda>_. True) (run_cases w a i n)"
  unfolding run_cases_def by (auto split: run_end.splits intro!: does_steps)

text \<open>A run that ends without the lease of its shard neither writes nor uploads.\<close>

definition terminal_marks :: "entry_action set" where
  "terminal_marks = {MarkTerminal s r | s r. True}"

lemma does_terminal: "does terminal_marks (\<lambda>_. True) (terminal_action w c run_id status reason)"
  unfolding terminal_action_def by (auto intro!: does_request simp: terminal_marks_def)


lemma does_on_failure: "does terminal_marks (\<lambda>code. code = 3) (on_failure w run_id e)"
proof -
  have "does terminal_marks (\<lambda>code. code = 3) (then_do (attempt (terminal_action w c run_id status reason)) (\<lambda>_. finish 3))"
    for c status reason by (auto intro!: does_steps does_terminal)
  then show ?thesis
    unfolding does_def on_failure_def by (fastforce split: entry_exn.splits option.splits if_splits)
qed



section \<open>The process\<close>

lemma does_handled:
  assumes "does A P m" "terminal_marks \<subseteq> A" "P 3"
  shows "does A P (guarded w r m)"
  unfolding does_def
proof (intro allI impI)
  fix s q t
  assume run: "guarded w r m s = (q, t)"
  obtain q1 s1 where m: "m s = (q1, s1)" by force
  then obtain as where as: "es_log s1 = es_log s @ as" "set as \<subseteq> A" "\<And>v. q1 = Inr v \<Longrightarrow> P v"
    using assms(1) unfolding does_def by metis
  show "(\<exists>as. es_log t = es_log s @ as \<and> set as \<subseteq> A) \<and> (\<forall>v. q = Inr v \<longrightarrow> P v)"
  proof (cases q1)
    case (Inl e)
    then have "on_failure w r e s1 = (q, t)" using run m by (simp add: guarded_def)
    then obtain bs where "es_log t = es_log s1 @ bs" "set bs \<subseteq> terminal_marks" "\<forall>v. q = Inr v \<longrightarrow> v = 3"
      using does_on_failure [of w r e] unfolding does_def by metis
    then show ?thesis using as assms(2,3) by (intro conjI exI [of _ "as @ bs"]) auto
  next
    case (Inr c)
    then show ?thesis using run m as by (auto simp: guarded_def)
  qed
qed

lemma does_execute:
  assumes "\<And>config i n. does A P (run_body w config i n)" "terminal_marks \<subseteq> A" "P 0" "P 3"
  shows "does A P (execute w v)"
  unfolding execute_def using assms
  by (auto intro!: does_seq does_from_res does_finish does_handled)

lemma entry_main_log:
  assumes "does A P (execute w v)" "entry_main w v = (code, done_log)"
  shows "set done_log \<subseteq> A" "P code \<or> code = 3 \<or> code = 130"
proof -
  obtain r t where e: "execute w v new_state = (r, t)" by force
  then obtain as where "es_log t = es_log new_state @ as" "set as \<subseteq> A" "\<And>c. r = Inr c \<Longrightarrow> P c"
    using assms(1) unfolding does_def by metis
  then show "set done_log \<subseteq> A" "P code \<or> code = 3 \<or> code = 130"
    using assms(2) e by (auto simp: entry_main_def new_state_def split: sum.splits entry_exn.splits)
qed


section \<open>A successful run\<close>

definition succeeded :: "entry_action \<Rightarrow> bool" where
  "succeeded a =
     (case a of
        RegisterRun ok \<Rightarrow> ok
      | ClaimShard ok \<Rightarrow> ok
      | RunCases _ \<Rightarrow> True
      | WriteResults ok \<Rightarrow> ok
      | UploadShard _ _ ok \<Rightarrow> ok
      | MarkTerminal _ _ \<Rightarrow> False)"

lemma get_client_Inr [simp]: "get_client s = (Inr c, t) \<longleftrightarrow> c = es_client s \<and> t = s"
  by (auto simp: get_client_def)

lemma open_sink_Inr:
  assumes "open_sink w config n s = (Inr (), t)"
  shows "from_environment (ew_config_env w) (ew_getenv w) = Inr (es_client t)"
    "\<exists>as. es_log t = es_log s @ as \<and> set as \<subseteq> {RegisterRun True}"
  using assms
  by (auto simp: open_sink_def set_client_def set_registered_def split: option.splits if_splits)

lemma take_shard_Inr:
  assumes "take_shard w config i s = (Inr r, t)"
  shows "es_client t = es_client s" "\<exists>as. es_log t = es_log s @ as \<and> set as \<subseteq> {ClaimShard True}"
  using assms
  by (auto simp: take_shard_def claim_next_def set_queue_mode_def split: option.splits if_splits)

lemma make_adapter_Inr [simp]: "make_adapter w tg s = (Inr a, t) \<Longrightarrow> t = s"
  by (auto simp: make_adapter_def split: sum.splits adapter_failure.splits)

lemma use_limiter_Inr [simp]: "use_limiter w s = (Inr a, t) \<Longrightarrow> t = s"
  by (auto simp: use_limiter_def split: if_splits)

lemma run_cases_Inr: "run_cases w a i n s = (Inr r, t) \<Longrightarrow> t = s\<lparr>es_log := es_log s @ [RunCases i]\<rparr>"
  by (auto simp: run_cases_def split: run_end.splits)

lemma settle_Inr:
  assumes "settle w config limited i lease lost results summary s = (Inr code, t)" "code = 0 \<or> code = 2"
  shows "es_log t = es_log s @ WriteResults True # (if es_client s = None then [] else [UploadShard i lease True])"
  using assms
  by (auto simp: settle_def write_action_def upload_action_def split: if_splits option.splits)

lemma run_body_Inr:
  assumes "run_body w config i n s = (Inr code, t)" "code = 0 \<or> code = 2"
  shows "\<exists>as. es_log t = es_log s @ as \<and> list_all succeeded as \<and>
    (\<forall>j. RunCases j \<in> set as \<longrightarrow> WriteResults True \<in> set as \<and>
       (\<forall>c. from_environment (ew_config_env w) (ew_getenv w) = Inr (Some c) \<longrightarrow> (\<exists>lease. last as = UploadShard j lease True)))"
proof -
  obtain s1 s2 shard where s1: "open_sink w config n s = (Inr (), s1)" and s2: "take_shard w config i s1 = (Inr shard, s2)"
    and rest: "(case shard of None \<Rightarrow> finish 0
       | Some (i, lease, lost) \<Rightarrow> then_do (make_adapter w (rc_target config)) (\<lambda>a. then_do (use_limiter w) (\<lambda>limited.
         then_do (run_cases w a i n) (\<lambda>(results, summary). settle w config limited i lease lost results summary)))) s2 = (Inr code, t)"
    using assms(1) by (auto simp: run_body_def)
  obtain as where as: "es_log s2 = es_log s @ as" "set as \<subseteq> {RegisterRun True, ClaimShard True}"
    using open_sink_Inr(2) [OF s1] take_shard_Inr(2) [OF s2] by fastforce
  then have ok: "list_all succeeded as" "\<And>j. RunCases j \<notin> set as" by (auto simp: list_all_iff succeeded_def)
  show ?thesis
  proof (cases shard)
    case None
    then show ?thesis using rest as ok by auto
  next
    case (Some x)
    obtain j lease lost where x: "x = (j, lease, lost)" by (metis surj_pair)
    obtain a limited results summary where
      "settle w config limited j lease lost results summary (s2\<lparr>es_log := es_log s2 @ [RunCases j]\<rparr>) = (Inr code, t)"
      using rest by (auto simp: Some x dest!: make_adapter_Inr use_limiter_Inr run_cases_Inr)
    define bs where "bs = as @ RunCases j # WriteResults True # (if es_client s2 = None then [] else [UploadShard j lease True])"
    from settle_Inr [OF \<open>settle _ _ _ _ _ _ _ _ _ = _\<close> assms(2)] have log: "es_log t = es_log s @ bs" by (simp add: as bs_def)
    have "list_all succeeded bs" using ok(1) by (simp add: bs_def succeeded_def)
    moreover have "WriteResults True \<in> set bs" "k = j" if "RunCases k \<in> set bs" for k
      using that ok(2) by (auto simp: bs_def split: if_splits)
    moreover have "last bs = UploadShard j lease True" if "from_environment (ew_config_env w) (ew_getenv w) = Inr (Some c)" for c
      using that open_sink_Inr(1) [OF s1] take_shard_Inr(1) [OF s2] by (simp add: bs_def)
    ultimately show ?thesis using log by blast
  qed
qed

text \<open>Without the opt-in to spend, no step of the run is taken.\<close>

definition opted_in :: "entry_world \<Rightarrow> bool" where
  "opted_in w \<longleftrightarrow>
     (\<exists>config. rbind (ew_document w) (load_run_config (ew_config_env w)) = Inr config \<and>
        provider_spend_allowed (ew_getenv w) (tg_provider (rc_target config)))"

lemma execute_not_opted_in:
  assumes "\<not> opted_in w"
  shows "es_log (snd (execute w v s)) = es_log s"
proof -
  have "does {} (\<lambda>_. True) (execute w v)"
    unfolding execute_def
  proof (rule does_then [where P = "\<lambda>c. rbind (ew_document w) (load_run_config (ew_config_env w)) = Inr c"])
    fix config
    assume "rbind (ew_document w) (load_run_config (ew_config_env w)) = Inr config"
    then have "\<not> provider_spend_allowed (ew_getenv w) (tg_provider (rc_target config))"
      using assms unfolding opted_in_def by blast
    then show "does {} (\<lambda>_. True)
      (then_do (from_res (rbind (ew_dataset w) (load_dataset (ew_config_env w)))) (\<lambda>cases.
       if v then finish 0
       else if \<not> provider_spend_allowed (ew_getenv w) (tg_provider (rc_target config)) then finish 3
       else k config cases))" for k :: "run_config \<Rightarrow> test_case list \<Rightarrow> int step"
      by (auto intro!: does_steps)
  qed (rule does_from_res)
  then show ?thesis unfolding does_def by (metis append_Nil2 prod.collapse set_empty subset_empty)
qed

lemma on_failure_code: "on_failure w r e s = (Inr code, t) \<Longrightarrow> code = 3"
  using does_on_failure [of w r e] unfolding does_def by metis

lemma guarded_Inr: "guarded w r m s = (Inr code, t) \<Longrightarrow> code \<noteq> 3 \<Longrightarrow> m s = (Inr code, t)"
  by (auto simp: guarded_def split: prod.splits sum.splits dest: on_failure_code)

lemma entry_main_success:
  assumes "entry_main w False = (code, acts)" "code = 0 \<or> code = 2"
  shows "list_all succeeded acts \<and>
    (\<forall>j. RunCases j \<in> set acts \<longrightarrow> WriteResults True \<in> set acts \<and>
       (\<forall>c. from_environment (ew_config_env w) (ew_getenv w) = Inr (Some c) \<longrightarrow> (\<exists>lease. last acts = UploadShard j lease True)))"
proof -
  obtain t where t: "execute w False new_state = (Inr code, t)" "acts = es_log t"
    using assms by (auto simp: entry_main_def split: prod.splits sum.splits entry_exn.splits)
  then obtain config i n where "run_body w config i n new_state = (Inr code, t)"
    using assms(2)
    by (auto simp: execute_def split: if_splits dest!: guarded_Inr)
  from run_body_Inr [OF this assms(2)] show ?thesis by (auto simp: t(2) new_state_def)
qed

text \<open>The exit codes.\<close>

definition exit_ok :: "entry_world \<Rightarrow> int \<Rightarrow> bool" where
  "exit_ok w code \<longleftrightarrow> code \<in> {0, 2, 3} \<or> code = 130 \<and> ew_stop_set w"

lemma does_finish_cancelled: "does UNIV (\<lambda>_. True) (finish_cancelled w r i results summary lease)"
  unfolding finish_cancelled_def write_action_def upload_action_def terminal_action_def
  by (auto split: option.splits intro!: does_steps)

lemma does_settle: "does UNIV (exit_ok w) (settle w config l i lease lost results summary)"
  unfolding settle_def permit_lost_action_def write_action_def upload_action_def terminal_action_def
  by (auto split: option.splits intro!: does_steps does_finish_cancelled simp: exit_ok_def)

lemma does_body: "does UNIV (exit_ok w) (run_body w config i n)"
  unfolding run_body_def
  by (auto split: option.splits prod.splits
      intro!: does_seq does_finish does_mono [OF does_open_sink] does_mono [OF does_take_shard] does_make_adapter does_use_limiter
        does_mono [OF does_run_cases] does_settle)
    (simp add: exit_ok_def)

section \<open>A concrete world\<close>

text \<open>
  The sample document and dataset, a result API that answers every request, and a run with one result. In queue
  mode the shard is claimed and the first renewal of its lease fails.
\<close>

definition sample_world :: "bool \<Rightarrow> entry_world" where
  "sample_world queue =
     \<lparr>ew_document = Inr sample_document, ew_dataset = Inr ''L'',
      ew_getenv = map_of
        [(''AGENTSTORM_ALLOW_PROVIDER_SPEND'', ''1''), (''AGENTSTORM_RESULT_API_URL'', ''https://api''),
         (''AGENTSTORM_RESULT_WRITE_TOKEN'', ''t''), (''AGENTSTORM_QUEUE_MODE'', if queue then ''true'' else ''false'')],
      ew_config_env = sample_env, ew_opener = (\<lambda>_. Responds 200 (Inr ''C'')), ew_sdk_installed = False,
      ew_resolve = (\<lambda>_ _. ImportRaises), ew_otel_installed = False,
      ew_run = (\<lambda>_ _ _. RunReturns [sample_result] sample_summary), ew_stop_set = False,
      ew_renewals = [Inl (SinkError ''result API is unavailable'')], ew_permit_lost = False, ew_write = Inr (), ew_flush_cut = None\<rparr>"

lemmas numeral_text = digit_groups_def drop_underscores_def apply_sign_def py_strip_def py_lstrip_def py_rstrip_def py_isspace_def
  py_isdigit_def nat_of_str_def digit_val_def py_lower_def py_lower_char_def Let_def

lemma sample_ints: "int_of_text ''0'' = Inr 0" "int_of_text ''1'' = Inr 1"
  by (simp_all add: int_of_text_def numeral_text)

lemma sample_float: "float_of_text ''30'' = Inr (Fin 30)"
proof -
  have "decimal_value ''30'' = Some 30" by (simp add: decimal_value_def mantissa_def numeral_text)
  moreover have "double_of_rat 30 = Fin 30" using f64_of_int [of 30] by (simp add: double_of_rat_def)
  ultimately show ?thesis by (simp add: float_of_text_def numeral_text)
qed

lemma sample_sink: "from_environment sample_env (ew_getenv (sample_world q)) = Inr (Some sample_client)"
  by (simp add: sample_world_def from_environment_def getenv_or_def environment_boolean_def result_client_def sample_env_def sample_url_def
      sample_client_def numeral_text absent_def rstrip_char_def sample_float)

lemma sample_settings:
  "environment_boolean (ew_getenv (sample_world q)) ''AGENTSTORM_QUEUE_MODE'' False = Inr q"
  "environment_boolean (ew_getenv (sample_world q)) ''AGENTSTORM_DISTRIBUTED_LIMITS'' False = Inr False"
  "pre_registered (ew_getenv (sample_world q)) = False" "ew_getenv (sample_world q) ''AGENTSTORM_OTEL_ENABLED'' = None"
  "getenv_or (ew_getenv (sample_world q)) ''AGENTSTORM_SHARD_COUNT'' ''1'' = ''1''"
  "getenv_or (ew_getenv (sample_world q)) ''AGENTSTORM_SHARD_INDEX'' ''0'' = ''0''"
  "ew_getenv (sample_world q) ''AGENTSTORM_ALLOW_PROVIDER_SPEND'' = Some ''1''"
  by (simp_all add: sample_world_def environment_boolean_def pre_registered_def getenv_or_def numeral_text)

lemma sample_fields [simp]:
  "ew_document (sample_world q) = Inr sample_document" "ew_dataset (sample_world q) = Inr ''L''"
  "ew_config_env (sample_world q) = sample_env" "ew_stop_set (sample_world q) = False"
  "ew_run (sample_world q) a i n = RunReturns [sample_result] sample_summary" "ew_write (sample_world q) = Inr ()"
  "ew_permit_lost (sample_world q) = False" "ew_renewals (sample_world q) = [Inl (SinkError ''result API is unavailable'')]"
  "ew_opener (sample_world q) rq = Responds 200 (Inr ''C'')"
  by (simp_all add: sample_world_def)

lemma sample_adapter: "\<exists>a. make_adapter (sample_world q) (rc_target sample_config) = finish a"
proof -
  have "field_count (rc_target sample_config) \<le> 16" using sample_target by (simp add: field_count_def)
  with chat_adapter_of_config [OF sample_document_loads] sample_target
  obtain ca where "create_chat_adapter (ce_urlsplit sample_env) (ce_frep sample_env) (context_of_target (rc_target sample_config)) = Inr ca"
    by auto
  then show ?thesis
    using sample_target by (auto simp: make_adapter_def create_adapter_def context_of_target_def lift_adapter_def)
qed

lemma sample_claimed:
  "claim_shard sample_env client (ew_opener (sample_world q)) run_id worker =
     Inr (Some \<lparr>qc_shard_index = 0, qc_lease_token = ''t'', qc_renew_after_ms = 1000\<rparr>)"
  by (simp add: claim_shard_def http_post_def lift_sink_def loads_body_def sample_env_def sample_claim_def index_int_def index_str_def
      dict_index_def dict_get_def)

lemma sample_run:
  "entry_main (sample_world False) False =
     (0, [RegisterRun True, RunCases 0, WriteResults True, UploadShard 0 None True])"
  "entry_main (sample_world True) False = (3, [RegisterRun True, ClaimShard True, RunCases 0])"
proof -
  obtain a where a: "\<And>q. make_adapter (sample_world q) (rc_target sample_config) = finish (a q)"
    using sample_adapter by metis
  note run = entry_main_def execute_def from_res_def finish_def sample_document_loads sample_dataset_loads provider_spend_allowed_def
    sample_settings sample_ints telemetry_from_environment_def boolean_environment_def sample_target guarded_def run_body_def
    open_sink_def sample_sink set_client_def set_registered_def request_action_def log_action_def take_shard_def set_queue_mode_def
    get_client_def claim_next_def sample_claimed use_limiter_def run_cases_def check_shard_def settle_def write_action_def
    upload_action_def permit_lost_action_def then_do_def new_state_def a client_served [where status = 200 and body = "''C''"]
  show "entry_main (sample_world False) False =
     (0, [RegisterRun True, RunCases 0, WriteResults True, UploadShard 0 None True])"
    by (simp add: run sample_summary_def)
  show "entry_main (sample_world True) False = (3, [RegisterRun True, ClaimShard True, RunCases 0])"
    by (simp add: run)
qed

lemma execute_validates: "es_log (snd (execute w True s)) = es_log s"
  by (auto simp: execute_def then_do_def from_res_def finish_def fail_def split: sum.splits)

section \<open>Properties\<close>

text \<open>C8: when a worker exits with 0 or 2, every step it took succeeded and no run was marked as failed or cancelled; and if it
  ran the cases of a shard, it wrote their results and, with a result API configured, ended by uploading that very shard.\<close>

theorem entry_success:
  assumes "entry_main w False = (code, acts)" and "code = 0 \<or> code = 2"
  shows "list_all succeeded acts \<and>
    (\<forall>j. RunCases j \<in> set acts \<longrightarrow> WriteResults True \<in> set acts \<and>
       (\<forall>c. from_environment (ew_config_env w) (ew_getenv w) = Inr (Some c) \<longrightarrow> (\<exists>lease. last acts = UploadShard j lease True)))"
  using assms by (rule entry_main_success)

theorem entry_success_witness:
  "\<exists>acts. entry_main (sample_world False) False = (0, acts) \<and> list_all succeeded acts \<and> WriteResults True \<in> set acts"
  using entry_success [OF sample_run(1)] sample_run(1) by auto



text \<open>C31: the process always ends with one of four exit codes. Without the opt-in that a paid provider needs, or when only asked to
  validate, it takes no step at all: nothing is registered, claimed, run, written or uploaded.\<close>

theorem entry_spend:
  assumes "entry_main w v = (code, acts)"
  shows "code \<in> {0, 2, 3, 130} \<and> (v \<or> \<not> opted_in w \<longrightarrow> acts = [])"
proof -
  have "does UNIV (exit_ok w) (execute w v)" by (rule does_execute [OF does_body]) (auto simp: exit_ok_def)
  from entry_main_log(2) [OF this assms] have "code \<in> {0, 2, 3, 130}" by (auto simp: exit_ok_def)
  moreover have "acts = es_log (snd (execute w v new_state))"
    using assms by (auto simp: entry_main_def split: prod.splits sum.splits entry_exn.splits)
  ultimately show ?thesis
    using execute_not_opted_in [of w v new_state] execute_validates [of w new_state] by (auto simp: new_state_def)
qed

text \<open>The sample world without the opt-in.\<close>

theorem entry_spend_witness:
  "entry_main (sample_world False\<lparr>ew_getenv := (\<lambda>_. None)\<rparr>) False = (3, [])"
proof -
  let ?w = "sample_world False\<lparr>ew_getenv := (\<lambda>_. None)\<rparr>"
  have code: "fst (entry_main ?w False) = 3"
    by (simp add: entry_main_def execute_def from_res_def then_do_def finish_def sample_document_loads sample_dataset_loads
        provider_spend_allowed_def sample_target)
  have "\<not> opted_in ?w"
    by (simp add: opted_in_def provider_spend_allowed_def sample_document_loads sample_target)
  with entry_spend [of ?w False "fst (entry_main ?w False)" "snd (entry_main ?w False)"] code show ?thesis
    by (metis prod.collapse)
qed

end
