(* ===== verification/Promptfoo.thy ===== *)
theory Promptfoo
  imports Web
begin

text \<open>
  \<open>integrations/promptfoo\<close>: the replay of a completed run. \<open>client.py\<close> reads the run and its cases from
  the result API, \<open>generate.py\<close> builds a Promptfoo configuration from them and the dataset, \<open>provider.py\<close>
  answers Promptfoo's calls from the cached cases.

  The result API is the opener, a function from the request to the reply; \<open>json.load\<close>, \<open>urlsplit\<close> and
  \<open>repr\<close> are fields of \<open>config_env\<close>. The list of cases is read page by page until the API stops giving
  a cursor, which nothing but the API bounds: the reading is a partial function, and \<open>None\<close> is a
  reading that never ends.
\<close>

section \<open>Errors and requests\<close>

datatype api_exn = ApiError string | ApiRaises py_error

definition lift_api :: "'a res \<Rightarrow> api_exn + 'a" where
  "lift_api r = (case r of Inl e \<Rightarrow> Inl (ApiRaises e) | Inr v \<Rightarrow> Inr v)"

record replay_client =
  rp_base_url :: string
  rp_token :: string

definition read_token_from_environment :: "(string \<Rightarrow> string option) \<Rightarrow> api_exn + string" where
  "read_token_from_environment getenv =
     (let token = (case getenv ''AGENTSTORM_RESULT_READ_TOKEN'' of None \<Rightarrow> [] | Some t \<Rightarrow> t)
      in raise_if (token = []) (ApiError ''AGENTSTORM_RESULT_READ_TOKEN is required'') (Inr token))"

text \<open>\<open>urlunsplit((scheme, netloc, path, "", ""))\<close> for a netloc and a scheme that are not empty.\<close>

definition urlunsplit :: "string \<Rightarrow> string \<Rightarrow> string \<Rightarrow> string" where
  "urlunsplit scheme netloc path =
     scheme @ ''://'' @ netloc @ (if path \<noteq> [] \<and> hd path \<noteq> CHR ''/'' then ''/'' @ path else path)"

definition normalize_base_url :: "config_env \<Rightarrow> string \<Rightarrow> api_exn + string" where
  "normalize_base_url env value =
     rbind (lift_api (ce_urlsplit env value)) (\<lambda>parsed.
     raise_if ((up_scheme parsed \<noteq> ''http'' \<and> up_scheme parsed \<noteq> ''https'') \<or> up_netloc parsed = [])
       (ApiError ''Result API URL must be an absolute HTTP(S) URL'')
     (raise_if (\<not> absent (up_username parsed) \<or> \<not> absent (up_password parsed) \<or> up_query parsed \<noteq> [] \<or> up_fragment parsed \<noteq> [])
       (ApiError ''Result API URL must not contain credentials, a query, or a fragment'')
     (Inr (urlunsplit (up_scheme parsed) (up_netloc parsed) (rstrip_char (CHR ''/'') (up_path parsed))))))"

definition result_api_client :: "config_env \<Rightarrow> string \<Rightarrow> string \<Rightarrow> api_exn + replay_client" where
  "result_api_client env base_url token =
     rbind (normalize_base_url env base_url) (\<lambda>url.
     raise_if (token = []) (ApiError ''Result API read token is required'')
     (Inr \<lparr>rp_base_url = url, rp_token = token\<rparr>))"

definition api_get :: "config_env \<Rightarrow> replay_client \<Rightarrow> (http_request \<Rightarrow> http_reply) \<Rightarrow> string \<Rightarrow> api_exn + json dict" where
  "api_get env client opener path =
     (case opener \<lparr>rq_method = ''GET'', rq_url = rp_base_url client @ path,
         rq_headers = [(''Accept'', ''application/json''), (''Authorization'', ''Bearer '' @ rp_token client)], rq_data = []\<rparr> of
        Responds _ (Inl e) \<Rightarrow> Inl (ApiRaises e)
      | Responds _ (Inr body) \<Rightarrow>
          (case ce_loads env body of
             Inl _ \<Rightarrow> Inl (ApiError ''Result API request failed'')
           | Inr (JObj d) \<Rightarrow> Inr d
           | Inr _ \<Rightarrow> Inl (ApiError ''Result API returned a non-object response''))
      | HttpError code _ \<Rightarrow> Inl (ApiError (''Result API request failed with HTTP '' @ str_of_int code))
      | Unreachable \<Rightarrow> Inl (ApiError ''Result API request failed'')
      | OpenerRaises e \<Rightarrow> Inl (ApiRaises e))"

definition quote_run_id :: "string \<Rightarrow> api_exn + string" where
  "quote_run_id run_id = raise_if (run_id = []) (ApiError ''run ID is required'') (Inr (url_quote run_id))"

definition get_run :: "config_env \<Rightarrow> replay_client \<Rightarrow> (http_request \<Rightarrow> http_reply) \<Rightarrow> string \<Rightarrow> api_exn + json dict" where
  "get_run env client opener run_id =
     rbind (quote_run_id run_id) (\<lambda>q. api_get env client opener (''/v1/runs/'' @ q))"

section \<open>Reading all cases\<close>

fun objects :: "json list \<Rightarrow> json dict list option" where
  "objects [] = Some []"
| "objects (JObj d # vs) = map_option ((#) d) (objects vs)"
| "objects (_ # vs) = None"

text \<open>One page: its cases and the cursor of the next one, None on the last.\<close>

definition read_page :: "config_env \<Rightarrow> string list \<Rightarrow> json dict \<Rightarrow> api_exn + json dict list \<times> string option" where
  "read_page env seen page =
     rbind (case obj_get page ''cases'' of
              JList raw \<Rightarrow>
                (case objects raw of
                   Some ds \<Rightarrow> Inr ds
                 | None \<Rightarrow> Inl (ApiError ''Result API case page contains an invalid case''))
            | _ \<Rightarrow> Inl (ApiError ''Result API case page is missing a cases array'')) (\<lambda>ds.
     rbind (case obj_get page ''next_cursor'' of
              JNull \<Rightarrow> Inr None
            | JStr c \<Rightarrow>
                if c = [] then Inr None
                else if c \<in> set seen then Inl (ApiError ''Result API repeated a pagination cursor'')
                else Inr (Some c)
            | JList _ \<Rightarrow> Inl (ApiRaises (TypeError (''unhashable type: '' @ quoted ''list'')))
            | JObj _ \<Rightarrow> Inl (ApiRaises (TypeError (''unhashable type: '' @ quoted ''dict'')))
            | _ \<Rightarrow> Inl (ApiError ''Result API returned an invalid pagination cursor'')) (\<lambda>next_cursor.
     Inr (ds, next_cursor)))"

definition page_path :: "string \<Rightarrow> string \<Rightarrow> string" where
  "page_path quoted_run_id cursor =
     ''/v1/runs/'' @ quoted_run_id @ ''/cases?limit=500'' @ (if cursor \<noteq> [] then ''&cursor='' @ url_quote_plus cursor else [])"

definition fetch_page :: "config_env \<Rightarrow> replay_client \<Rightarrow> (http_request \<Rightarrow> http_reply) \<Rightarrow> string \<Rightarrow> string list \<Rightarrow> string \<Rightarrow>
    api_exn + json dict list \<times> string option" where
  "fetch_page env client opener run_id seen cursor =
     rbind (quote_run_id run_id) (\<lambda>q.
     rbind (api_get env client opener (page_path q cursor)) (\<lambda>page.
     read_page env seen page))"

partial_function (option) list_pages :: "(string list \<Rightarrow> string \<Rightarrow> api_exn + json dict list \<times> string option) \<Rightarrow>
    json dict list \<Rightarrow> string list \<Rightarrow> string \<Rightarrow> (api_exn + json dict list) option" where
  "list_pages fetch acc seen cursor =
     (case fetch seen cursor of
        Inl e \<Rightarrow> Some (Inl e)
      | Inr (ds, None) \<Rightarrow> Some (Inr (acc @ ds))
      | Inr (ds, Some c) \<Rightarrow> list_pages fetch (acc @ ds) (c # seen) c)"

definition list_all_cases ::
  "config_env \<Rightarrow> replay_client \<Rightarrow> (http_request \<Rightarrow> http_reply) \<Rightarrow> string \<Rightarrow> (api_exn + json dict list) option" where
  "list_all_cases env client opener run_id = list_pages (fetch_page env client opener run_id) [] [] []"

definition case_identity :: "config_env \<Rightarrow> json dict \<Rightarrow> string" where
  "case_identity env d =
     py_str (ce_repr env) (obj_get_default d ''case_id'' (JStr ''<unknown>'')) @ ''#'' @
     py_str (ce_repr env) (obj_get_default d ''iteration'' (JStr ''<unknown>''))"

definition is_text :: "json \<Rightarrow> bool" where
  "is_text v = (case v of JStr _ \<Rightarrow> True | _ \<Rightarrow> False)"

text \<open>The checks of \<open>completed_replay\<close> on what was read.\<close>

definition check_replay :: "config_env \<Rightarrow> string \<Rightarrow> json dict list \<Rightarrow> api_exn + json dict list" where
  "check_replay env run_id ds =
     (let rep = ce_repr env (JStr run_id);
          missing = map (case_identity env) (filter (\<lambda>d. \<not> is_text (obj_get d ''output'')) ds)
      in raise_if (ds = []) (ApiError (''run '' @ rep @ '' has no durable cases''))
         (raise_if (missing \<noteq> [])
           (ApiError (''durable output is unavailable for run '' @ rep @
              ''; enable sensitive durable results before execution (missing: '' @ join_str '', '' (take 3 missing) @ '')''))
         (Inr ds)))"

definition completed_replay ::
  "config_env \<Rightarrow> replay_client \<Rightarrow> (http_request \<Rightarrow> http_reply) \<Rightarrow> string \<Rightarrow> (api_exn + json dict list) option" where
  "completed_replay env client opener run_id =
     (case get_run env client opener run_id of
        Inl e \<Rightarrow> Some (Inl e)
      | Inr run \<Rightarrow>
          if obj_get run ''status'' \<noteq> JStr ''complete''
          then Some (Inl (ApiError (''run '' @ ce_repr env (JStr run_id) @ '' is not complete'')))
          else map_option (\<lambda>r. rbind r (check_replay env run_id)) (list_all_cases env client opener run_id))"

section \<open>The generator\<close>

definition replay_case_of_line :: "config_env \<Rightarrow> json dict dict \<Rightarrow> nat \<Rightarrow> string \<Rightarrow> api_exn + string \<times> json dict" where
  "replay_case_of_line env cases line_number line =
     (case ce_loads env line of
        Inl _ \<Rightarrow> Inl (ApiError (''invalid dataset JSONL at line '' @ str_of_nat line_number))
      | Inr (JObj d) \<Rightarrow>
          (let case_id = text_or env (obj_get d ''id'') (''case-'' @ str_of_nat line_number)
           in raise_if (dict_get cases case_id \<noteq> None)
                (ApiError (''duplicate dataset case ID '' @ ce_repr env (JStr case_id))) (Inr (case_id, d)))
      | Inr _ \<Rightarrow> Inl (ApiError (''dataset line '' @ str_of_nat line_number @ '' must be an object'')))"

fun replay_cases_of_lines :: "config_env \<Rightarrow> json dict dict \<Rightarrow> (nat \<times> string) list \<Rightarrow> api_exn + json dict dict" where
  "replay_cases_of_lines env cases [] = Inr cases"
| "replay_cases_of_lines env cases ((n, line) # lines) =
     (if py_strip line = [] then replay_cases_of_lines env cases lines
      else rbind (replay_case_of_line env cases n line) (\<lambda>(case_id, d).
           replay_cases_of_lines env (dict_set cases case_id d) lines))"

definition replay_load_dataset :: "config_env \<Rightarrow> string \<Rightarrow> api_exn + json dict dict" where
  "replay_load_dataset env text =
     rbind (replay_cases_of_lines env [] (enum_from 1 (splitlines text))) (\<lambda>cases.
     raise_if (cases = []) (ApiError ''dataset contains no cases'') (Inr cases))"

definition replay_assertions :: "json dict \<Rightarrow> api_exn + json dict list" where
  "replay_assertions d =
     rbind (case obj_get d ''expected_contains'' of
              JNull \<Rightarrow> Inr []
            | JStr legacy \<Rightarrow> Inr [[(''type'', JStr ''contains''), (''value'', JStr legacy)]]
            | _ \<Rightarrow> Inl (ApiError ''expected_contains must be a string'')) (\<lambda>legacy.
     case obj_get_default d ''assertions'' (JList []) of
       JList raw \<Rightarrow>
         (case objects raw of
            Some declared \<Rightarrow> Inr (legacy @ declared)
          | None \<Rightarrow> Inl (ApiError ''assertions must be an array of objects''))
     | _ \<Rightarrow> Inl (ApiError ''assertions must be an array of objects''))"



definition safe_outcome :: "json \<Rightarrow> json list" where
  "safe_outcome v =
     (case v of
        JObj d \<Rightarrow>
          [JObj [(''index'', obj_get d ''index''), (''type'', obj_get d ''type''), (''passed'', obj_get d ''passed''),
                 (''reason_code'', obj_get d ''reason_code'')]]
      | _ \<Rightarrow> [])"

definition safe_outcomes :: "json dict \<Rightarrow> json" where
  "safe_outcomes d =
     (case obj_get_default d ''assertions'' (JList []) of
        JList vs \<Rightarrow> JList (concat (map safe_outcome vs))
      | _ \<Rightarrow> JList [])"

text \<open>The identity of a durable result: a text and an integer that is no bool.\<close>

definition identity_of :: "json dict \<Rightarrow> (string \<times> int) option" where
  "identity_of d =
     (case (obj_get d ''case_id'', obj_get d ''iteration'') of (JStr c, JInt i) \<Rightarrow> Some (c, i) | _ \<Rightarrow> None)"

definition repeated :: "config_env \<Rightarrow> string \<times> int \<Rightarrow> api_exn" where
  "repeated env = (\<lambda>(c, i). ApiError (''durable results repeat '' @ ce_repr env (JStr c) @ '' iteration '' @ str_of_int i))"





section \<open>The provider\<close>

type_synonym case_cache = "((string \<times> string \<times> string) \<times> ((string \<times> int) \<times> json dict) list) list"

fun index_cases :: "config_env \<Rightarrow> ((string \<times> int) \<times> json dict) list \<Rightarrow> json dict list \<Rightarrow>
    api_exn + ((string \<times> int) \<times> json dict) list" where
  "index_cases env indexed [] = Inr indexed"
| "index_cases env indexed (result # results) =
     (case identity_of result of
        None \<Rightarrow> Inl (ApiError ''durable result has an invalid case identity'')
      | Some ident \<Rightarrow>
          raise_if (map_of indexed ident \<noteq> None) (repeated env ident)
          (index_cases env (indexed @ [(ident, result)]) results))"

text \<open>What \<open>_cached_cases\<close> reads when its cache has no entry.\<close>

definition fresh_cases :: "config_env \<Rightarrow> (http_request \<Rightarrow> http_reply) \<Rightarrow> string \<Rightarrow> string \<Rightarrow> string \<Rightarrow>
    (api_exn + ((string \<times> int) \<times> json dict) list) option" where
  "fresh_cases env opener url run_id token =
     (case result_api_client env url token of
        Inl e \<Rightarrow> Some (Inl e)
      | Inr client \<Rightarrow> map_option (\<lambda>r. rbind r (index_cases env [])) (completed_replay env client opener run_id))"

text \<open>\<open>token_key\<close> is the hexadecimal SHA-256 of a token.\<close>

definition cached_cases :: "config_env \<Rightarrow> (string \<Rightarrow> string) \<Rightarrow> (http_request \<Rightarrow> http_reply) \<Rightarrow> case_cache \<Rightarrow> string \<Rightarrow> string \<Rightarrow> string \<Rightarrow>
    ((api_exn + ((string \<times> int) \<times> json dict) list) \<times> case_cache) option" where
  "cached_cases env token_key opener cache url run_id token =
     (let key = (url, run_id, token_key token)
      in case map_of cache key of
           Some indexed \<Rightarrow> Some (Inr indexed, cache)
         | None \<Rightarrow>
             map_option (\<lambda>r. case r of Inl e \<Rightarrow> (Inl e, cache) | Inr indexed \<Rightarrow> (Inr indexed, (key, indexed) # cache))
               (fresh_cases env opener url run_id token))"

definition non_negative_int :: "json \<Rightarrow> string \<Rightarrow> api_exn + int" where
  "non_negative_int value fld =
     (case value of
        JInt n \<Rightarrow> raise_if (n < 0) (ApiError (''durable result '' @ fld @ '' is invalid'')) (Inr n)
      | _ \<Rightarrow> Inl (ApiError (''durable result '' @ fld @ '' is invalid'')))"

text \<open>\<open>round(latency_ms)\<close> of a number.\<close>

definition rounded :: "json \<Rightarrow> api_exn + json dict" where
  "rounded v =
     (case v of
        JInt i \<Rightarrow> Inr [(''latencyMs'', JInt i)]
      | JFloat (Fin x) \<Rightarrow> Inr [(''latencyMs'', JInt (round_half_even x))]
      | JFloat NaN \<Rightarrow> Inl (ApiRaises (ValueError ''cannot convert float NaN to integer''))
      | JFloat _ \<Rightarrow> Inl (ApiRaises OverflowError)
      | _ \<Rightarrow> Inr [])"

text \<open>
  \<open>Decimal(s)\<close> when it is finite: the constructor strips blanks and drops underscores. What it refuses
  and what it reads as a NaN or an infinity end in the same error.
\<close>

definition finite_decimal :: "string \<Rightarrow> rat option" where
  "finite_decimal s =
     (case split_sign (py_lower (drop_underscores (py_strip s))) of (neg, body) \<Rightarrow>
        map_option (apply_sign neg) (decimal_value body))"

definition replay_cost :: "config_env \<Rightarrow> json \<Rightarrow> api_exn + json dict" where
  "replay_cost env v =
     (if v = JNull then Inr []
      else case finite_decimal (py_str (ce_repr env) v) of
             None \<Rightarrow> Inl (ApiError ''durable result cost_usd is invalid'')
           | Some x \<Rightarrow>
               raise_if (x < 0) (ApiError ''durable result cost_usd is invalid'') (Inr [(''cost'', JFloat (double_of_rat x))]))"

definition replay_response :: "config_env \<Rightarrow> string \<Rightarrow> json dict \<Rightarrow> api_exn + json dict" where
  "replay_response env run_id result =
     (case obj_get result ''output'' of
        JStr output \<Rightarrow>
          rbind (non_negative_int (obj_get result ''input_tokens'') ''input_tokens'') (\<lambda>input_tokens.
          rbind (non_negative_int (obj_get result ''output_tokens'') ''output_tokens'') (\<lambda>output_tokens.
          rbind (rounded (obj_get result ''latency_ms'')) (\<lambda>latency.
          rbind (replay_cost env (obj_get result ''cost_usd'')) (\<lambda>cost.
          Inr ([(''output'', JStr output),
                (''tokenUsage'', JObj [(''prompt'', JInt input_tokens), (''completion'', JInt output_tokens),
                   (''total'', JInt (input_tokens + output_tokens)), (''numRequests'', JInt 0)]),
                (''metadata'', JObj [(''agentstorm'', JObj
                   [(''replay'', JBool True), (''run_id'', JStr run_id), (''case_id'', obj_get result ''case_id''),
                    (''iteration'', obj_get result ''iteration''),
                    (''tool_path'', obj_get_default result ''tool_path'' (JList [])),
                    (''assertions'', safe_outcomes result), (''cost_usd'', obj_get result ''cost_usd'')])])]
               @ latency @ cost)))))
      | _ \<Rightarrow> Inl (ApiError ''durable result output must be a string''))"

text \<open>The arguments of a call that \<open>call_api\<close> checks before it reads anything.\<close>

definition call_arguments :: "json dict \<Rightarrow> json dict \<Rightarrow> api_exn + string \<times> string \<times> string \<times> int" where
  "call_arguments options context =
     (case obj_get_default options ''config'' (JObj []) of
        JObj config \<Rightarrow>
          (case (obj_get config ''resultApiUrl'', obj_get config ''runId'') of
             (JStr url, JStr run_id) \<Rightarrow>
               (case obj_get_default context ''vars'' (JObj []) of
                  JObj variables \<Rightarrow>
                    (case (obj_get variables ''agentstorm_case_id'', obj_get variables ''agentstorm_iteration'') of
                       (JStr c, JInt i) \<Rightarrow> Inr (url, run_id, c, i)
                     | _ \<Rightarrow> Inl (ApiError ''Promptfoo test requires case ID and integer iteration vars''))
                | _ \<Rightarrow> Inl (ApiError ''Promptfoo context vars must be an object''))
           | _ \<Rightarrow> Inl (ApiError ''Promptfoo provider requires resultApiUrl and runId''))
      | _ \<Rightarrow> Inl (ApiError ''Promptfoo provider config must be an object''))"

text \<open>An \<open>ApiError\<close> becomes a response with its message; another exception passes.\<close>

definition answer_of :: "api_exn + json dict \<Rightarrow> py_error + json dict" where
  "answer_of r =
     (case r of
        Inr d \<Rightarrow> Inr d
      | Inl (ApiError m) \<Rightarrow> Inr [(''output'', JStr []), (''error'', JStr m)]
      | Inl (ApiRaises e) \<Rightarrow> Inl e)"

definition call_api :: "config_env \<Rightarrow> (string \<Rightarrow> string option) \<Rightarrow> (string \<Rightarrow> string) \<Rightarrow> (http_request \<Rightarrow> http_reply) \<Rightarrow> case_cache \<Rightarrow>
    json dict \<Rightarrow> json dict \<Rightarrow> ((py_error + json dict) \<times> case_cache) option" where
  "call_api env getenv token_key opener cache options context =
     (case rbind (call_arguments options context) (\<lambda>args.
           rbind (read_token_from_environment getenv) (\<lambda>token. Inr (args, token))) of
        Inl e \<Rightarrow> Some (answer_of (Inl e), cache)
      | Inr ((url, run_id, c, i), token) \<Rightarrow>
          map_option (\<lambda>(r, cache).
            (answer_of (rbind r (\<lambda>cases.
               case map_of cases (c, i) of
                 None \<Rightarrow> Inl (ApiError (''run '' @ ce_repr env (JStr run_id) @ '' has no result for '' @ ce_repr env (JStr c) @
                           '' iteration '' @ str_of_int i))
               | Some result \<Rightarrow> replay_response env run_id result)), cache))
          (cached_cases env token_key opener cache url run_id token))"

definition clear_cache :: case_cache where
  "clear_cache = []"

section \<open>The reading of the pages ends\<close>

lemma read_page_fresh: "read_page env seen page = Inr (ds, Some c) \<Longrightarrow> c \<notin> set seen"
  by (auto simp: read_page_def split: json.splits if_splits)

lemma fetch_page_fresh: "fetch_page env client opener run_id seen cursor = Inr (ds, Some c) \<Longrightarrow> c \<notin> set seen"
  by (auto simp: fetch_page_def dest: read_page_fresh)

lemma list_pages_ends:
  assumes "finite C" "\<And>seen cursor ds c. fetch seen cursor = Inr (ds, Some c) \<Longrightarrow> c \<in> C \<and> c \<notin> set seen"
  shows "\<exists>r. list_pages fetch acc seen cursor = Some r"
proof (induction "card (C - set seen)" arbitrary: acc seen cursor rule: less_induct)
  case less
  show ?case
  proof (cases "\<exists>ds c. fetch seen cursor = Inr (ds, Some c)")
    case True
    then obtain ds c where f: "fetch seen cursor = Inr (ds, Some c)" by blast
    then have "card (C - set (c # seen)) < card (C - set seen)"
      using assms(1) assms(2) [OF f] by (intro psubset_card_mono) auto
    then show ?thesis using less [of "c # seen" "acc @ ds" c] by (subst list_pages.simps) (simp add: f)
  next
    case False
    then show ?thesis by (subst list_pages.simps) (auto split: sum.splits option.splits)
  qed
qed

text \<open>
  An API that serves a list of pages, each with the cursor it is asked for: the first page has the empty cursor, and a
  page names the cursor of the next one.
\<close>

fun serves :: "(string list \<Rightarrow> string \<Rightarrow> api_exn + json dict list \<times> string option) \<Rightarrow> string list \<Rightarrow>
    (string \<times> json dict list) list \<Rightarrow> bool" where
  "serves fetch seen [] = False"
| "serves fetch seen [(c, ds)] = (fetch seen c = Inr (ds, None))"
| "serves fetch seen ((c, ds) # (c', ds') # pages) =
     (fetch seen c = Inr (ds, Some c') \<and> serves fetch (c' # seen) ((c', ds') # pages))"

lemma list_pages_serves:
  "serves fetch seen ((c, ds) # pages) \<Longrightarrow> list_pages fetch acc seen c = Some (Inr (acc @ ds @ concat (map snd pages)))"
proof (induction pages arbitrary: seen c ds acc)
  case Nil
  then show ?case by (subst list_pages.simps) simp
next
  case (Cons p pages)
  obtain c' ds' where p: "p = (c', ds')" by force
  then show ?case using Cons.prems Cons.IH [of "c' # seen" c' ds' "acc @ ds"] by (subst list_pages.simps) simp
qed

section \<open>Both loaders name the cases alike\<close>

lemma case_of_line_id:
  assumes "case_of_line env ids n line = Inr c"
  obtains d where "ce_loads env line = Inr (JObj d)"
    "tc_case_id c = text_or env (obj_get d ''id'') (''case-'' @ str_of_nat n)" "tc_case_id c \<notin> set ids"
proof (cases "ce_loads env line")
  case (Inr v)
  then obtain d where "v = JObj d" using assms by (auto simp: case_of_line_def)
  then show ?thesis
    using assms Inr by (intro that [of d]) (auto simp: case_of_line_def Let_def case_json_Inr)
qed (use assms in \<open>simp add: case_of_line_def\<close>)

lemma case_of_line_replay:
  assumes "case_of_line env ids n line = Inr c" "dict_get cases (tc_case_id c) = None"
  shows "\<exists>d. replay_case_of_line env cases n line = Inr (tc_case_id c, d)"
proof -
  obtain d where "ce_loads env line = Inr (JObj d)" "tc_case_id c = text_or env (obj_get d ''id'') (''case-'' @ str_of_nat n)"
    using assms(1) by (rule case_of_line_id)
  then show ?thesis using assms(2) by (simp add: replay_case_of_line_def Let_def)
qed

lemma cases_of_lines_replay:
  assumes "cases_of_lines env ids lines = Inr cs" "set (dict_keys cases) \<subseteq> set ids"
  shows "\<exists>ds. replay_cases_of_lines env cases lines = Inr (cases @ ds) \<and> map fst ds = map tc_case_id cs"
  using assms
proof (induction lines arbitrary: ids cs cases)
  case (Cons l lines)
  obtain n line where l: "l = (n, line)" by force
  show ?case
  proof (cases "py_strip line = []")
    case True
    then show ?thesis using Cons l by auto
  next
    case False
    then obtain c cs' where c: "case_of_line env ids n line = Inr c" "cases_of_lines env (tc_case_id c # ids) lines = Inr cs'"
      "cs = c # cs'" using Cons.prems(1) l by auto
    have "tc_case_id c \<notin> set ids" using c(1) by (rule case_of_line_id)
    then have new: "dict_get cases (tc_case_id c) = None" using Cons.prems(2) by (auto simp: dict_get_None_iff)
    then obtain d where d: "replay_case_of_line env cases n line = Inr (tc_case_id c, d)" using case_of_line_replay [OF c(1)] by blast
    have "set (dict_keys (cases @ [(tc_case_id c, d)])) \<subseteq> set (tc_case_id c # ids)"
      using Cons.prems(2) by (auto simp: dict_keys_def)
    from Cons.IH [OF c(2) this] show ?thesis using False l d c(3) new by (auto simp: dict_set_append)
  qed
qed auto

section \<open>The tests of a replay\<close>


section \<open>The cache answers as the API does\<close>

definition cache_ok :: "config_env \<Rightarrow> (http_request \<Rightarrow> http_reply) \<Rightarrow> (string \<Rightarrow> string) \<Rightarrow> string \<Rightarrow> case_cache \<Rightarrow> bool" where
  "cache_ok env opener token_key token cache \<longleftrightarrow>
     (\<forall>url run_id indexed. map_of cache (url, run_id, token_key token) = Some indexed \<longrightarrow>
        fresh_cases env opener url run_id token = Some (Inr indexed))"

lemma cached_cases_fresh:
  assumes "cache_ok env opener token_key token cache"
    "cached_cases env token_key opener cache url run_id token = Some (r, cache')"
  shows "fresh_cases env opener url run_id token = Some r" "cache_ok env opener token_key token cache'"
proof -
  have "fresh_cases env opener url run_id token = Some r \<and> cache_ok env opener token_key token cache'"
  proof (cases "map_of cache (url, run_id, token_key token)")
    case (Some indexed)
    then show ?thesis using assms by (auto simp: cached_cases_def cache_ok_def)
  next
    case None
    then obtain z where z: "fresh_cases env opener url run_id token = Some z" using assms(2) by (auto simp: cached_cases_def)
    then show ?thesis using assms None by (cases z) (auto simp: cached_cases_def cache_ok_def split: if_splits)
  qed
  then show "fresh_cases env opener url run_id token = Some r" "cache_ok env opener token_key token cache'" by auto
qed

lemma cached_cases_cleared:
  assumes "fresh_cases env opener url run_id token = Some r"
  shows "\<exists>cache. cached_cases env token_key opener clear_cache url run_id token = Some (r, cache)"
  using assms by (auto simp: cached_cases_def clear_cache_def split: sum.splits)

lemma call_api_fresh:
  assumes "\<And>token. read_token_from_environment getenv = Inr token \<Longrightarrow> cache_ok env opener token_key token cache"
    "call_api env getenv token_key opener cache options context = Some (r, cache')"
  shows "(\<exists>c. call_api env getenv token_key opener clear_cache options context = Some (r, c)) \<and>
    (\<forall>token. read_token_from_environment getenv = Inr token \<longrightarrow> cache_ok env opener token_key token cache')"
proof (cases "\<exists>args token. call_arguments options context = Inr args \<and> read_token_from_environment getenv = Inr token")
  case False
  then show ?thesis
    using assms by (cases "call_arguments options context"; cases "read_token_from_environment getenv") (auto simp: call_api_def)
next
  case True
  then obtain url run_id c i token where args: "call_arguments options context = Inr (url, run_id, c, i)"
    "read_token_from_environment getenv = Inr token" by auto
  then obtain q where q: "cached_cases env token_key opener cache url run_id token = Some (q, cache')"
    using assms(2) by (auto simp: call_api_def)
  note fresh = cached_cases_fresh [OF assms(1) [OF args(2)] q]
  obtain c0 where "cached_cases env token_key opener clear_cache url run_id token = Some (q, c0)"
    using cached_cases_cleared [OF fresh(1)] by blast
  then show ?thesis using assms(2) args q fresh(2) by (auto simp: call_api_def)
qed

section \<open>The provider answers every generated test\<close>








section \<open>Properties\<close>

text \<open>A run with one durable result, served on one page for the sample dataset.\<close>

definition sample_durable :: "json dict" where
  "sample_durable = [(''case_id'', JStr ''a''), (''iteration'', JInt 0), (''output'', JStr ''ok''), (''input_tokens'', JInt 3),
     (''output_tokens'', JInt 2)]"

definition sample_replay :: config_env where
  "sample_replay = sample_env\<lparr>ce_loads := (\<lambda>s. if s = ''R''
     then Inr (JObj [(''status'', JStr ''complete''), (''cases'', JList [JObj sample_durable])]) else ce_loads sample_env s)\<rparr>"

definition sample_server :: "http_request \<Rightarrow> http_reply" where
  "sample_server rq = Responds 200 (Inr ''R'')"

lemma sample_page: "fetch_page sample_replay client sample_server ''r'' seen cursor = Inr ([sample_durable], None)"
  by (simp add: fetch_page_def quote_run_id_def api_get_def sample_server_def sample_replay_def read_page_def obj_get_def dict_get_def)

lemma sample_completed: "completed_replay sample_replay client sample_server ''r'' = Some (Inr [sample_durable])"
proof -
  have "list_all_cases sample_replay client sample_server ''r'' = Some (Inr [sample_durable])"
    unfolding list_all_cases_def by (subst list_pages.simps) (simp add: sample_page)
  then show ?thesis
    by (simp add: completed_replay_def get_run_def quote_run_id_def api_get_def sample_server_def sample_replay_def obj_get_def dict_get_def
        check_replay_def sample_durable_def is_text_def Let_def)
qed

lemma sample_api: "result_api_client sample_replay ''https://api'' ''t'' = Inr \<lparr>rp_base_url = ''https://api'', rp_token = ''t''\<rparr>"
  by (simp add: result_api_client_def normalize_base_url_def lift_api_def sample_replay_def sample_env_def sample_url_def absent_def
      urlunsplit_def rstrip_char_def)




text \<open>The answers to a sequence of calls of one process, with the cache that is left.\<close>

fun call_all :: "config_env \<Rightarrow> (string \<Rightarrow> string option) \<Rightarrow> (string \<Rightarrow> string) \<Rightarrow> (http_request \<Rightarrow> http_reply) \<Rightarrow> case_cache \<Rightarrow>
    (json dict \<times> json dict) list \<Rightarrow> ((py_error + json dict) list \<times> case_cache) option" where
  "call_all env getenv token_key opener cache [] = Some ([], cache)"
| "call_all env getenv token_key opener cache ((options, context) # calls) =
     (case call_api env getenv token_key opener cache options context of
        None \<Rightarrow> None
      | Some (r, cache) \<Rightarrow> map_option (\<lambda>(rs, cache). (r # rs, cache)) (call_all env getenv token_key opener cache calls))"

lemma call_all_fresh:
  assumes "call_all env getenv token_key opener cache calls = Some (rs, cache')"
    and "\<And>token. read_token_from_environment getenv = Inr token \<Longrightarrow> cache_ok env opener token_key token cache"
  shows "list_all2 (\<lambda>(options, context) r.
    \<exists>c. call_api env getenv token_key opener clear_cache options context = Some (r, c)) calls rs"
  using assms
proof (induction calls arbitrary: cache rs)
  case (Cons call calls)
  obtain options vars where call: "call = (options, vars)" by force
  then obtain r cache1 rs1 where r: "call_api env getenv token_key opener cache options vars = Some (r, cache1)"
    "call_all env getenv token_key opener cache1 calls = Some (rs1, cache')" "rs = r # rs1"
    using Cons.prems(1) by (auto split: option.splits)
  from call_api_fresh [OF Cons.prems(2) r(1)] Cons.IH [OF r(2)] show ?case by (auto simp: call r(3))
qed simp

text \<open>C32: the cache of the provider is never seen: while the API answers the same, each of a sequence of calls gets the answer that a
  process with an empty cache would get.\<close>

theorem replay_cache:
  assumes "call_all env getenv token_key opener clear_cache calls = Some (rs, cache)"
  shows "list_all2 (\<lambda>(options, context) r.
    \<exists>c. call_api env getenv token_key opener clear_cache options context = Some (r, c)) calls rs"
  using assms by (rule call_all_fresh) (simp add: cache_ok_def clear_cache_def)

definition sample_call :: "json dict \<times> json dict" where
  "sample_call = ([(''config'', JObj [(''resultApiUrl'', JStr ''https://api''), (''runId'', JStr ''r'')])],
     [(''vars'', JObj [(''agentstorm_case_id'', JStr ''a''), (''agentstorm_iteration'', JInt 0)])])"

theorem replay_cache_witness:
  "\<exists>r cache. call_all sample_replay (\<lambda>_. Some ''t'') id sample_server clear_cache [sample_call, sample_call] = Some ([r, r], cache) \<and>
     length cache = 1 \<and> (\<exists>c. call_api sample_replay (\<lambda>_. Some ''t'') id sample_server clear_cache (fst sample_call) (snd sample_call) = Some (r, c))"
proof -
  have arguments: "call_arguments (fst sample_call) (snd sample_call) = Inr (''https://api'', ''r'', ''a'', 0)"
    by (simp add: sample_call_def call_arguments_def obj_get_def obj_get_default_def dict_get_def)
  have "identity_of sample_durable = Some (''a'', 0)" by (simp add: identity_of_def sample_durable_def obj_get_def dict_get_def)
  then have "fresh_cases sample_replay sample_server ''https://api'' ''r'' ''t'' = Some (Inr [((''a'', 0), sample_durable)])"
    by (simp add: fresh_cases_def sample_api sample_completed)
  then obtain r cache where two: "call_all sample_replay (\<lambda>_. Some ''t'') id sample_server clear_cache
      [(fst sample_call, snd sample_call), (fst sample_call, snd sample_call)] = Some ([r, r], cache)" "length cache = 1"
    by (simp add: call_api_def arguments read_token_from_environment_def cached_cases_def clear_cache_def Let_def del: prod.collapse)
  from replay_cache [OF two(1)] have "\<exists>c. call_api sample_replay (\<lambda>_. Some ''t'') id sample_server clear_cache (fst sample_call)
      (snd sample_call) = Some (r, c)" by (simp add: case_prod_unfold)
  with two show ?thesis by auto
qed

text \<open>C33: reading the cases of a run ends whatever the API answers, provided that it names finitely many cursors; and if it serves a
  sequence of pages, the result is their cases in order, each once.\<close>

theorem replay_pages:
  assumes "finite cursors" and "\<And>seen cursor ds c. fetch_page env client opener run_id seen cursor = Inr (ds, Some c) \<Longrightarrow> c \<in> cursors"
  shows "\<exists>r. list_all_cases env client opener run_id = Some r \<and>
    (\<forall>ds pages. serves (fetch_page env client opener run_id) [] (([], ds) # pages) \<longrightarrow> r = Inr (ds @ concat (map snd pages)))"
proof -
  obtain r where r: "list_all_cases env client opener run_id = Some r"
    unfolding list_all_cases_def using list_pages_ends [OF assms(1), of "fetch_page env client opener run_id"] assms(2) fetch_page_fresh by blast
  then show ?thesis
    using list_pages_serves [of "fetch_page env client opener run_id" "[]" "[]" _ _ "[]"] by (auto simp: list_all_cases_def)
qed

theorem replay_pages_witness:
  "list_all_cases sample_replay \<lparr>rp_base_url = ''https://api'', rp_token = ''t''\<rparr> sample_server ''r'' = Some (Inr [sample_durable])"
proof -
  have "serves (fetch_page sample_replay \<lparr>rp_base_url = ''https://api'', rp_token = ''t''\<rparr> sample_server ''r'') [] [([], [sample_durable])]"
    by (simp add: sample_page)
  with replay_pages [of "{}" sample_replay "\<lparr>rp_base_url = ''https://api'', rp_token = ''t''\<rparr>" sample_server "''r''"] show ?thesis
    by (fastforce simp: sample_page)
qed

lemma loaders_agree:
  assumes "load_dataset env text = Inr cs"
  shows "\<exists>ds. replay_load_dataset env text = Inr ds \<and> map fst ds = map tc_case_id cs"
proof -
  obtain cs' where "cases_of_lines env [] (enum_from 1 (splitlines text)) = Inr cs'" "cs = cs'" "cs \<noteq> []"
    using assms by (auto simp: load_dataset_def)
  with cases_of_lines_replay [of env "[]" _ cs' "[]"] obtain ds
    where "replay_cases_of_lines env [] (enum_from 1 (splitlines text)) = Inr ds" "map fst ds = map tc_case_id cs"
    by (auto simp: dict_keys_def)
  moreover from this \<open>cs \<noteq> []\<close> have "ds \<noteq> []" by auto
  ultimately show ?thesis by (simp add: replay_load_dataset_def)
qed

text \<open>The generator refuses a case whose assertions are \<open>null\<close>; the worker reads it as one without assertions.\<close>

lemma null_assertions:
  "assertions_of_json n JNull = Inr []"
  "replay_assertions [(''assertions'', JNull)] = Inl (ApiError ''assertions must be an array of objects'')"
  by (simp_all add: assertions_of_json_def replay_assertions_def obj_get_def obj_get_default_def dict_get_def)

end
