(* ===== verification/Sre_Fixtures.thy ===== *)
theory Sre_Fixtures
  imports PyStr
begin

text \<open>
  The synthetic incidents of the SRE benchmark, \<open>worker/src/agentstorm_worker/benchmarks/sre_fixtures.json\<close>, as
  \<open>sre.py\<close> loads them: one record per object of the file, with the metrics kept as a dictionary.
\<close>

record incident =
  in_incident_id :: string
  in_service :: string
  in_window :: string
  in_symptom :: string
  in_root_cause :: string
  in_severity :: string
  in_recommended_action :: string
  in_error_signature :: string
  in_runbook :: string
  in_metrics :: "json dict"
  in_log_entries :: "string list"

text \<open>The metrics of an object, whose error rate is a decimal literal in hundredths.\<close>

definition metrics_of :: "string \<Rightarrow> int \<Rightarrow> int \<Rightarrow> int \<Rightarrow> int \<Rightarrow> json dict" where
  "metrics_of summary latency_p95_ms error_percent memory_percent pool_percent =
     [(''summary'', JStr summary), (''latency_p95_ms'', JInt latency_p95_ms),
      (''error_rate'', JFloat (Fin (f64 (of_int error_percent / 100)))), (''memory_percent'', JInt memory_percent),
      (''connection_pool_in_use_percent'', JInt pool_percent)]"

text \<open>The objects, eight for each of four causes.\<close>

definition pool_incidents :: "incident list" where
  "pool_incidents =
    [\<lparr>in_incident_id = ''INC-001'', in_service = ''checkout-api'', in_window = ''2026-07-01T10:00:00Z/2026-07-01T10:15:00Z'',
      in_symptom = ''Requests time out while database-backed endpoints return intermittent 503 responses.'',
      in_root_cause = ''database_pool_exhaustion'', in_severity = ''sev2'', in_recommended_action = ''increase_pool_and_restart'',
      in_error_signature = ''DB_POOL_TIMEOUT'', in_runbook = ''RB-017'',
      in_metrics = metrics_of ''db_pool_in_use_100_percent'' 1850 18 61 100,
      in_log_entries = [''connection acquisition timed out'', ''pool has no idle connections'']\<rparr>,
     \<lparr>in_incident_id = ''INC-002'', in_service = ''orders-api'', in_window = ''2026-07-02T10:00:00Z/2026-07-02T10:15:00Z'',
      in_symptom = ''Requests time out while database-backed endpoints return intermittent 503 responses.'',
      in_root_cause = ''database_pool_exhaustion'', in_severity = ''sev2'', in_recommended_action = ''increase_pool_and_restart'',
      in_error_signature = ''DB_POOL_TIMEOUT'', in_runbook = ''RB-017'',
      in_metrics = metrics_of ''db_pool_in_use_100_percent'' 1850 18 61 100,
      in_log_entries = [''connection acquisition timed out'', ''pool has no idle connections'']\<rparr>,
     \<lparr>in_incident_id = ''INC-003'', in_service = ''payments-api'', in_window = ''2026-07-03T10:00:00Z/2026-07-03T10:15:00Z'',
      in_symptom = ''Requests time out while database-backed endpoints return intermittent 503 responses.'',
      in_root_cause = ''database_pool_exhaustion'', in_severity = ''sev2'', in_recommended_action = ''increase_pool_and_restart'',
      in_error_signature = ''DB_POOL_TIMEOUT'', in_runbook = ''RB-017'',
      in_metrics = metrics_of ''db_pool_in_use_100_percent'' 1850 18 61 100,
      in_log_entries = [''connection acquisition timed out'', ''pool has no idle connections'']\<rparr>,
     \<lparr>in_incident_id = ''INC-004'', in_service = ''inventory-api'', in_window = ''2026-07-04T10:00:00Z/2026-07-04T10:15:00Z'',
      in_symptom = ''Requests time out while database-backed endpoints return intermittent 503 responses.'',
      in_root_cause = ''database_pool_exhaustion'', in_severity = ''sev2'', in_recommended_action = ''increase_pool_and_restart'',
      in_error_signature = ''DB_POOL_TIMEOUT'', in_runbook = ''RB-017'',
      in_metrics = metrics_of ''db_pool_in_use_100_percent'' 1850 18 61 100,
      in_log_entries = [''connection acquisition timed out'', ''pool has no idle connections'']\<rparr>,
     \<lparr>in_incident_id = ''INC-005'', in_service = ''catalog-api'', in_window = ''2026-07-05T10:00:00Z/2026-07-05T10:15:00Z'',
      in_symptom = ''Requests time out while database-backed endpoints return intermittent 503 responses.'',
      in_root_cause = ''database_pool_exhaustion'', in_severity = ''sev2'', in_recommended_action = ''increase_pool_and_restart'',
      in_error_signature = ''DB_POOL_TIMEOUT'', in_runbook = ''RB-017'',
      in_metrics = metrics_of ''db_pool_in_use_100_percent'' 1850 18 61 100,
      in_log_entries = [''connection acquisition timed out'', ''pool has no idle connections'']\<rparr>,
     \<lparr>in_incident_id = ''INC-006'', in_service = ''profile-api'', in_window = ''2026-07-06T10:00:00Z/2026-07-06T10:15:00Z'',
      in_symptom = ''Requests time out while database-backed endpoints return intermittent 503 responses.'',
      in_root_cause = ''database_pool_exhaustion'', in_severity = ''sev2'', in_recommended_action = ''increase_pool_and_restart'',
      in_error_signature = ''DB_POOL_TIMEOUT'', in_runbook = ''RB-017'',
      in_metrics = metrics_of ''db_pool_in_use_100_percent'' 1850 18 61 100,
      in_log_entries = [''connection acquisition timed out'', ''pool has no idle connections'']\<rparr>,
     \<lparr>in_incident_id = ''INC-007'', in_service = ''session-api'', in_window = ''2026-07-07T10:00:00Z/2026-07-07T10:15:00Z'',
      in_symptom = ''Requests time out while database-backed endpoints return intermittent 503 responses.'',
      in_root_cause = ''database_pool_exhaustion'', in_severity = ''sev2'', in_recommended_action = ''increase_pool_and_restart'',
      in_error_signature = ''DB_POOL_TIMEOUT'', in_runbook = ''RB-017'',
      in_metrics = metrics_of ''db_pool_in_use_100_percent'' 1850 18 61 100,
      in_log_entries = [''connection acquisition timed out'', ''pool has no idle connections'']\<rparr>,
     \<lparr>in_incident_id = ''INC-008'', in_service = ''notification-api'', in_window = ''2026-07-08T10:00:00Z/2026-07-08T10:15:00Z'',
      in_symptom = ''Requests time out while database-backed endpoints return intermittent 503 responses.'',
      in_root_cause = ''database_pool_exhaustion'', in_severity = ''sev2'', in_recommended_action = ''increase_pool_and_restart'',
      in_error_signature = ''DB_POOL_TIMEOUT'', in_runbook = ''RB-017'',
      in_metrics = metrics_of ''db_pool_in_use_100_percent'' 1850 18 61 100,
      in_log_entries = [''connection acquisition timed out'', ''pool has no idle connections'']\<rparr>]"

definition memory_incidents :: "incident list" where
  "memory_incidents =
    [\<lparr>in_incident_id = ''INC-009'', in_service = ''image-worker'', in_window = ''2026-07-09T10:00:00Z/2026-07-09T10:15:00Z'',
      in_symptom = ''Latency rises gradually and pods restart after sustained memory growth.'',
      in_root_cause = ''memory_leak'', in_severity = ''sev2'', in_recommended_action = ''rollback_and_restart'',
      in_error_signature = ''OOM_GROWTH_DETECTED'', in_runbook = ''RB-023'',
      in_metrics = metrics_of ''memory_rss_monotonic_growth'' 920 7 97 42,
      in_log_entries = [''heap retained objects increasing'', ''container terminated with OOMKilled'']\<rparr>,
     \<lparr>in_incident_id = ''INC-010'', in_service = ''report-worker'', in_window = ''2026-07-10T10:00:00Z/2026-07-10T10:15:00Z'',
      in_symptom = ''Latency rises gradually and pods restart after sustained memory growth.'',
      in_root_cause = ''memory_leak'', in_severity = ''sev2'', in_recommended_action = ''rollback_and_restart'',
      in_error_signature = ''OOM_GROWTH_DETECTED'', in_runbook = ''RB-023'',
      in_metrics = metrics_of ''memory_rss_monotonic_growth'' 920 7 97 42,
      in_log_entries = [''heap retained objects increasing'', ''container terminated with OOMKilled'']\<rparr>,
     \<lparr>in_incident_id = ''INC-011'', in_service = ''recommendation-api'', in_window = ''2026-07-11T10:00:00Z/2026-07-11T10:15:00Z'',
      in_symptom = ''Latency rises gradually and pods restart after sustained memory growth.'',
      in_root_cause = ''memory_leak'', in_severity = ''sev2'', in_recommended_action = ''rollback_and_restart'',
      in_error_signature = ''OOM_GROWTH_DETECTED'', in_runbook = ''RB-023'',
      in_metrics = metrics_of ''memory_rss_monotonic_growth'' 920 7 97 42,
      in_log_entries = [''heap retained objects increasing'', ''container terminated with OOMKilled'']\<rparr>,
     \<lparr>in_incident_id = ''INC-012'', in_service = ''analytics-api'', in_window = ''2026-07-12T10:00:00Z/2026-07-12T10:15:00Z'',
      in_symptom = ''Latency rises gradually and pods restart after sustained memory growth.'',
      in_root_cause = ''memory_leak'', in_severity = ''sev2'', in_recommended_action = ''rollback_and_restart'',
      in_error_signature = ''OOM_GROWTH_DETECTED'', in_runbook = ''RB-023'',
      in_metrics = metrics_of ''memory_rss_monotonic_growth'' 920 7 97 42,
      in_log_entries = [''heap retained objects increasing'', ''container terminated with OOMKilled'']\<rparr>,
     \<lparr>in_incident_id = ''INC-013'', in_service = ''search-indexer'', in_window = ''2026-07-13T10:00:00Z/2026-07-13T10:15:00Z'',
      in_symptom = ''Latency rises gradually and pods restart after sustained memory growth.'',
      in_root_cause = ''memory_leak'', in_severity = ''sev2'', in_recommended_action = ''rollback_and_restart'',
      in_error_signature = ''OOM_GROWTH_DETECTED'', in_runbook = ''RB-023'',
      in_metrics = metrics_of ''memory_rss_monotonic_growth'' 920 7 97 42,
      in_log_entries = [''heap retained objects increasing'', ''container terminated with OOMKilled'']\<rparr>,
     \<lparr>in_incident_id = ''INC-014'', in_service = ''event-consumer'', in_window = ''2026-07-14T10:00:00Z/2026-07-14T10:15:00Z'',
      in_symptom = ''Latency rises gradually and pods restart after sustained memory growth.'',
      in_root_cause = ''memory_leak'', in_severity = ''sev2'', in_recommended_action = ''rollback_and_restart'',
      in_error_signature = ''OOM_GROWTH_DETECTED'', in_runbook = ''RB-023'',
      in_metrics = metrics_of ''memory_rss_monotonic_growth'' 920 7 97 42,
      in_log_entries = [''heap retained objects increasing'', ''container terminated with OOMKilled'']\<rparr>,
     \<lparr>in_incident_id = ''INC-015'', in_service = ''audit-worker'', in_window = ''2026-07-15T10:00:00Z/2026-07-15T10:15:00Z'',
      in_symptom = ''Latency rises gradually and pods restart after sustained memory growth.'',
      in_root_cause = ''memory_leak'', in_severity = ''sev2'', in_recommended_action = ''rollback_and_restart'',
      in_error_signature = ''OOM_GROWTH_DETECTED'', in_runbook = ''RB-023'',
      in_metrics = metrics_of ''memory_rss_monotonic_growth'' 920 7 97 42,
      in_log_entries = [''heap retained objects increasing'', ''container terminated with OOMKilled'']\<rparr>,
     \<lparr>in_incident_id = ''INC-016'', in_service = ''pricing-api'', in_window = ''2026-07-16T10:00:00Z/2026-07-16T10:15:00Z'',
      in_symptom = ''Latency rises gradually and pods restart after sustained memory growth.'',
      in_root_cause = ''memory_leak'', in_severity = ''sev2'', in_recommended_action = ''rollback_and_restart'',
      in_error_signature = ''OOM_GROWTH_DETECTED'', in_runbook = ''RB-023'',
      in_metrics = metrics_of ''memory_rss_monotonic_growth'' 920 7 97 42,
      in_log_entries = [''heap retained objects increasing'', ''container terminated with OOMKilled'']\<rparr>]"

definition upstream_incidents :: "incident list" where
  "upstream_incidents =
    [\<lparr>in_incident_id = ''INC-017'', in_service = ''shipping-api'', in_window = ''2026-07-17T10:00:00Z/2026-07-17T10:15:00Z'',
      in_symptom = ''User requests stall while calls to one downstream dependency exceed their deadline.'',
      in_root_cause = ''downstream_dependency_timeout'', in_severity = ''sev1'', in_recommended_action = ''enable_failover_and_reduce_timeout'',
      in_error_signature = ''UPSTREAM_DEADLINE_EXCEEDED'', in_runbook = ''RB-031'',
      in_metrics = metrics_of ''upstream_latency_and_timeout_spike'' 4200 31 48 55,
      in_log_entries = [''upstream request deadline exceeded'', ''retry budget exhausted'']\<rparr>,
     \<lparr>in_incident_id = ''INC-018'', in_service = ''tax-api'', in_window = ''2026-07-18T10:00:00Z/2026-07-18T10:15:00Z'',
      in_symptom = ''User requests stall while calls to one downstream dependency exceed their deadline.'',
      in_root_cause = ''downstream_dependency_timeout'', in_severity = ''sev1'', in_recommended_action = ''enable_failover_and_reduce_timeout'',
      in_error_signature = ''UPSTREAM_DEADLINE_EXCEEDED'', in_runbook = ''RB-031'',
      in_metrics = metrics_of ''upstream_latency_and_timeout_spike'' 4200 31 48 55,
      in_log_entries = [''upstream request deadline exceeded'', ''retry budget exhausted'']\<rparr>,
     \<lparr>in_incident_id = ''INC-019'', in_service = ''fraud-api'', in_window = ''2026-07-19T10:00:00Z/2026-07-19T10:15:00Z'',
      in_symptom = ''User requests stall while calls to one downstream dependency exceed their deadline.'',
      in_root_cause = ''downstream_dependency_timeout'', in_severity = ''sev1'', in_recommended_action = ''enable_failover_and_reduce_timeout'',
      in_error_signature = ''UPSTREAM_DEADLINE_EXCEEDED'', in_runbook = ''RB-031'',
      in_metrics = metrics_of ''upstream_latency_and_timeout_spike'' 4200 31 48 55,
      in_log_entries = [''upstream request deadline exceeded'', ''retry budget exhausted'']\<rparr>,
     \<lparr>in_incident_id = ''INC-020'', in_service = ''auth-gateway'', in_window = ''2026-07-20T10:00:00Z/2026-07-20T10:15:00Z'',
      in_symptom = ''User requests stall while calls to one downstream dependency exceed their deadline.'',
      in_root_cause = ''downstream_dependency_timeout'', in_severity = ''sev1'', in_recommended_action = ''enable_failover_and_reduce_timeout'',
      in_error_signature = ''UPSTREAM_DEADLINE_EXCEEDED'', in_runbook = ''RB-031'',
      in_metrics = metrics_of ''upstream_latency_and_timeout_spike'' 4200 31 48 55,
      in_log_entries = [''upstream request deadline exceeded'', ''retry budget exhausted'']\<rparr>,
     \<lparr>in_incident_id = ''INC-021'', in_service = ''email-api'', in_window = ''2026-07-21T10:00:00Z/2026-07-21T10:15:00Z'',
      in_symptom = ''User requests stall while calls to one downstream dependency exceed their deadline.'',
      in_root_cause = ''downstream_dependency_timeout'', in_severity = ''sev1'', in_recommended_action = ''enable_failover_and_reduce_timeout'',
      in_error_signature = ''UPSTREAM_DEADLINE_EXCEEDED'', in_runbook = ''RB-031'',
      in_metrics = metrics_of ''upstream_latency_and_timeout_spike'' 4200 31 48 55,
      in_log_entries = [''upstream request deadline exceeded'', ''retry budget exhausted'']\<rparr>,
     \<lparr>in_incident_id = ''INC-022'', in_service = ''sms-api'', in_window = ''2026-07-22T10:00:00Z/2026-07-22T10:15:00Z'',
      in_symptom = ''User requests stall while calls to one downstream dependency exceed their deadline.'',
      in_root_cause = ''downstream_dependency_timeout'', in_severity = ''sev1'', in_recommended_action = ''enable_failover_and_reduce_timeout'',
      in_error_signature = ''UPSTREAM_DEADLINE_EXCEEDED'', in_runbook = ''RB-031'',
      in_metrics = metrics_of ''upstream_latency_and_timeout_spike'' 4200 31 48 55,
      in_log_entries = [''upstream request deadline exceeded'', ''retry budget exhausted'']\<rparr>,
     \<lparr>in_incident_id = ''INC-023'', in_service = ''warehouse-api'', in_window = ''2026-07-23T10:00:00Z/2026-07-23T10:15:00Z'',
      in_symptom = ''User requests stall while calls to one downstream dependency exceed their deadline.'',
      in_root_cause = ''downstream_dependency_timeout'', in_severity = ''sev1'', in_recommended_action = ''enable_failover_and_reduce_timeout'',
      in_error_signature = ''UPSTREAM_DEADLINE_EXCEEDED'', in_runbook = ''RB-031'',
      in_metrics = metrics_of ''upstream_latency_and_timeout_spike'' 4200 31 48 55,
      in_log_entries = [''upstream request deadline exceeded'', ''retry budget exhausted'']\<rparr>,
     \<lparr>in_incident_id = ''INC-024'', in_service = ''loyalty-api'', in_window = ''2026-07-24T10:00:00Z/2026-07-24T10:15:00Z'',
      in_symptom = ''User requests stall while calls to one downstream dependency exceed their deadline.'',
      in_root_cause = ''downstream_dependency_timeout'', in_severity = ''sev1'', in_recommended_action = ''enable_failover_and_reduce_timeout'',
      in_error_signature = ''UPSTREAM_DEADLINE_EXCEEDED'', in_runbook = ''RB-031'',
      in_metrics = metrics_of ''upstream_latency_and_timeout_spike'' 4200 31 48 55,
      in_log_entries = [''upstream request deadline exceeded'', ''retry budget exhausted'']\<rparr>]"

definition release_incidents :: "incident list" where
  "release_incidents =
    [\<lparr>in_incident_id = ''INC-025'', in_service = ''checkout-web'', in_window = ''2026-07-25T10:00:00Z/2026-07-25T10:15:00Z'',
      in_symptom = ''Error rate jumps immediately after a new version reaches production.'',
      in_root_cause = ''bad_release'', in_severity = ''sev1'', in_recommended_action = ''rollback_release'',
      in_error_signature = ''NEW_RELEASE_ERROR_SPIKE'', in_runbook = ''RB-042'',
      in_metrics = metrics_of ''error_spike_correlated_with_deploy'' 760 44 52 37,
      in_log_entries = [''new version emitted unknown field error'', ''errors began at deployment boundary'']\<rparr>,
     \<lparr>in_incident_id = ''INC-026'', in_service = ''orders-web'', in_window = ''2026-07-26T10:00:00Z/2026-07-26T10:15:00Z'',
      in_symptom = ''Error rate jumps immediately after a new version reaches production.'',
      in_root_cause = ''bad_release'', in_severity = ''sev1'', in_recommended_action = ''rollback_release'',
      in_error_signature = ''NEW_RELEASE_ERROR_SPIKE'', in_runbook = ''RB-042'',
      in_metrics = metrics_of ''error_spike_correlated_with_deploy'' 760 44 52 37,
      in_log_entries = [''new version emitted unknown field error'', ''errors began at deployment boundary'']\<rparr>,
     \<lparr>in_incident_id = ''INC-027'', in_service = ''admin-api'', in_window = ''2026-07-27T10:00:00Z/2026-07-27T10:15:00Z'',
      in_symptom = ''Error rate jumps immediately after a new version reaches production.'',
      in_root_cause = ''bad_release'', in_severity = ''sev1'', in_recommended_action = ''rollback_release'',
      in_error_signature = ''NEW_RELEASE_ERROR_SPIKE'', in_runbook = ''RB-042'',
      in_metrics = metrics_of ''error_spike_correlated_with_deploy'' 760 44 52 37,
      in_log_entries = [''new version emitted unknown field error'', ''errors began at deployment boundary'']\<rparr>,
     \<lparr>in_incident_id = ''INC-028'', in_service = ''edge-router'', in_window = ''2026-07-28T10:00:00Z/2026-07-28T10:15:00Z'',
      in_symptom = ''Error rate jumps immediately after a new version reaches production.'',
      in_root_cause = ''bad_release'', in_severity = ''sev1'', in_recommended_action = ''rollback_release'',
      in_error_signature = ''NEW_RELEASE_ERROR_SPIKE'', in_runbook = ''RB-042'',
      in_metrics = metrics_of ''error_spike_correlated_with_deploy'' 760 44 52 37,
      in_log_entries = [''new version emitted unknown field error'', ''errors began at deployment boundary'']\<rparr>,
     \<lparr>in_incident_id = ''INC-029'', in_service = ''config-api'', in_window = ''2026-07-29T10:00:00Z/2026-07-29T10:15:00Z'',
      in_symptom = ''Error rate jumps immediately after a new version reaches production.'',
      in_root_cause = ''bad_release'', in_severity = ''sev1'', in_recommended_action = ''rollback_release'',
      in_error_signature = ''NEW_RELEASE_ERROR_SPIKE'', in_runbook = ''RB-042'',
      in_metrics = metrics_of ''error_spike_correlated_with_deploy'' 760 44 52 37,
      in_log_entries = [''new version emitted unknown field error'', ''errors began at deployment boundary'']\<rparr>,
     \<lparr>in_incident_id = ''INC-030'', in_service = ''billing-api'', in_window = ''2026-07-30T10:00:00Z/2026-07-30T10:15:00Z'',
      in_symptom = ''Error rate jumps immediately after a new version reaches production.'',
      in_root_cause = ''bad_release'', in_severity = ''sev1'', in_recommended_action = ''rollback_release'',
      in_error_signature = ''NEW_RELEASE_ERROR_SPIKE'', in_runbook = ''RB-042'',
      in_metrics = metrics_of ''error_spike_correlated_with_deploy'' 760 44 52 37,
      in_log_entries = [''new version emitted unknown field error'', ''errors began at deployment boundary'']\<rparr>,
     \<lparr>in_incident_id = ''INC-031'', in_service = ''fulfillment-api'', in_window = ''2026-07-31T10:00:00Z/2026-07-31T10:15:00Z'',
      in_symptom = ''Error rate jumps immediately after a new version reaches production.'',
      in_root_cause = ''bad_release'', in_severity = ''sev1'', in_recommended_action = ''rollback_release'',
      in_error_signature = ''NEW_RELEASE_ERROR_SPIKE'', in_runbook = ''RB-042'',
      in_metrics = metrics_of ''error_spike_correlated_with_deploy'' 760 44 52 37,
      in_log_entries = [''new version emitted unknown field error'', ''errors began at deployment boundary'']\<rparr>,
     \<lparr>in_incident_id = ''INC-032'', in_service = ''support-api'', in_window = ''2026-08-01T10:00:00Z/2026-08-01T10:15:00Z'',
      in_symptom = ''Error rate jumps immediately after a new version reaches production.'',
      in_root_cause = ''bad_release'', in_severity = ''sev1'', in_recommended_action = ''rollback_release'',
      in_error_signature = ''NEW_RELEASE_ERROR_SPIKE'', in_runbook = ''RB-042'',
      in_metrics = metrics_of ''error_spike_correlated_with_deploy'' 760 44 52 37,
      in_log_entries = [''new version emitted unknown field error'', ''errors began at deployment boundary'']\<rparr>]"

definition FIXTURES :: "incident list" where
  "FIXTURES = pool_incidents @ memory_incidents @ upstream_incidents @ release_incidents"

end
