(* ===== verification/Sre.thy ===== *)
theory Sre
  imports Sre_Fixtures Factory Runner
begin

text \<open>
  \<open>worker/src/agentstorm_worker/benchmarks/sre.py\<close>: the SRE benchmark. Four tools read a list of synthetic incidents
  (an argument here, \<open>FIXTURES\<close> in the program); a scripted adapter calls them in order, the adapters of the real
  providers are wrapped so that the calls of the tools are recorded, and an evaluator checks the recorded calls.
  \<open>rep\<close> is Python's \<open>repr\<close>, \<open>digest\<close> the SHA-256 digest.
\<close>

section \<open>The tools\<close>

definition incidents :: "incident list \<Rightarrow> incident dict" where
  "incidents fx = foldl (\<lambda>d i. dict_set d (in_incident_id i) i) [] fx"

text \<open>The entry that \<open>_record\<close> appends.\<close>

definition recorded_call :: "string \<Rightarrow> json dict \<Rightarrow> json" where
  "recorded_call name arguments = JObj [(''name'', JStr name), (''arguments'', JObj arguments)]"

definition deterministic_delay :: "(nat list \<Rightarrow> nat list) \<Rightarrow> string \<Rightarrow> string \<Rightarrow> rat" where
  "deterministic_delay digest key tool_name =
     int_truediv (1 + int (hd (digest (utf8_bytes (key @ [CHR 0x00] @ tool_name))) mod 3)) 1000"

text \<open>The summary of the metrics, a text in every object.\<close>

definition metrics_summary :: "incident \<Rightarrow> string" where
  "metrics_summary i = tool_text (obj_get (in_metrics i) ''summary'')"

definition evidence :: "incident \<Rightarrow> json" where
  "evidence i = JList [JStr (''metrics:'' @ metrics_summary i), JStr (''logs:'' @ in_error_signature i)]"

definition get_incident :: "incident list \<Rightarrow> json \<Rightarrow> json res" where
  "get_incident fx incident_id =
     rbind (case incident_id of
              JStr s \<Rightarrow> Inr (dict_get (incidents fx) s)
            | JList _ \<Rightarrow> Inl (TypeError (''unhashable type: '' @ quoted ''list''))
            | JObj _ \<Rightarrow> Inl (TypeError (''unhashable type: '' @ quoted ''dict''))
            | _ \<Rightarrow> Inr None) (\<lambda>found.
     case found of
       None \<Rightarrow> Inl (ValueError ''unknown synthetic incident'')
     | Some i \<Rightarrow>
         Inr (JObj [(''incident_id'', incident_id), (''service'', JStr (in_service i)), (''window'', JStr (in_window i)),
                    (''symptom'', JStr (in_symptom i))]))"

definition incident_for_service :: "incident list \<Rightarrow> json \<Rightarrow> json \<Rightarrow> incident res" where
  "incident_for_service fx service window =
     (case find (\<lambda>i. service = JStr (in_service i) \<and> window = JStr (in_window i)) (map snd (incidents fx)) of
        None \<Rightarrow> Inl (ValueError ''unknown synthetic service window'')
      | Some i \<Rightarrow> Inr i)"

definition query_metrics :: "incident list \<Rightarrow> json \<Rightarrow> json \<Rightarrow> json res" where
  "query_metrics fx service window =
     rbind (incident_for_service fx service window) (\<lambda>i.
     Inr (JObj (dict_update [(''service'', service), (''window'', window)] (in_metrics i))))"

definition search_logs :: "incident list \<Rightarrow> json \<Rightarrow> json \<Rightarrow> json res" where
  "search_logs fx service window =
     rbind (incident_for_service fx service window) (\<lambda>i.
     Inr (JObj [(''service'', service), (''window'', window), (''error_signature'', JStr (in_error_signature i)),
                (''entries'', JList (map JStr (in_log_entries i)))]))"

definition lookup_runbook :: "incident list \<Rightarrow> json \<Rightarrow> json res" where
  "lookup_runbook fx error_signature =
     (case find (\<lambda>i. error_signature = JStr (in_error_signature i)) (map snd (incidents fx)) of
        None \<Rightarrow> Inl (ValueError ''unknown synthetic error signature'')
      | Some i \<Rightarrow>
          Inr (JObj [(''error_signature'', error_signature), (''root_cause'', JStr (in_root_cause i)),
                     (''severity'', JStr (in_severity i)), (''recommended_action'', JStr (in_recommended_action i)),
                     (''evidence'', evidence i), (''runbook'', JStr (in_runbook i))]))"

definition diagnosis :: "incident \<Rightarrow> json" where
  "diagnosis i =
     JObj [(''incident_id'', JStr (in_incident_id i)), (''root_cause'', JStr (in_root_cause i)),
           (''severity'', JStr (in_severity i)), (''recommended_action'', JStr (in_recommended_action i)),
           (''evidence'', evidence i), (''runbook'', JStr (in_runbook i))]"

text \<open>
  A tool called by name with keyword arguments: the text that its delay depends on and what it returns. None is the
  \<open>TypeError\<close> of a call that does not fit the parameters, before anything is recorded.
\<close>

definition tool_parameters :: "string \<Rightarrow> string list" where
  "tool_parameters name =
     (if name = ''get_incident'' then [''incident_id'']
      else if name = ''query_metrics'' \<or> name = ''search_logs'' then [''service'', ''window'']
      else [''error_signature''])"

definition sre_tool :: "incident list \<Rightarrow> string \<Rightarrow> json dict \<Rightarrow> (json \<times> json res) option" where
  "sre_tool fx name arguments =
     (if set (dict_keys arguments) \<noteq> set (tool_parameters name) then None
      else if name = ''get_incident'' then
        Some (obj_get arguments ''incident_id'', get_incident fx (obj_get arguments ''incident_id''))
      else if name = ''query_metrics'' then
        Some (obj_get arguments ''service'', query_metrics fx (obj_get arguments ''service'') (obj_get arguments ''window''))
      else if name = ''search_logs'' then
        Some (obj_get arguments ''service'', search_logs fx (obj_get arguments ''service'') (obj_get arguments ''window''))
      else Some (obj_get arguments ''error_signature'', lookup_runbook fx (obj_get arguments ''error_signature'')))"

section \<open>The scripted adapter\<close>

text \<open>
  \<open>json.dumps(v, sort_keys=True, separators=(",", ":"))\<close>: characters from 127 on are escaped. They come from strings
  only, so escaping the printed text is the same.
\<close>

definition ascii_escape :: "string \<Rightarrow> string" where
  "ascii_escape s = concat (map (\<lambda>c. let n = of_char c :: nat in
     if n < 127 then [c] else [CHR 0x5C, CHR ''u'', CHR ''0'', CHR ''0'', hex_digit (n div 16), hex_digit (n mod 16)]) s)"

definition dumps_sorted :: "(rat \<Rightarrow> string) \<Rightarrow> json \<Rightarrow> string res" where
  "dumps_sorted frep v = rbind (json_dumps frep (sort_keys v)) (\<lambda>s. Inr (ascii_escape s))"

text \<open>\<open>_invoke\<close>: the events around one call of a tool, which records the call and waits before it answers.\<close>

definition sre_invoke :: "(nat list \<Rightarrow> nat list) \<Rightarrow> (json \<Rightarrow> string) \<Rightarrow> incident list \<Rightarrow> bool \<Rightarrow> string \<Rightarrow> nat \<Rightarrow> string \<Rightarrow> json dict \<Rightarrow>
    json list \<Rightarrow> (json \<Rightarrow> json list \<Rightarrow> adapter_run) \<Rightarrow> adapter_run" where
  "sre_invoke digest rep fx given case_id index name arguments calls k =
     (let event = (ToolLifecycleEvent (case_id @ ''-'' @ str_of_nat index) name)
            \<lparr>te_agent_name := Some ''sre-diagnostic-agent'', te_arguments := JObj arguments\<rparr>;
          called =
            (case sre_tool fx name arguments of
               None \<Rightarrow> Raises (exc_of_error (TypeError ''unexpected arguments''))
             | Some (key, result) \<Rightarrow>
                 await_call (Sleep (deterministic_delay digest (py_str rep key) name))
                   (case result of
                      Inl e \<Rightarrow> Raises (exc_of_error e)
                    | Inr r \<Rightarrow>
                        if given then await_call (ToolFinished (event\<lparr>te_result := r\<rparr>) []) (k r (calls @ [recorded_call name arguments]))
                        else k r (calls @ [recorded_call name arguments])))
      in if given then await_call (ToolStarted event) called else called)"

text \<open>\<open>result[key]\<close> of what a tool returned.\<close>

definition result_field :: "json \<Rightarrow> string \<Rightarrow> json" where
  "result_field r k = (case r of JObj d \<Rightarrow> obj_get d k | _ \<Rightarrow> JNull)"

definition TOOL_CALLS_KEY :: string where "TOOL_CALLS_KEY = ''agentstorm.sre.tool_calls''"

definition sre_response :: "incident \<Rightarrow> string \<Rightarrow> json list \<Rightarrow> adapter_response" where
  "sre_response i output calls =
     \<lparr>ar_output = output, ar_input_tokens = Some 240, ar_output_tokens = Some 96, ar_model_call_count = Some 5,
      ar_tool_call_count = Some 4, ar_metadata = [(TOOL_CALLS_KEY, JList calls)]\<rparr>"

definition incident_id_of :: "(json \<Rightarrow> string) \<Rightarrow> test_case \<Rightarrow> string" where
  "incident_id_of rep c = py_str rep (py_or (obj_get (tc_metadata c) ''incident_id'') (JStr (tc_case_id c)))"

definition sre_fake_run :: "(nat list \<Rightarrow> nat list) \<Rightarrow> (json \<Rightarrow> string) \<Rightarrow> (rat \<Rightarrow> string) \<Rightarrow> incident list \<Rightarrow> bool \<Rightarrow> test_case \<Rightarrow> adapter_run" where
  "sre_fake_run digest rep frep fx given c =
     (let incident_id = incident_id_of rep c; invoke = sre_invoke digest rep fx given (tc_case_id c)
      in case dict_get (incidents fx) incident_id of
           None \<Rightarrow> Raises (exc_of_error (ValueError ''unknown synthetic incident''))
         | Some incident \<Rightarrow>
             invoke 1 ''get_incident'' [(''incident_id'', JStr incident_id)] [] (\<lambda>found calls.
             let place = [(''service'', JStr (py_str rep (result_field found ''service''))),
                          (''window'', JStr (py_str rep (result_field found ''window'')))]
             in invoke 2 ''query_metrics'' place calls (\<lambda>_ calls.
                invoke 3 ''search_logs'' place calls (\<lambda>logs calls.
                invoke 4 ''lookup_runbook'' [(''error_signature'', JStr (py_str rep (result_field logs ''error_signature'')))] calls (\<lambda>_ calls.
                case dumps_sorted frep (diagnosis incident) of
                  Inl e \<Rightarrow> Raises (exc_of_error e)
                | Inr output \<Rightarrow> Returns (sre_response incident output calls))))))"

section \<open>The evaluator\<close>

text \<open>\<open>v == {...}\<close> for a dictionary of texts: the order of the keys does not matter.\<close>

definition equals_texts :: "json \<Rightarrow> string dict \<Rightarrow> bool" where
  "equals_texts v expected =
     (case v of
        JObj d \<Rightarrow> set (dict_keys d) = set (dict_keys expected) \<and> list_all (\<lambda>(k, s). obj_get d k = JStr s) expected
      | _ \<Rightarrow> False)"

definition usage_verdict :: "bool \<Rightarrow> string \<Rightarrow> json" where
  "usage_verdict passed message = JObj [(''passed'', JBool passed), (''message'', JStr message)]"

definition hashable :: "json \<Rightarrow> bool" where
  "hashable v = (case v of JList _ \<Rightarrow> False | JObj _ \<Rightarrow> False | _ \<Rightarrow> True)"

definition call_names :: "json list \<Rightarrow> json list" where
  "call_names calls = concat (map (\<lambda>call. case call of JObj d \<Rightarrow> [obj_get d ''name''] | _ \<Rightarrow> []) calls)"

text \<open>The arguments of the last call with a name, as the dictionary of the calls has them.\<close>

definition call_arguments_of :: "json list \<Rightarrow> string \<Rightarrow> json" where
  "call_arguments_of calls name =
     (case filter (\<lambda>call. result_field call ''name'' = JStr name) calls of
        [] \<Rightarrow> JNull
      | found \<Rightarrow> result_field (last found) ''arguments'')"

definition validate_tool_usage :: "(json \<Rightarrow> string) \<Rightarrow> incident list \<Rightarrow> json dict \<Rightarrow> json res" where
  "validate_tool_usage rep fx context =
     (let case_id = py_str rep (py_or (obj_get context ''case_id'') (JStr []));
          calls = (case obj_get context ''metadata'' of JObj d \<Rightarrow> obj_get d TOOL_CALLS_KEY | _ \<Rightarrow> JNull)
      in case (dict_get (incidents fx) case_id, calls) of
           (Some incident, JList calls) \<Rightarrow>
             (let names = call_names calls
              in if length calls \<noteq> 4 \<or> take 1 names \<noteq> [JStr ''get_incident''] \<or> drop (length names - 1) names \<noteq> [JStr ''lookup_runbook''] then
                   Inr (usage_verdict False ''tool count or boundary order is invalid'')
                 else if \<not> list_all hashable (take 2 (drop 1 names)) then Inl (TypeError ''unhashable type'')
                 else if set (take 2 (drop 1 names)) \<noteq> {JStr ''query_metrics'', JStr ''search_logs''} \<or> length (remdups names) \<noteq> 4 then
                   Inr (usage_verdict False ''metrics/log order or duplicate tools are invalid'')
                 else
                   (let place = [(''service'', in_service incident), (''window'', in_window incident)];
                        passed =
                          equals_texts (call_arguments_of calls ''get_incident'') [(''incident_id'', case_id)] \<and>
                          equals_texts (call_arguments_of calls ''query_metrics'') place \<and>
                          equals_texts (call_arguments_of calls ''search_logs'') place \<and>
                          equals_texts (call_arguments_of calls ''lookup_runbook'') [(''error_signature'', in_error_signature incident)]
                    in Inr (usage_verdict passed (if passed then [] else ''tool arguments do not follow prior tool evidence''))))
         | _ \<Rightarrow> Inr (usage_verdict False ''SRE tool evidence is missing''))"

section \<open>The tools as chat tools\<close>

definition SRE_COMPATIBLE_TEMPERATURE :: int where "SRE_COMPATIBLE_TEMPERATURE = 0"
definition SRE_COMPATIBLE_MAX_OUTPUT_TOKENS :: int where "SRE_COMPATIBLE_MAX_OUTPUT_TOKENS = 512"
definition SRE_COMPATIBLE_MAX_MODEL_CALLS :: int where "SRE_COMPATIBLE_MAX_MODEL_CALLS = 8"
definition SRE_COMPATIBLE_REQUEST_TIMEOUT_SECONDS :: int where "SRE_COMPATIBLE_REQUEST_TIMEOUT_SECONDS = 120"
definition SRE_COMPATIBLE_INPUT_TOKEN_ALLOWANCE :: int where "SRE_COMPATIBLE_INPUT_TOKEN_ALLOWANCE = UNKNOWN_CALL_INPUT_TOKENS"

definition DIAGNOSIS_CONTRACT :: string where
  "DIAGNOSIS_CONTRACT =
     ''Return only a JSON object with keys incident_id, root_cause, severity, '' @
     ''recommended_action, evidence, and runbook. Copy incident_id from the user message. '' @
     ''Copy root_cause, severity, recommended_action, evidence, and runbook verbatim from '' @
     ''the lookup_runbook result. evidence is a JSON array of strings. Do not paraphrase '' @
     ''those fields and do not use Markdown.''"

definition COMPATIBLE_INSTRUCTIONS :: string where
  "COMPATIBLE_INSTRUCTIONS =
     ''Diagnose the supplied synthetic incident. Call get_incident first. Use its service '' @
     ''and window for both query_metrics and search_logs; those two calls may be made in '' @
     ''either order or together. Call lookup_runbook with the exact error_signature returned '' @
     ''by search_logs. Do not repeat tools or call any other tool. '' @ DIAGNOSIS_CONTRACT"

definition AGENTS_INSTRUCTIONS :: string where
  "AGENTS_INSTRUCTIONS =
     ''Diagnose the supplied synthetic incident. Call get_incident first. Use its service '' @
     ''and window for both query_metrics and search_logs; those two calls may be made in '' @
     ''either order. Call lookup_runbook with the exact error_signature returned by logs. '' @
     ''Do not repeat tools or call any other tool. '' @ DIAGNOSIS_CONTRACT"

definition parameters_schema :: "string list \<Rightarrow> json dict" where
  "parameters_schema names =
     [(''type'', JStr ''object''), (''additionalProperties'', JBool False),
      (''properties'', JObj (map (\<lambda>n. (n, JObj [(''type'', JStr ''string'')])) names)), (''required'', JList (map JStr names))]"

definition compatible_tools :: "chat_tool list" where
  "compatible_tools =
     [\<lparr>ct_name = ''get_incident'', ct_description = ''Read one synthetic incident by id.'',
       ct_parameters = parameters_schema [''incident_id'']\<rparr>,
      \<lparr>ct_name = ''query_metrics'', ct_description = ''Read synthetic service metrics for a window.'',
       ct_parameters = parameters_schema [''service'', ''window'']\<rparr>,
      \<lparr>ct_name = ''search_logs'', ct_description = ''Read synthetic service logs for a window.'',
       ct_parameters = parameters_schema [''service'', ''window'']\<rparr>,
      \<lparr>ct_name = ''lookup_runbook'', ct_description = ''Read the synthetic runbook for an error signature.'',
       ct_parameters = parameters_schema [''error_signature'']\<rparr>]"

definition compatible_tool_schemas :: "json list" where
  "compatible_tool_schemas = map tool_schema compatible_tools"

section \<open>The size of a scripted request\<close>

definition approximate_token_count :: "string \<Rightarrow> nat" where
  "approximate_token_count s = max 1 ((length s + 3) div 4)"

definition assistant_calls :: "(rat \<Rightarrow> string) \<Rightarrow> (string \<times> string \<times> json dict) list \<Rightarrow> json res" where
  "assistant_calls frep calls =
     rbind (rmap_list (\<lambda>(call_id, name, arguments).
       rbind (dumps_sorted frep (JObj arguments)) (\<lambda>printed.
       Inr (JObj [(''id'', JStr call_id), (''type'', JStr ''function''),
                  (''function'', JObj [(''name'', JStr name), (''arguments'', JStr printed)])]))) calls) (\<lambda>tool_calls.
     Inr (JObj [(''role'', JStr ''assistant''), (''content'', JNull), (''tool_calls'', JList tool_calls)]))"

definition tool_message :: "(rat \<Rightarrow> string) \<Rightarrow> string \<Rightarrow> json \<Rightarrow> json res" where
  "tool_message frep call_id payload =
     rbind (dumps_sorted frep payload) (\<lambda>printed.
     Inr (JObj [(''role'', JStr ''tool''), (''tool_call_id'', JStr call_id), (''content'', JStr printed)]))"

definition scripted_history :: "(rat \<Rightarrow> string) \<Rightarrow> string \<Rightarrow> json \<Rightarrow> json \<Rightarrow> json \<Rightarrow> json \<Rightarrow> json list res" where
  "scripted_history frep incident_id fetched metrics logs runbook =
     (let place = [(''service'', result_field fetched ''service''), (''window'', result_field fetched ''window'')];
          signature = [(''error_signature'', result_field logs ''error_signature'')]
      in rbind (rmap_list id
           [assistant_calls frep [(''c1'', ''get_incident'', [(''incident_id'', JStr incident_id)])],
            tool_message frep ''c1'' fetched,
            assistant_calls frep [(''c2'', ''query_metrics'', place), (''c3'', ''search_logs'', place)],
            tool_message frep ''c2'' metrics, tool_message frep ''c3'' logs,
            assistant_calls frep [(''c4'', ''lookup_runbook'', signature)],
            tool_message frep ''c4'' runbook]) (\<lambda>messages.
         Inr ([JObj [(''role'', JStr ''system''), (''content'', JStr COMPATIBLE_INSTRUCTIONS)],
               JObj [(''role'', JStr ''user''),
                     (''content'', JStr (''Investigate incident '' @ incident_id @ ''. Use the available read-only tools '' @
                        ''and return the required diagnosis.''))]] @ messages)))"

definition scripted_request :: "(json \<Rightarrow> string) \<Rightarrow> (rat \<Rightarrow> string) \<Rightarrow> incident list \<Rightarrow> string \<Rightarrow> string res" where
  "scripted_request rep frep fx incident_id =
     rbind (get_incident fx (JStr incident_id)) (\<lambda>fetched.
     rbind (query_metrics fx (result_field fetched ''service'') (result_field fetched ''window'')) (\<lambda>metrics.
     rbind (search_logs fx (result_field fetched ''service'') (result_field fetched ''window'')) (\<lambda>logs.
     rbind (lookup_runbook fx (JStr (py_str rep (result_field logs ''error_signature'')))) (\<lambda>runbook.
     rbind (scripted_history frep incident_id fetched metrics logs runbook) (\<lambda>messages.
     json_dumps_spaced frep
       (JObj [(''model'', JStr ''pinned-model-id''), (''messages'', JList messages), (''stream'', JBool False),
              (''tools'', JList compatible_tool_schemas), (''tool_choice'', JStr ''auto''),
              (''temperature'', JInt SRE_COMPATIBLE_TEMPERATURE), (''max_tokens'', JInt SRE_COMPATIBLE_MAX_OUTPUT_TOKENS)]))))))"

definition largest_scripted_request_tokens :: "(json \<Rightarrow> string) \<Rightarrow> (rat \<Rightarrow> string) \<Rightarrow> incident list \<Rightarrow> nat res" where
  "largest_scripted_request_tokens rep frep fx =
     rbind (rmap_list (scripted_request rep frep fx) (dict_keys (incidents fx))) (\<lambda>requests.
     Inr (foldl (\<lambda>worst s. max worst (approximate_token_count s)) 0 requests))"

section \<open>The recording adapter\<close>

definition unwrap_json_fence :: "string \<Rightarrow> string" where
  "unwrap_json_fence output =
     (let stripped = py_strip output; lines = splitlines stripped
      in if \<not> startswith stripped ''```'' then output
         else if length lines < 3 \<or> py_strip (last lines) \<noteq> ''```'' then output
         else py_strip (join_str [CHR 0x0A] (butlast (tl lines))))"

definition recorded_response :: "json list \<Rightarrow> adapter_response \<Rightarrow> adapter_response" where
  "recorded_response calls r =
     r\<lparr>ar_output := unwrap_json_fence (ar_output r), ar_metadata := dict_set (ar_metadata r) TOOL_CALLS_KEY (JList calls),
       ar_tool_call_count := Some (int (length calls))\<rparr>"




text \<open>With the OpenAI Agents SDK, which calls the tools itself, the calls it made are given.\<close>

definition sre_agents_run :: "json list \<Rightarrow> adapter_run \<Rightarrow> adapter_run" where
  "sre_agents_run calls run = map_returns (\<lambda>r. Returns (recorded_response calls r)) run"

section \<open>The factory\<close>

definition compatible_request_fields :: "(rat \<Rightarrow> string) \<Rightarrow> adapter_context \<Rightarrow> json dict res" where
  "compatible_request_fields frep context =
     rbind (case cx_max_output_tokens context of
              None \<Rightarrow> Inr SRE_COMPATIBLE_MAX_OUTPUT_TOKENS
            | Some n \<Rightarrow> validate_max_output_tokens (JInt n)) (\<lambda>max_tokens.
     rbind (validate_request_fields frep [''temperature'', ''max_tokens''] (JObj (cx_request_fields context))) (\<lambda>extra.
     Inr (dict_update [(''temperature'', JInt SRE_COMPATIBLE_TEMPERATURE), (''max_tokens'', JInt max_tokens)] extra)))"

text \<open>The keyword arguments of the constructor.\<close>

definition sre_options :: "json dict \<Rightarrow> chat_options" where
  "sre_options fs =
     default_options\<lparr>co_instructions := COMPATIBLE_INSTRUCTIONS, co_tools := compatible_tools,
       co_max_model_calls := SRE_COMPATIBLE_MAX_MODEL_CALLS,
       co_request_timeout_seconds := Fin (of_int SRE_COMPATIBLE_REQUEST_TIMEOUT_SECONDS),
       co_request_fields := JObj fs, co_agent_name := ''sre-diagnostic-agent''\<rparr>"

definition create_openai_compatible_adapter ::
  "(string \<Rightarrow> url_parts res) \<Rightarrow> (rat \<Rightarrow> string) \<Rightarrow> adapter_context \<Rightarrow> chat_adapter res" where
  "create_openai_compatible_adapter urlsplit frep context =
     rbind (compatible_request_fields frep context) (\<lambda>fs.
     rbind (http_retry_adapter_kwargs (cx_http_retry_attempts context) (cx_http_retry_max_wait_seconds context)) (\<lambda>kwargs.
     openai_compatible_adapter urlsplit frep (cx_model context) (cx_base_url context)
       (with_retry_kwargs kwargs (sre_options fs))))"

datatype sre_failure = SreImportError | SreRaises py_error

datatype sre_adapter = SreFakeAdapter | SreAgentsAdapter agents_adapter | SreChatAdapter chat_adapter

definition lift_sre :: "'a res \<Rightarrow> sre_failure + 'a" where
  "lift_sre r = (case r of Inl e \<Rightarrow> Inl (SreRaises e) | Inr v \<Rightarrow> Inr v)"

text \<open>The tools, the output type and the settings are objects of the SDK.\<close>

definition create_openai_adapter :: "bool \<Rightarrow> adapter_context \<Rightarrow> sre_failure + agents_adapter" where
  "create_openai_adapter installed context =
     (if \<not> installed then Inl SreImportError
      else lift_sre (openai_agents_adapter True (cx_model context) (cx_base_url context) ''AgentStorm SRE diagnostic agent''
             AGENTS_INSTRUCTIONS (Some (JList (replicate 4 (JOpaque ''FunctionTool'')))) (Some (JOpaque ''SREDiagnosis''))
             (Some (JOpaque ''ModelSettings''))))"

definition sre_create_adapter ::
  "(string \<Rightarrow> url_parts res) \<Rightarrow> (rat \<Rightarrow> string) \<Rightarrow> bool \<Rightarrow> adapter_context \<Rightarrow> sre_failure + sre_adapter" where
  "sre_create_adapter urlsplit frep installed context =
     (if cx_provider context = ''fake'' then Inr SreFakeAdapter
      else if cx_provider context = ''openai-agents'' then
        rbind (create_openai_adapter installed context) (\<lambda>ag. Inr (SreAgentsAdapter ag))
      else if cx_provider context = ''openai-compatible'' then
        rbind (lift_sre (create_openai_compatible_adapter urlsplit frep context)) (\<lambda>ca. Inr (SreChatAdapter ca))
      else Inl (SreRaises (ValueError ''SRE benchmark supports fake, openai-agents, or openai-compatible providers'')))"

section \<open>What the evaluator accepts\<close>

definition is_call :: "json \<Rightarrow> string \<Rightarrow> string dict \<Rightarrow> bool" where
  "is_call v name expected \<longleftrightarrow> result_field v ''name'' = JStr name \<and> equals_texts (result_field v ''arguments'') expected"

text \<open>The four calls of a sound investigation of an incident: metrics and logs in either order.\<close>

definition sound_calls :: "string \<Rightarrow> incident \<Rightarrow> json list \<Rightarrow> bool" where
  "sound_calls case_id i calls \<longleftrightarrow>
     (let place = [(''service'', in_service i), (''window'', in_window i)]
      in \<exists>a b c d. calls = [a, b, c, d] \<and> is_call a ''get_incident'' [(''incident_id'', case_id)] \<and>
           (is_call b ''query_metrics'' place \<and> is_call c ''search_logs'' place \<or>
            is_call b ''search_logs'' place \<and> is_call c ''query_metrics'' place) \<and>
           is_call d ''lookup_runbook'' [(''error_signature'', in_error_signature i)])"

definition is_obj :: "json \<Rightarrow> bool" where
  "is_obj v = (case v of JObj _ \<Rightarrow> True | _ \<Rightarrow> False)"

lemma is_call_obj: "is_call v name expected \<Longrightarrow> is_obj v"
  by (auto simp: is_call_def is_obj_def result_field_def split: json.splits)

lemma call_names_objects: "list_all is_obj calls \<Longrightarrow> call_names calls = map (\<lambda>v. result_field v ''name'') calls"
  by (induction calls) (auto simp: call_names_def is_obj_def result_field_def split: json.splits)

lemma length_call_names: "length (call_names calls) = length (filter is_obj calls)"
  by (induction calls) (auto simp: call_names_def is_obj_def split: json.splits)

lemma call_names_full: "length calls \<le> length (call_names calls) \<Longrightarrow> list_all is_obj calls"
  using length_filter_le [of is_obj calls] filter_id_conv [of is_obj calls] 
  by (metis length_call_names list_all_iff length_filter_less not_le)

lemma pair_set: "{x, y} = {a, b} \<Longrightarrow> x = a \<and> y = b \<or> x = b \<and> y = a"
  by (auto simp: doubleton_eq_iff)

lemma call_arguments_four:
  assumes "map (\<lambda>v. result_field v ''name'') [a, b, c, d] = map JStr [na, nb, nc, nd]" "distinct [na, nb, nc, nd]"
  shows "call_arguments_of [a, b, c, d] na = result_field a ''arguments''" "call_arguments_of [a, b, c, d] nb = result_field b ''arguments''"
    "call_arguments_of [a, b, c, d] nc = result_field c ''arguments''" "call_arguments_of [a, b, c, d] nd = result_field d ''arguments''"
  using assms by (auto simp: call_arguments_of_def)

lemma usage_verdict_passed [simp]: "usage_verdict p m = usage_verdict p' m' \<longleftrightarrow> p = p' \<and> m = m'"
  by (simp add: usage_verdict_def)

lemma sound_names:
  assumes "length calls = 4" "take 1 (call_names calls) = [JStr ''get_incident'']"
    "drop (length (call_names calls) - 1) (call_names calls) = [JStr ''lookup_runbook'']"
    "set (take 2 (drop 1 (call_names calls))) = {JStr ''query_metrics'', JStr ''search_logs''}" "length (remdups (call_names calls)) = 4"
  obtains a b c d x y where "calls = [a, b, c, d]" "(x, y) = (''query_metrics'', ''search_logs'') \<or> (x, y) = (''search_logs'', ''query_metrics'')"
    "map (\<lambda>v. result_field v ''name'') [a, b, c, d] = map JStr [''get_incident'', x, y, ''lookup_runbook'']"
proof -
  have "list_all is_obj calls"
    using assms(1,5) length_remdups_leq [of "call_names calls"] by (intro call_names_full) simp
  then have names: "call_names calls = map (\<lambda>v. result_field v ''name'') calls" by (rule call_names_objects)
  obtain a b c d where calls: "calls = [a, b, c, d]" using assms(1) by (auto simp: length_Suc_conv numeral_eq_Suc)
  have "{result_field b ''name'', result_field c ''name''} = {JStr ''query_metrics'', JStr ''search_logs''}"
    using assms(4) unfolding names by (simp add: calls)
  from pair_set [OF this] that [OF calls] assms(2,3) show ?thesis unfolding names by (auto simp: calls)
qed

lemma validate_missing:
  assumes "\<not> (\<exists>i d calls. dict_get (incidents fx) (py_str rep (py_or (obj_get ctx ''case_id'') (JStr []))) = Some i \<and>
     obj_get ctx ''metadata'' = JObj d \<and> obj_get d TOOL_CALLS_KEY = JList calls)"
  shows "validate_tool_usage rep fx ctx = Inr (usage_verdict False ''SRE tool evidence is missing'')"
proof (cases "dict_get (incidents fx) (py_str rep (py_or (obj_get ctx ''case_id'') (JStr [])))")
  case None
  then show ?thesis by (simp add: validate_tool_usage_def)
next
  case (Some i)
  then show ?thesis
  proof (cases "obj_get ctx ''metadata''")
    case (JObj d)
    then show ?thesis using Some assms by (cases "obj_get d TOOL_CALLS_KEY") (simp_all add: validate_tool_usage_def)
  qed (simp_all add: validate_tool_usage_def)
qed

lemma sound_callsE:
  assumes "sound_calls case_id i calls"
  obtains a b c d x y where "calls = [a, b, c, d]"
    "(x, y) = (''query_metrics'', ''search_logs'') \<or> (x, y) = (''search_logs'', ''query_metrics'')"
    "is_call a ''get_incident'' [(''incident_id'', case_id)]"
    "is_call b x [(''service'', in_service i), (''window'', in_window i)]"
    "is_call c y [(''service'', in_service i), (''window'', in_window i)]"
    "is_call d ''lookup_runbook'' [(''error_signature'', in_error_signature i)]"
  using assms unfolding sound_calls_def Let_def by blast

lemma validate_sound:
  assumes "dict_get (incidents fx) case_id = Some i" "case_id = py_str rep (py_or (obj_get ctx ''case_id'') (JStr []))"
    "obj_get ctx ''metadata'' = JObj d" "obj_get d TOOL_CALLS_KEY = JList calls" "sound_calls case_id i calls"
  shows "validate_tool_usage rep fx ctx = Inr (usage_verdict True [])"
proof -
  obtain a b c e x y where calls: "calls = [a, b, c, e]"
    and xy: "(x, y) = (''query_metrics'', ''search_logs'') \<or> (x, y) = (''search_logs'', ''query_metrics'')"
    and four: "is_call a ''get_incident'' [(''incident_id'', case_id)]"
      "is_call b x [(''service'', in_service i), (''window'', in_window i)]"
      "is_call c y [(''service'', in_service i), (''window'', in_window i)]"
      "is_call e ''lookup_runbook'' [(''error_signature'', in_error_signature i)]"
    using assms(5) by (rule sound_callsE)
  have names: "map (\<lambda>v. result_field v ''name'') [a, b, c, e] = map JStr [''get_incident'', x, y, ''lookup_runbook'']"
    using four by (simp add: is_call_def)
  have listed: "call_names calls = map JStr [''get_incident'', x, y, ''lookup_runbook'']"
    using call_names_objects [of calls] names four [THEN is_call_obj] by (simp add: calls)
  have "distinct [''get_incident'', x, y, ''lookup_runbook'']" using xy by auto
  note arguments = call_arguments_four [OF names this, folded calls]
  have args: "equals_texts (call_arguments_of calls ''get_incident'') [(''incident_id'', case_id)]"
    "equals_texts (call_arguments_of calls ''query_metrics'') [(''service'', in_service i), (''window'', in_window i)]"
    "equals_texts (call_arguments_of calls ''search_logs'') [(''service'', in_service i), (''window'', in_window i)]"
    "equals_texts (call_arguments_of calls ''lookup_runbook'') [(''error_signature'', in_error_signature i)]"
    using xy four arguments by (auto simp: is_call_def)
  have "length calls = 4" by (simp add: calls)
  with xy show ?thesis
    unfolding validate_tool_usage_def assms(2) [symmetric]
    by (elim disjE) (simp_all add: Let_def listed args assms(1,3,4) hashable_def insert_commute)
qed

lemma validate_only_sound:
  assumes "validate_tool_usage rep fx ctx = Inr (usage_verdict True [])"
    "dict_get (incidents fx) case_id = Some i" "case_id = py_str rep (py_or (obj_get ctx ''case_id'') (JStr []))"
    "obj_get ctx ''metadata'' = JObj d" "obj_get d TOOL_CALLS_KEY = JList calls"
  shows "sound_calls case_id i calls"
proof -
  have checks: "length calls = 4" "take 1 (call_names calls) = [JStr ''get_incident'']"
    "drop (length (call_names calls) - 1) (call_names calls) = [JStr ''lookup_runbook'']"
    "set (take 2 (drop 1 (call_names calls))) = {JStr ''query_metrics'', JStr ''search_logs''}" "length (remdups (call_names calls)) = 4"
    and args: "equals_texts (call_arguments_of calls ''get_incident'') [(''incident_id'', case_id)]"
      "equals_texts (call_arguments_of calls ''query_metrics'') [(''service'', in_service i), (''window'', in_window i)]"
      "equals_texts (call_arguments_of calls ''search_logs'') [(''service'', in_service i), (''window'', in_window i)]"
      "equals_texts (call_arguments_of calls ''lookup_runbook'') [(''error_signature'', in_error_signature i)]"
    using assms(1,2,4,5) unfolding validate_tool_usage_def assms(3) [symmetric] by (auto simp: Let_def split: if_splits)
  obtain a b c e x y where calls: "calls = [a, b, c, e]"
    and xy: "(x, y) = (''query_metrics'', ''search_logs'') \<or> (x, y) = (''search_logs'', ''query_metrics'')"
    and names: "map (\<lambda>v. result_field v ''name'') [a, b, c, e] = map JStr [''get_incident'', x, y, ''lookup_runbook'']"
    using checks by (rule sound_names)
  have "distinct [''get_incident'', x, y, ''lookup_runbook'']" using xy by auto
  note arguments = call_arguments_four [OF names this, folded calls]
  have "is_call a ''get_incident'' [(''incident_id'', case_id)]" "is_call b x [(''service'', in_service i), (''window'', in_window i)]"
    "is_call c y [(''service'', in_service i), (''window'', in_window i)]"
    "is_call e ''lookup_runbook'' [(''error_signature'', in_error_signature i)]"
    using xy names args arguments unfolding is_call_def by (auto simp del: disj_not1)
  with xy show ?thesis unfolding sound_calls_def Let_def calls by blast
qed

text \<open>C20: the evaluator of the SRE benchmark passes a case exactly when the case is a known incident and
  the recorded calls are the four of a sound investigation, each with the arguments that the earlier ones gave, the
  metrics and the logs in either order: no other number of calls, repeated tool or wrong argument passes.\<close>

theorem tool_usage_exact:
  "validate_tool_usage rep fx ctx = Inr (usage_verdict True []) \<longleftrightarrow>
     (let case_id = py_str rep (py_or (obj_get ctx ''case_id'') (JStr []))
      in \<exists>i d calls. dict_get (incidents fx) case_id = Some i \<and> obj_get ctx ''metadata'' = JObj d \<and>
           obj_get d TOOL_CALLS_KEY = JList calls \<and> sound_calls case_id i calls)"
  (is "?lhs \<longleftrightarrow> ?rhs")
proof
  assume ?lhs
  then have "\<exists>i d calls. dict_get (incidents fx) (py_str rep (py_or (obj_get ctx ''case_id'') (JStr []))) = Some i \<and>
     obj_get ctx ''metadata'' = JObj d \<and> obj_get d TOOL_CALLS_KEY = JList calls"
    using validate_missing [of fx rep ctx] by (rule_tac ccontr) simp
  with validate_only_sound [OF \<open>?lhs\<close> _ refl] show ?rhs by (auto simp: Let_def)
next
  assume ?rhs
  then show ?lhs by (auto simp: Let_def intro: validate_sound)
qed

section \<open>What the tools answer\<close>

lemma incidents_distinct: "distinct (map in_incident_id fx) \<Longrightarrow> incidents fx = map (\<lambda>i. (in_incident_id i, i)) fx"
proof (induction fx rule: rev_induct)
  case (snoc i fx)
  then have "dict_get (incidents fx) (in_incident_id i) = None"
    by (auto simp: dict_get_def map_of_eq_None_iff image_iff)
  then show ?case using snoc by (simp add: incidents_def dict_set_append)
qed (simp add: incidents_def)

definition places_distinct :: "incident list \<Rightarrow> bool" where
  "places_distinct fx = distinct (map (\<lambda>i. (in_service i, in_window i)) fx)"

text \<open>The same signature is the same diagnosis, apart from the incident.\<close>

definition runbook_fields :: "incident \<Rightarrow> string \<times> string \<times> string \<times> string \<times> string" where
  "runbook_fields i = (in_root_cause i, in_severity i, in_recommended_action i, metrics_summary i, in_runbook i)"

definition signatures_agree :: "incident list \<Rightarrow> bool" where
  "signatures_agree fx = list_all (\<lambda>i. list_all (\<lambda>j. in_error_signature i = in_error_signature j \<longrightarrow> runbook_fields i = runbook_fields j) fx) fx"

definition fixtures_ok :: "incident list \<Rightarrow> bool" where
  "fixtures_ok fx \<longleftrightarrow> distinct (map in_incident_id fx) \<and> places_distinct fx \<and> signatures_agree fx"

lemma known_incident:
  assumes "distinct (map in_incident_id fx)"
  shows "dict_get (incidents fx) k = Some i \<longleftrightarrow> i \<in> set fx \<and> in_incident_id i = k"
  using assms by (auto simp: incidents_distinct dict_get_def o_def image_iff)

lemma found_member:
  assumes "x \<in> set xs" "P x"
  obtains y where "find P xs = Some y" "y \<in> set xs" "P y"
proof (cases "find P xs")
  case None
  then show ?thesis using assms by (simp add: find_None_iff)
next
  case (Some y)
  then have "y \<in> set xs \<and> P y" by (metis find_Some_iff nth_mem)
  then show ?thesis using Some that by blast
qed

lemma incidents_values: "fixtures_ok fx \<Longrightarrow> map snd (incidents fx) = fx"
  by (simp add: fixtures_ok_def incidents_distinct o_def)

lemma found_place:
  assumes "fixtures_ok fx" "i \<in> set fx"
  shows "incident_for_service fx (JStr (in_service i)) (JStr (in_window i)) = Inr i"
proof -
  let ?P = "\<lambda>j. JStr (in_service i) = JStr (in_service j) \<and> JStr (in_window i) = JStr (in_window j)"
  obtain j where j: "find ?P fx = Some j" "j \<in> set fx" "?P j" using found_member [OF assms(2), of ?P] by blast
  have "inj_on (\<lambda>i. (in_service i, in_window i)) (set fx)"
    using assms(1) unfolding fixtures_ok_def places_distinct_def distinct_map by blast
  then have "j = i" by (rule inj_onD) (use j(2,3) assms(2) in simp_all)
  then show ?thesis using j(1) unfolding incident_for_service_def incidents_values [OF assms(1)] by simp
qed

text \<open>The runbook that the signature in the logs leads to has the fields of the incident's own diagnosis.\<close>

lemma found_runbook:
  assumes "fixtures_ok fx" "i \<in> set fx"
  shows "lookup_runbook fx (JStr (in_error_signature i)) =
    Inr (JObj [(''error_signature'', JStr (in_error_signature i)), (''root_cause'', JStr (in_root_cause i)),
               (''severity'', JStr (in_severity i)), (''recommended_action'', JStr (in_recommended_action i)),
               (''evidence'', evidence i), (''runbook'', JStr (in_runbook i))])"
proof -
  let ?P = "\<lambda>j. JStr (in_error_signature i) = JStr (in_error_signature j)"
  obtain j where j: "find ?P fx = Some j" "j \<in> set fx" "?P j" using found_member [OF assms(2), of ?P] by blast
  then have same: "in_error_signature j = in_error_signature i" by simp
  have "runbook_fields j = runbook_fields i"
    using assms j(2) same unfolding fixtures_ok_def signatures_agree_def list_all_iff by blast
  with j(1) same show ?thesis
    unfolding lookup_runbook_def incidents_values [OF assms(1)] by (simp add: evidence_def runbook_fields_def)
qed

text \<open>The groups of the fixtures, as the tools distinguish them: incidents and services are distinct, and a group shares
  its signature and its runbook.\<close>

lemma obj_get_metrics: "tool_text (obj_get ((''summary'', JStr s) # d) ''summary'') = s"
  by (simp add: obj_get_def dict_get_def tool_text_def)

lemma pool_keys:
  "map in_incident_id pool_incidents = [''INC-001'', ''INC-002'', ''INC-003'', ''INC-004'', ''INC-005'', ''INC-006'', ''INC-007'', ''INC-008'']"
  "map in_service pool_incidents = [''checkout-api'', ''orders-api'', ''payments-api'', ''inventory-api'', ''catalog-api'', ''profile-api'', ''session-api'', ''notification-api'']"
  by (simp_all only: pool_incidents_def list.map incident.select_convs)

lemma pool_runbook:
  "list_all (\<lambda>i. in_error_signature i = ''DB_POOL_TIMEOUT'' \<and> runbook_fields i =
     (''database_pool_exhaustion'', ''sev2'', ''increase_pool_and_restart'', ''db_pool_in_use_100_percent'', ''RB-017'')) pool_incidents"
  by (simp only: pool_incidents_def list.pred_inject incident.select_convs runbook_fields_def metrics_summary_def metrics_of_def
      obj_get_metrics simp_thms)

lemma memory_keys:
  "map in_incident_id memory_incidents = [''INC-009'', ''INC-010'', ''INC-011'', ''INC-012'', ''INC-013'', ''INC-014'', ''INC-015'', ''INC-016'']"
  "map in_service memory_incidents = [''image-worker'', ''report-worker'', ''recommendation-api'', ''analytics-api'', ''search-indexer'', ''event-consumer'', ''audit-worker'', ''pricing-api'']"
  by (simp_all only: memory_incidents_def list.map incident.select_convs)

lemma memory_runbook:
  "list_all (\<lambda>i. in_error_signature i = ''OOM_GROWTH_DETECTED'' \<and> runbook_fields i =
     (''memory_leak'', ''sev2'', ''rollback_and_restart'', ''memory_rss_monotonic_growth'', ''RB-023'')) memory_incidents"
  by (simp only: memory_incidents_def list.pred_inject incident.select_convs runbook_fields_def metrics_summary_def metrics_of_def
      obj_get_metrics simp_thms)

lemma upstream_keys:
  "map in_incident_id upstream_incidents = [''INC-017'', ''INC-018'', ''INC-019'', ''INC-020'', ''INC-021'', ''INC-022'', ''INC-023'', ''INC-024'']"
  "map in_service upstream_incidents = [''shipping-api'', ''tax-api'', ''fraud-api'', ''auth-gateway'', ''email-api'', ''sms-api'', ''warehouse-api'', ''loyalty-api'']"
  by (simp_all only: upstream_incidents_def list.map incident.select_convs)

lemma upstream_runbook:
  "list_all (\<lambda>i. in_error_signature i = ''UPSTREAM_DEADLINE_EXCEEDED'' \<and> runbook_fields i =
     (''downstream_dependency_timeout'', ''sev1'', ''enable_failover_and_reduce_timeout'', ''upstream_latency_and_timeout_spike'', ''RB-031'')) upstream_incidents"
  by (simp only: upstream_incidents_def list.pred_inject incident.select_convs runbook_fields_def metrics_summary_def metrics_of_def
      obj_get_metrics simp_thms)

lemma release_keys:
  "map in_incident_id release_incidents = [''INC-025'', ''INC-026'', ''INC-027'', ''INC-028'', ''INC-029'', ''INC-030'', ''INC-031'', ''INC-032'']"
  "map in_service release_incidents = [''checkout-web'', ''orders-web'', ''admin-api'', ''edge-router'', ''config-api'', ''billing-api'', ''fulfillment-api'', ''support-api'']"
  by (simp_all only: release_incidents_def list.map incident.select_convs)

lemma release_runbook:
  "list_all (\<lambda>i. in_error_signature i = ''NEW_RELEASE_ERROR_SPIKE'' \<and> runbook_fields i =
     (''bad_release'', ''sev1'', ''rollback_release'', ''error_spike_correlated_with_deploy'', ''RB-042'')) release_incidents"
  by (simp only: release_incidents_def list.pred_inject incident.select_convs runbook_fields_def metrics_summary_def metrics_of_def
      obj_get_metrics simp_thms)

lemma fixtures_ids: "distinct (map in_incident_id FIXTURES)"
  unfolding FIXTURES_def map_append pool_keys memory_keys upstream_keys release_keys by code_simp

lemma fixtures_services: "distinct (map in_service FIXTURES)"
  unfolding FIXTURES_def map_append pool_keys memory_keys upstream_keys release_keys by code_simp

lemma fixtures_places: "places_distinct FIXTURES"
proof -
  have "distinct (map fst (map (\<lambda>i. (in_service i, in_window i)) FIXTURES))" using fixtures_services by (simp add: o_def)
  then show ?thesis unfolding places_distinct_def by (rule distinct_map [THEN iffD1, THEN conjunct1])
qed

lemma groups_agree:
  assumes "list_all (\<lambda>i. in_error_signature i = s \<and> runbook_fields i = b) g" "signatures_agree h"
    "s \<notin> in_error_signature ` set h"
  shows "signatures_agree (g @ h)"
proof -
  have g: "in_error_signature i = s" "runbook_fields i = b" if "i \<in> set g" for i using assms(1) that by (simp_all add: list_all_iff)
  have h: "runbook_fields i = runbook_fields j" if "i \<in> set h" "j \<in> set h" "in_error_signature i = in_error_signature j" for i j
    using assms(2) that unfolding signatures_agree_def list_all_iff by blast
  have new: "in_error_signature i \<noteq> s" if "i \<in> set h" for i using assms(3) that by blast
  have "runbook_fields i = runbook_fields j"
    if "i \<in> set g \<or> i \<in> set h" "j \<in> set g \<or> j \<in> set h" "in_error_signature i = in_error_signature j" for i j
    using that g [of i] g [of j] h [of i j] new [of i] new [of j] by (elim disjE) simp_all
  then show ?thesis unfolding signatures_agree_def list_all_iff set_append Un_iff by blast
qed

lemma group_signature:
  assumes "list_all (\<lambda>i. in_error_signature i = s \<and> runbook_fields i = b) g" "s' \<noteq> s"
  shows "s' \<notin> in_error_signature ` set g"
  using assms unfolding list_all_iff by blast

lemma fixtures_signatures: "signatures_agree FIXTURES"
proof -
  note absent = group_signature [OF memory_runbook] group_signature [OF upstream_runbook] group_signature [OF release_runbook]
  have "signatures_agree []" by (simp add: signatures_agree_def)
  then have 1: "signatures_agree release_incidents" using groups_agree [OF release_runbook] by fastforce
  have 2: "signatures_agree (upstream_incidents @ release_incidents)"
    by (rule groups_agree [OF upstream_runbook 1]) (rule absent, simp)
  have 3: "signatures_agree (memory_incidents @ upstream_incidents @ release_incidents)"
    by (rule groups_agree [OF memory_runbook 2]) (unfold set_append image_Un Un_iff de_Morgan_disj, intro conjI absent, simp_all)
  show ?thesis
    unfolding FIXTURES_def
    by (rule groups_agree [OF pool_runbook 3]) (unfold set_append image_Un Un_iff de_Morgan_disj, intro conjI absent, simp_all)
qed

lemma fixtures_fine: "fixtures_ok FIXTURES"
  by (simp add: fixtures_ok_def fixtures_ids fixtures_places fixtures_signatures)

section \<open>The scripted adapter passes its evaluator\<close>

text \<open>The calls that the script makes for an incident.\<close>

definition scripted_calls :: "incident \<Rightarrow> json list" where
  "scripted_calls i =
     (let place = [(''service'', JStr (in_service i)), (''window'', JStr (in_window i))]
      in [recorded_call ''get_incident'' [(''incident_id'', JStr (in_incident_id i))], recorded_call ''query_metrics'' place,
          recorded_call ''search_logs'' place, recorded_call ''lookup_runbook'' [(''error_signature'', JStr (in_error_signature i))]])"

lemma scripted_calls_sound: "sound_calls (in_incident_id i) i (scripted_calls i)"
  by (simp add: sound_calls_def scripted_calls_def Let_def is_call_def recorded_call_def result_field_def equals_texts_def
      obj_get_def dict_get_def dict_keys_def)

text \<open>The tools as the script calls them.\<close>

lemma scripted_tools:
  assumes "fixtures_ok fx" "i \<in> set fx"
  defines "place \<equiv> [(''service'', JStr (in_service i)), (''window'', JStr (in_window i))]"
  shows "\<exists>r. sre_tool fx ''get_incident'' [(''incident_id'', JStr (in_incident_id i))] = Some (JStr (in_incident_id i), Inr r) \<and>
      result_field r ''service'' = JStr (in_service i) \<and> result_field r ''window'' = JStr (in_window i)"
    and "\<exists>r. sre_tool fx ''query_metrics'' place = Some (JStr (in_service i), Inr r)"
    and "\<exists>r. sre_tool fx ''search_logs'' place = Some (JStr (in_service i), Inr r) \<and>
      result_field r ''error_signature'' = JStr (in_error_signature i)"
    and "\<exists>r. sre_tool fx ''lookup_runbook'' [(''error_signature'', JStr (in_error_signature i))] =
      Some (JStr (in_error_signature i), Inr r)"
proof -
  have "dict_get (incidents fx) (in_incident_id i) = Some i" using assms by (simp add: known_incident fixtures_ok_def)
  then show "\<exists>r. sre_tool fx ''get_incident'' [(''incident_id'', JStr (in_incident_id i))] = Some (JStr (in_incident_id i), Inr r) \<and>
      result_field r ''service'' = JStr (in_service i) \<and> result_field r ''window'' = JStr (in_window i)"
    by (simp add: sre_tool_def tool_parameters_def dict_keys_def obj_get_def dict_get_def get_incident_def result_field_def)
  show "\<exists>r. sre_tool fx ''query_metrics'' place = Some (JStr (in_service i), Inr r)"
    using found_place [OF assms(1,2)]
    by (simp add: place_def sre_tool_def tool_parameters_def dict_keys_def obj_get_def dict_get_def query_metrics_def)
  show "\<exists>r. sre_tool fx ''search_logs'' place = Some (JStr (in_service i), Inr r) \<and>
      result_field r ''error_signature'' = JStr (in_error_signature i)"
    using found_place [OF assms(1,2)]
    by (simp add: place_def sre_tool_def tool_parameters_def dict_keys_def obj_get_def dict_get_def search_logs_def result_field_def)
  show "\<exists>r. sre_tool fx ''lookup_runbook'' [(''error_signature'', JStr (in_error_signature i))] =
      Some (JStr (in_error_signature i), Inr r)"
    using found_runbook [OF assms(1,2)] by (simp add: sre_tool_def tool_parameters_def dict_keys_def obj_get_def dict_get_def)
qed

text \<open>The two ways of reading a run: what every return is, and what it ends with when every await is answered.\<close>

lemma invoke_returns:
  assumes "sre_tool fx name arguments = Some (key, Inr r)"
  shows "all_returns P (sre_invoke digest rep fx given case_id n name arguments calls k) =
    all_returns P (k r (calls @ [recorded_call name arguments]))"
  using assms by (simp add: sre_invoke_def Let_def)

primrec answered :: "adapter_run \<Rightarrow> outcome" where
  "answered (Returns r) = ORet r"
| "answered (Raises x) = ORaise x"
| "answered TimesOut = OTimeout"
| "answered IsCancelled = OCancelled"
| "answered (Calls c k) = answered (k Done)"

lemma interp_answered:
  assumes "\<And>l c. fst (h l c) = Done"
  shows "fst (interp t h l) = answered t"
proof (induction t arbitrary: l)
  case (Calls c k)
  then show ?case using assms [of l c] by (simp add: case_prod_unfold)
qed simp_all

lemma answered_await [simp]: "answered (await_call c rest) = answered rest"
  by (simp add: await_call_def)

lemma invoke_answered:
  assumes "sre_tool fx name arguments = Some (key, Inr r)"
  shows "answered (sre_invoke digest rep fx given case_id n name arguments calls k) =
    answered (k r (calls @ [recorded_call name arguments]))"
  using assms by (simp add: sre_invoke_def Let_def)

lemma sort_keys_diagnosis: "\<exists>out. dumps_sorted frep (diagnosis i) = Inr out"
  by (simp add: dumps_sorted_def diagnosis_def evidence_def)

lemma evaluated_calls:
  assumes "ar_metadata r = [(TOOL_CALLS_KEY, JList calls)]"
  shows "obj_get (evaluation_metadata c r) TOOL_CALLS_KEY = JList calls"
  using assms by (simp add: evaluation_metadata_def TOOL_CALLS_KEY_def obj_get_def dict_simps)

lemma scripted_answers:
  assumes "fixtures_ok fx" "i \<in> set fx"
  obtains f m g b where "sre_tool fx ''get_incident'' [(''incident_id'', JStr (in_incident_id i))] = Some (JStr (in_incident_id i), Inr f)"
    "result_field f ''service'' = JStr (in_service i)" "result_field f ''window'' = JStr (in_window i)"
    "sre_tool fx ''query_metrics'' [(''service'', JStr (in_service i)), (''window'', JStr (in_window i))] = Some (JStr (in_service i), Inr m)"
    "sre_tool fx ''search_logs'' [(''service'', JStr (in_service i)), (''window'', JStr (in_window i))] = Some (JStr (in_service i), Inr g)"
    "result_field g ''error_signature'' = JStr (in_error_signature i)"
    "sre_tool fx ''lookup_runbook'' [(''error_signature'', JStr (in_error_signature i))] = Some (JStr (in_error_signature i), Inr b)"
  using scripted_tools [OF assms] by metis

lemma scripted_run:
  assumes "fixtures_ok fx" "i \<in> set fx" "incident_id_of rep c = in_incident_id i" "dumps_sorted frep (diagnosis i) = Inr out"
  shows "all_returns P (sre_fake_run digest rep frep fx given c) = P (sre_response i out (scripted_calls i))"
    and "answered (sre_fake_run digest rep frep fx given c) = ORet (sre_response i out (scripted_calls i))"
proof -
  have known: "dict_get (incidents fx) (in_incident_id i) = Some i" using assms(1,2) by (simp add: known_incident fixtures_ok_def)
  have calls: "[recorded_call ''get_incident'' [(''incident_id'', JStr (in_incident_id i))],
      recorded_call ''query_metrics'' [(''service'', JStr (in_service i)), (''window'', JStr (in_window i))],
      recorded_call ''search_logs'' [(''service'', JStr (in_service i)), (''window'', JStr (in_window i))],
      recorded_call ''lookup_runbook'' [(''error_signature'', JStr (in_error_signature i))]] = scripted_calls i"
    by (simp add: scripted_calls_def Let_def)
  obtain f m g b where f: "sre_tool fx ''get_incident'' [(''incident_id'', JStr (in_incident_id i))] = Some (JStr (in_incident_id i), Inr f)"
      "result_field f ''service'' = JStr (in_service i)" "result_field f ''window'' = JStr (in_window i)"
    and m: "sre_tool fx ''query_metrics'' [(''service'', JStr (in_service i)), (''window'', JStr (in_window i))] = Some (JStr (in_service i), Inr m)"
    and g: "sre_tool fx ''search_logs'' [(''service'', JStr (in_service i)), (''window'', JStr (in_window i))] = Some (JStr (in_service i), Inr g)"
      "result_field g ''error_signature'' = JStr (in_error_signature i)"
    and b: "sre_tool fx ''lookup_runbook'' [(''error_signature'', JStr (in_error_signature i))] = Some (JStr (in_error_signature i), Inr b)"
    using assms(1,2) by (rule scripted_answers)
  show "all_returns P (sre_fake_run digest rep frep fx given c) = P (sre_response i out (scripted_calls i))"
    by (simp add: sre_fake_run_def Let_def assms(3,4) known invoke_returns [OF f(1)] invoke_returns [OF m] invoke_returns [OF g(1)]
        invoke_returns [OF b] f(2,3) g(2) calls)
  show "answered (sre_fake_run digest rep frep fx given c) = ORet (sre_response i out (scripted_calls i))"
    by (simp add: sre_fake_run_def Let_def assms(3,4) known invoke_answered [OF f(1)] invoke_answered [OF m] invoke_answered [OF g(1)]
        invoke_answered [OF b] f(2,3) g(2) calls)
qed

lemma scripted_response_passes:
  assumes "fixtures_ok fx" "i \<in> set fx" "tc_case_id c = in_incident_id i" "in_incident_id i \<noteq> []"
  shows "validate_tool_usage rep fx (context_to_dict (response_context c (sre_response i out (scripted_calls i)) latency_ms path)) =
    Inr (usage_verdict True [])"
proof -
  have known: "dict_get (incidents fx) (in_incident_id i) = Some i" using assms(1,2) by (simp add: known_incident fixtures_ok_def)
  have "obj_get (evaluation_metadata c (sre_response i out (scripted_calls i))) TOOL_CALLS_KEY = JList (scripted_calls i)"
    by (rule evaluated_calls) (simp add: sre_response_def)
  then show ?thesis
    by (intro validate_sound [OF known _ _ _ scripted_calls_sound])
      (simp_all add: context_to_dict_def response_context_def obj_get_def dict_get_def py_or_def assms(3,4))
qed

text \<open>C19: the scripted adapter of the SRE benchmark, on consistent fixtures and a case whose id is that
  of an incident and whose metadata names no other, returns when its awaits are answered; and every response it returns,
  whatever the lifecycle did, has the JSON of the incident's diagnosis as its output and calls that the evaluator of
  the tools passes.\<close>

theorem scripted_run_passes:
  assumes "fixtures_ok fx" "i \<in> set fx" "tc_case_id c = in_incident_id i" "incident_id_of rep c = tc_case_id c" "tc_case_id c \<noteq> []"
  shows "all_returns (\<lambda>r. dumps_sorted frep (diagnosis i) = Inr (ar_output r) \<and>
      validate_tool_usage rep fx (context_to_dict (response_context c r latency_ms path)) = Inr (usage_verdict True []))
      (sre_fake_run digest rep frep fx given c) \<and>
    ((\<forall>l call. fst (h l call) = Done) \<longrightarrow> (\<exists>r. fst (interp (sre_fake_run digest rep frep fx given c) h l) = ORet r))"
proof -
  obtain out where out: "dumps_sorted frep (diagnosis i) = Inr out" using sort_keys_diagnosis by blast
  have "incident_id_of rep c = in_incident_id i" using assms(3,4) by simp
  note run = scripted_run [OF assms(1,2) this out]
  from assms(3,5) have "in_incident_id i \<noteq> []" by simp
  note passes = scripted_response_passes [OF assms(1-3) this]
  have "fst (interp (sre_fake_run digest rep frep fx given c) h l) = ORet (sre_response i out (scripted_calls i))"
    if "\<forall>l call. fst (h l call) = Done" unfolding run(2) [symmetric, of digest given] using that by (intro interp_answered) blast
  then show ?thesis by (simp add: run(1) out passes) (simp add: sre_response_def)
qed

section \<open>The factory serves accepted targets\<close>

lemma dict_update_append:
  "distinct (dict_keys es) \<Longrightarrow> set (dict_keys es) \<inter> set (dict_keys d) = {} \<Longrightarrow> dict_update d es = d @ es"
proof (induction d es rule: dict_update.induct)
  case (2 d k v es)
  then have "dict_set d k v = d @ [(k, v)]" by (intro dict_set_append) (auto simp: dict_get_None_iff dict_keys_def)
  with 2 show ?case by (auto simp: dict_keys_def)
qed simp

lemma temperature_field:
  "request_field frep RESERVED_REQUEST_FIELDS (''temperature'', JInt 0) = Inr (''temperature'', JInt 0)"
proof -
  have "utf8_len (str_of_int 0) \<le> 1024" using utf8_len_le [of "str_of_nat 0"] length_str_of_nat [of 0 0] by (simp add: str_of_int_def)
  then show ?thesis
    by (simp add: request_field_def request_field_key_def ident_start_def ident_char_def is_ascii_lower_def is_ascii_upper_def
        RESERVED_REQUEST_FIELDS_def MAX_REQUEST_FIELD_BYTES_def MAX_REQUEST_FIELD_DEPTH_def)
qed

text \<open>The two fields that the benchmark pins come before those of the target.\<close>

lemma sre_fields_of_target:
  assumes "target_of_json env v = Inr t" "dict_ok (tg_request_fields t)"
  obtains n where "1 \<le> n" "n \<le> 131072"
    "compatible_request_fields (ce_frep env) (context_of_target t) =
       Inr ([(''temperature'', JInt 0), (''max_tokens'', JInt n)] @ tg_request_fields t)"
    "\<And>e. e \<in> set (tg_request_fields t) \<Longrightarrow> request_field (ce_frep env) RESERVED_REQUEST_FIELDS e = Inr e"
proof -
  let ?fs = "tg_request_fields t" and ?reject = "[''temperature'', ''max_tokens'']"
  obtain w where w: "validate_request_fields (ce_frep env) ?reject w = Inr ?fs" using target_fields [OF assms(1)] by blast
  note fields = validated_fields [OF w]
  have extra: "validate_request_fields (ce_frep env) ?reject (JObj ?fs) = Inr ?fs" using fields by (intro revalidate_fields) auto
  define n where "n = (case tg_max_output_tokens t of None \<Rightarrow> SRE_COMPATIBLE_MAX_OUTPUT_TOKENS | Some n \<Rightarrow> n)"
  have n: "1 \<le> n" "n \<le> 131072"
    using target_of_json_ok [OF assms(1)] by (auto simp: n_def target_ok_def SRE_COMPATIBLE_MAX_OUTPUT_TOKENS_def split: option.splits)
  have "k \<notin> set ?reject" if "k \<in> set (dict_keys ?fs)" for k
    using that fields(2) by (fastforce simp: dict_keys_def request_field_def)
  then have "dict_update [(''temperature'', JInt 0), (''max_tokens'', JInt n)] ?fs = [(''temperature'', JInt 0), (''max_tokens'', JInt n)] @ ?fs"
    using assms(2) by (intro dict_update_append) (auto simp: dict_ok_def dict_keys_def)
  moreover have "(case tg_max_output_tokens t of None \<Rightarrow> Inr SRE_COMPATIBLE_MAX_OUTPUT_TOKENS | Some n \<Rightarrow> validate_max_output_tokens (JInt n)) = Inr n"
    using n by (auto simp: n_def validate_max_output_tokens_def MAX_OUTPUT_TOKENS_def split: option.splits)
  ultimately have "compatible_request_fields (ce_frep env) (context_of_target t) = Inr ([(''temperature'', JInt 0), (''max_tokens'', JInt n)] @ ?fs)"
    using extra by (simp add: compatible_request_fields_def context_of_target_def SRE_COMPATIBLE_TEMPERATURE_def)
  moreover have "request_field (ce_frep env) RESERVED_REQUEST_FIELDS e = Inr e" if "e \<in> set ?fs" for e
    by (rule request_field_fewer [OF fields(2) [OF that]]) auto
  ultimately show ?thesis using n that by blast
qed

lemma sre_options_fields [simp]:
  "co_request_fields (sre_options fs) = JObj fs"
  "map ct_name (co_tools (sre_options fs)) = [''get_incident'', ''query_metrics'', ''search_logs'', ''lookup_runbook'']"
  by (simp_all add: sre_options_def compatible_tools_def)

lemma sre_options_standard: "standard_options (sre_options fs)"
  by (simp add: standard_options_def sre_options_def default_options_def compatible_tools_def SRE_COMPATIBLE_MAX_MODEL_CALLS_def
      SRE_COMPATIBLE_REQUEST_TIMEOUT_SECONDS_def)

lemma constructed_fields:
  assumes "openai_compatible_adapter urlsplit frep model base_url opts = Inr ca"
  shows "ca_tools ca = map ct_name (co_tools opts)" "validate_request_fields frep [] (co_request_fields opts) = Inr (ca_extra ca)"
  using assms by (auto simp: openai_compatible_adapter_def)

lemma sre_chat_of_target:
  assumes "target_of_json env v = Inr t" "dict_ok (tg_request_fields t)"
    "validate_pinned_model (tg_model t) = Inr ()" "validate_base_url (ce_urlsplit env) (tg_base_url t) = Inr ()"
  shows "if length (tg_request_fields t) \<le> 14
    then \<exists>ca. create_openai_compatible_adapter (ce_urlsplit env) (ce_frep env) (context_of_target t) = Inr ca \<and> chat_ok ca \<and>
           ca_tools ca = [''get_incident'', ''query_metrics'', ''search_logs'', ''lookup_runbook'']
    else \<exists>e. create_openai_compatible_adapter (ce_urlsplit env) (ce_frep env) (context_of_target t) = Inl e"
proof -
  let ?fs = "tg_request_fields t"
  obtain n where n: "1 \<le> n" "n \<le> 131072"
    and made: "compatible_request_fields (ce_frep env) (context_of_target t) = Inr ([(''temperature'', JInt 0), (''max_tokens'', JInt n)] @ ?fs)"
    and fields: "\<And>e. e \<in> set ?fs \<Longrightarrow> request_field (ce_frep env) RESERVED_REQUEST_FIELDS e = Inr e"
    using sre_fields_of_target [OF assms(1,2)] by blast
  define gs where "gs = [(''temperature'', JInt 0), (''max_tokens'', JInt n)] @ ?fs"
  obtain kw where kw: "http_retry_adapter_kwargs (tg_http_retry_attempts t) (tg_http_retry_max_wait_seconds t) = Inr kw"
    "\<And>n. hk_max_http_attempts kw = Some n \<Longrightarrow> 1 \<le> n \<and> n \<le> 16"
    "\<And>x. hk_retry_max_backoff_seconds kw = Some x \<Longrightarrow> 1 \<le> x \<and> x \<le> 300"
    using target_kwargs [OF assms(1)] by blast
  have create: "create_openai_compatible_adapter (ce_urlsplit env) (ce_frep env) (context_of_target t) =
      openai_compatible_adapter (ce_urlsplit env) (ce_frep env) (tg_model t) (tg_base_url t) (with_retry_kwargs kw (sre_options gs))"
    using kw(1) made by (simp add: create_openai_compatible_adapter_def gs_def) (simp add: context_of_target_def)
  show ?thesis
  proof (cases "length ?fs \<le> 14")
    case True
    have "validate_request_fields (ce_frep env) [] (co_request_fields (sre_options gs)) = Inr gs"
      unfolding sre_options_fields
      using True fields n temperature_field max_tokens_field by (intro revalidate_fields [where reject = "[]"]) (auto simp: gs_def)
    from constructor_succeeds [of "tg_model t" _ "tg_base_url t" "sre_options gs", OF assms(3,4) sre_options_standard this kw(2,3)]
    obtain ca where ca: "openai_compatible_adapter (ce_urlsplit env) (ce_frep env) (tg_model t) (tg_base_url t)
      (with_retry_kwargs kw (sre_options gs)) = Inr ca" "chat_ok ca" by blast
    from constructed_fields(1) [OF ca(1)] ca True show ?thesis by (simp add: create)
  next
    case False
    then have "\<nexists>extra. validate_request_fields (ce_frep env) [] (JObj gs) = Inr extra"
      by (simp add: validate_request_fields_def MAX_REQUEST_FIELDS_def gs_def)
    then have "create_openai_compatible_adapter (ce_urlsplit env) (ce_frep env) (context_of_target t) \<noteq> Inr ca" for ca
      unfolding create by (auto dest: constructed_fields(2))
    then show ?thesis using False by (metis sum.exhaust)
  qed
qed

text \<open>C22: the factory of the SRE benchmark serves a target that the loader accepted, whose request fields
  have distinct names as every dictionary has. The fake provider always gets the scripted adapter, \<open>openai-agents\<close>
  its adapter exactly when the SDK is installed, and \<open>openai-compatible\<close> a well formed adapter with the four
  tools exactly when there are at most 14 request fields: the two that the benchmark pins count towards the limit of
  16, so that 15 or 16 accepted fields fail here. Any other provider fails.\<close>

theorem sre_factory_serves:
  assumes load: "load_run_config env document = Inr config" and distinct: "dict_ok (tg_request_fields (rc_target config))"
  shows "let t = rc_target config; made = sre_create_adapter (ce_urlsplit env) (ce_frep env) installed (context_of_target t) in
    (tg_provider t = ''fake'' \<longrightarrow> made = Inr SreFakeAdapter) \<and>
    (tg_provider t = ''openai-agents'' \<longrightarrow> ((\<exists>ag. made = Inr (SreAgentsAdapter ag)) \<longleftrightarrow> installed)) \<and>
    (tg_provider t = ''openai-compatible'' \<longrightarrow>
       (if length (tg_request_fields t) \<le> 14
        then \<exists>ca. made = Inr (SreChatAdapter ca) \<and> chat_ok ca \<and>
               ca_tools ca = [''get_incident'', ''query_metrics'', ''search_logs'', ''lookup_runbook'']
        else \<exists>e. made = Inl (SreRaises e))) \<and>
    (tg_provider t \<notin> {''fake'', ''openai-agents'', ''openai-compatible''} \<longrightarrow> (\<exists>e. made = Inl (SreRaises e)))"
proof -
  let ?t = "rc_target config"
  let ?made = "sre_create_adapter (ce_urlsplit env) (ce_frep env) installed (context_of_target ?t)"
  have agents: "tg_model ?t \<noteq> []" if "tg_provider ?t = ''openai-agents''"
    using load_run_config_ok [OF load] that by (auto simp: run_config_ok_def py_strip_eq_Nil)
  obtain raw where t: "target_of_json env (obj_get_default raw ''target'' (JObj [])) = Inr ?t"
    and check: "check_run_config env config = Inr config" using load by (rule load_run_config_parts)
  show ?thesis
    unfolding Let_def
  proof (intro conjI impI)
    assume p: "tg_provider ?t = ''openai-compatible''"
    then have "validate_pinned_model (tg_model ?t) = Inr ()" "validate_base_url (ce_urlsplit env) (tg_base_url ?t) = Inr ()"
      using check by (auto simp: check_run_config_def Let_def)
    from sre_chat_of_target [OF t distinct this] p show "if length (tg_request_fields ?t) \<le> 14
      then \<exists>ca. ?made = Inr (SreChatAdapter ca) \<and> chat_ok ca \<and>
        ca_tools ca = [''get_incident'', ''query_metrics'', ''search_logs'', ''lookup_runbook'']
      else \<exists>e. ?made = Inl (SreRaises e)"
      by (auto simp: sre_create_adapter_def context_of_target_def lift_sre_def split: if_splits)
  qed (use agents in \<open>auto simp: sre_create_adapter_def context_of_target_def lift_sre_def create_openai_adapter_def openai_agents_adapter_def\<close>)
qed

theorem sre_factory_serves_witness:
  "\<exists>ca. sre_create_adapter (ce_urlsplit sample_env) (ce_frep sample_env) False (context_of_target (rc_target sample_config)) =
      Inr (SreChatAdapter ca) \<and> chat_ok ca \<and> ca_tools ca = [''get_incident'', ''query_metrics'', ''search_logs'', ''lookup_runbook'']"
proof -
  have "dict_ok (tg_request_fields (rc_target sample_config))" using sample_target by (auto simp: dict_ok_def dict_keys_def length_Suc_conv)
  from sre_factory_serves [OF sample_document_loads this, of False] sample_target show ?thesis by (simp add: Let_def)
qed

definition sre_case :: test_case where
  "sre_case = \<lparr>tc_case_id = ''INC-001'', tc_prompt = ''Investigate incident INC-001.'', tc_expected_contains = None, tc_assertions = [],
     tc_metadata = []\<rparr>"

theorem scripted_run_passes_witness:
  "(\<exists>r. fst (interp (sre_fake_run (\<lambda>_. [0]) (\<lambda>_. []) (\<lambda>_. []) FIXTURES True sre_case) (\<lambda>l _. (Done, l)) ()) = ORet r) \<and>
   all_returns (\<lambda>r. validate_tool_usage (\<lambda>_. []) FIXTURES (context_to_dict (response_context sre_case r 1 [])) = Inr (usage_verdict True []))
     (sre_fake_run (\<lambda>_. [0]) (\<lambda>_. []) (\<lambda>_. []) FIXTURES True sre_case)"
proof -
  have i: "hd pool_incidents \<in> set FIXTURES" "in_incident_id (hd pool_incidents) = ''INC-001''"
    by (simp_all only: FIXTURES_def pool_incidents_def list.sel append_Cons list.set insert_iff incident.select_convs simp_thms)
  have c: "tc_case_id sre_case = ''INC-001''" "incident_id_of (\<lambda>_. []) sre_case = ''INC-001''"
    by (simp_all add: sre_case_def incident_id_of_def obj_get_def dict_get_def py_or_def)
  have "tc_case_id sre_case = in_incident_id (hd pool_incidents)" "incident_id_of (\<lambda>_. []) sre_case = tc_case_id sre_case"
    "tc_case_id sre_case \<noteq> []" by (simp_all add: c i(2))
  from scripted_run_passes [OF fixtures_fine i(1) this, of "\<lambda>_. []" 1 "[]" "\<lambda>_. [0]" True "\<lambda>l _. (Done, l)" "()"]
  show ?thesis by (auto elim: all_returns_mono)
qed

section \<open>Recording keeps the contract of the adapter\<close>









text \<open>A fenced text gives back its body: the lines between the fences, without the surrounding white space.\<close>

lemma split_lines_line:
  "list_all (\<lambda>c. \<not> line_end c) l \<Longrightarrow> split_lines acc (l @ [CHR 0x0A] @ rest) = (rev acc @ l) # split_lines [] rest"
proof (induction l arbitrary: acc)
  case Nil
  then show ?case by (simp add: line_end_def)
next
  case (Cons c l)
  moreover from this have "c \<noteq> CHR 0x0D" by (auto simp: line_end_def)
  ultimately show ?case by simp
qed

lemma split_lines_fence:
  "list_all (list_all (\<lambda>c. \<not> line_end c)) ls \<Longrightarrow>
   split_lines [] (concat (map (\<lambda>l. l @ [CHR 0x0A]) ls) @ ''```'') = ls @ [''```'']"
proof (induction ls)
  case Nil
  then show ?case by (simp add: line_end_def)
next
  case (Cons l ls)
  then show ?case using split_lines_line [of l "[]"] by simp
qed

lemma unwrap_fenced:
  assumes "ls \<noteq> []" "list_all (list_all (\<lambda>c. \<not> line_end c)) ls"
  shows "unwrap_json_fence (concat (map (\<lambda>l. l @ [CHR 0x0A]) (''```json'' # ls)) @ ''```'') = py_strip (join_str [CHR 0x0A] ls)"
proof -
  let ?o = "concat (map (\<lambda>l. l @ [CHR 0x0A]) (''```json'' # ls)) @ ''```''"
  have "py_strip ?o = ?o" by (simp add: py_strip_def py_lstrip_def py_rstrip_def py_isspace_def)
  moreover have "splitlines ?o = (''```json'' # ls) @ [''```'']"
    unfolding splitlines_def by (rule split_lines_fence) (use assms(2) in \<open>simp add: line_end_def\<close>)
  moreover have "py_strip ''```'' = ''```''" by (simp add: py_strip_def py_lstrip_def py_rstrip_def py_isspace_def)
  moreover have "startswith ?o ''```''" by simp
  ultimately show ?thesis using assms(1) by (cases ls) (simp_all add: unwrap_json_fence_def Let_def)
qed

end
