(* ===== verification/Spec2Isabelle.thy ===== *)
theory Spec2Isabelle
  imports Example Entry Promptfoo Sre
begin

text \<open>
  \<^bold>\<open>AgentStorm: the worker that runs agent test cases, and the replay of its results.\<close>

  A run executes the cases of a dataset against an agent, several at a time, and reports results, costs
  and a summary. The program under \<open>worker/src/agentstorm_worker\<close> has these parts. The entry point
  (\<open>__main__.py\<close>) loads the run document and the dataset (\<open>config.py\<close>), registers the run with the Result API
  and claims a shard (\<open>results.py\<close>), makes the adapter of the target (\<open>adapters/\<close>), lets the runner execute the
  cases, and writes and uploads what it returns. \<open>WorkloadRunner\<close> (\<open>runner.py\<close>) selects the cases of a shard and
  lets workers take them; each case asks the circuit breaker (\<open>circuit.py\<close>) for a permit, makes attempts until one
  succeeds or the retry policy (\<open>retry.py\<close>) says stop, and evaluates the response (\<open>evaluators.py\<close>). An attempt
  may wait for a distributed permit (\<open>scheduler.py\<close>), goes through fault injection (\<open>faults.py\<close>) to an adapter,
  and its exceptions are classified (\<open>execution_errors.py\<close>). Attempts are accounted and priced (\<open>pricing.py\<close>),
  and everything is traced (\<open>telemetry.py\<close>). The scripts under \<open>integrations/promptfoo\<close> read the results of a
  completed run back from the Result API, generate a Promptfoo document for them and answer its tests. The SRE
  benchmark (\<open>benchmarks/sre.py\<close>) is an adapter plugin and an evaluator over a file of incidents.

  \<^bold>\<open>Conventions.\<close> A call that may raise returns a sum, \<open>Inl\<close> the exception. A finite Python float is
  the rational it denotes and each operation on floats rounds to binary64 as written in \<open>PyNum\<close>; a float
  that may be infinite or not a number is a \<open>pyfloat\<close>. A string is a list of characters up to U+00FF. A dict
  is an association list in insertion order. What runs outside the sources is an argument: the digest
  (interpreted by SHA-256 of theory \<open>Sha256\<close>), regular expressions, JSON parsing and schema validation, the
  splitting of URLs, imported plugins and assertions, the SDKs and their exceptions, the clock, the stop event, the
  openers of HTTP requests and with them the provider and the Result API.

  \<^bold>\<open>Theories.\<close>
  \<^item> \<open>Prelude\<close>, \<open>PyNum\<close>, \<open>PyStr\<close>, \<open>PyConv\<close>: results, dicts, reachability and the locale of invariants; binary64;
    strings, JSON values and their printing; \<open>int\<close>, \<open>float\<close> and \<open>str\<close> of JSON values.
  \<^item> \<open>Models\<close>, \<open>Config_Types\<close>: the data classes of \<open>models.py\<close> and \<open>config.py\<close>, field by field. The predicates
    \<open>retry_ok\<close>, \<open>breaker_ok\<close> and \<open>price_pattern\<close> say what the parser has checked.
  \<^item> \<open>Validators\<close>, \<open>Config\<close>: the validators of \<open>openai_compatible.py\<close>, then \<open>load_run_config\<close> and \<open>load_dataset\<close> with
    every parser of \<open>config.py\<close>. Whatever the document, an accepted one satisfies \<open>run_config_ok\<close>, an accepted
    dataset has distinct ids and well-formed assertions (\<open>case_ok\<close>). A sample document and dataset are
    loaded here for the witnesses.
  \<^item> \<open>Errors\<close>: \<open>ExecutionError\<close> and \<open>classify_adapter_exception\<close>; the contract the retry policy relies on.
  \<^item> \<open>Sha256\<close>: the digest and the draws derived from it. The locale \<open>digest_function\<close> is what the draws need.
  \<^item> \<open>Pricing\<close>: decimal arithmetic with its contexts, \<open>token_cost_usd\<close>, \<open>case_costs\<close>, \<open>sum_costs\<close>; costs are
    exact, their text is read back, sums are exact.
  \<^item> \<open>Retry\<close>: \<open>retry_backoff_ms\<close> and \<open>retry_eligibility\<close>; bounds and jitter window.
  \<^item> \<open>Circuit\<close>: \<open>acquire\<close> and \<open>record_terminal\<close> on the breaker, the system of tasks that share it, an abstract
    breaker and the refinement.
  \<^item> \<open>Telemetry\<close>, \<open>Lifecycle\<close>: spans, the sanitizer, the policy; \<open>_CaseLifecycle\<close>. Cleaning removes secrets,
    exported text is bounded, tool spans are complete.
  \<^item> \<open>Adapters\<close>, \<open>Faults\<close>: an adapter is a tree of the calls it makes on the lifecycle and of its awaits; \<open>interp\<close>
    runs it against a handler. Rule selection and \<open>FaultInjectionMiddleware.run\<close> transform such trees.
  \<^item> \<open>Evaluators\<close>: \<open>EvaluatorRegistry\<close>; evaluation agrees with the meaning of the assertions.
  \<^item> \<open>Scheduler\<close>: \<open>DistributedLimiter\<close>; the wait is a partial function that is shown to return.
  \<^item> \<open>Summary\<close>: the accounting functions and \<open>summarize\<close>.
  \<^item> \<open>Runner\<close>: \<open>_execute_case\<close>, \<open>_execute_permitted_case\<close> and \<open>_invoke_attempt\<close> as functions on the state
    \<open>run_st\<close> (reads of the clock and of the stop event so far, spans emitted, breaker) under a \<open>case_oracle\<close> that
    answers these reads, runs the adapter, and says what other tasks do to the breaker meanwhile.
    \<open>attempt_loop\<close> is the \<open>while\<close> loop, with a termination proof from the attempt limit.
  \<^item> \<open>Runner_Telemetry\<close>: every span of a case is ended and private.
  \<^item> \<open>Pool\<close>: \<open>WorkloadRunner.execute\<close>: shards, the list of work, and the workers as the step relation
    \<open>pool_step\<close>, whose interleavings are those of the event loop.
  \<^item> \<open>Web\<close>, \<open>Results\<close>: requests and replies, percent-encoding (the locale \<open>prefix_code\<close> gives that it is injective);
    \<open>ResultClient\<close> with its payloads. A scenario is parsed back from what is uploaded (the locale
    \<open>document_format\<close>), idempotency keys are injective, uploads are private.
  \<^item> \<open>Chat\<close>: \<open>OpenAICompatibleAdapter\<close>. A run is a tree \<open>chat_run\<close> over the answers of the endpoint, the tools, the
    sleeps and the lifecycle; \<open>all_paths\<close> quantifies over all of them, \<open>chat_path_ok\<close> is the invariant of the
    loop, proved once in the locale \<open>error_policy\<close> for two contracts of exceptions. \<open>chat_embed\<close> makes the tree
    a run of the adapter interface.
  \<^item> \<open>Agents\<close>, \<open>Factory\<close>: \<open>OpenAIAgentsAdapter\<close> with its hooks, over a tree of the callbacks of the SDK;
    \<open>create_adapter\<close>, which an accepted target can use.
  \<^item> \<open>Entry\<close>: \<open>execute\<close> and \<open>main\<close> of \<open>__main__.py\<close> as steps over a state with a log of the actions taken, in
    a world that gives the files, the environment variables, the replies of the API and the run of the cases. The
    judgement \<open>does A P m\<close> bounds what a step may do and return.
  \<^item> \<open>Promptfoo\<close>: \<open>client.py\<close>, \<open>generate.py\<close> and \<open>provider.py\<close>: pages, the generated document, the cached answers.
  \<^item> \<open>Sre_Fixtures\<close>, \<open>Sre\<close>: the incidents of the benchmark, and its tools, adapters, factory and evaluator. The evaluator
    passes exactly the sound investigations, the scripted adapter makes one for every incident, and the adapter that records
    the calls of the tools is a transformation of \<open>chat_run\<close> trees that keeps their invariant.
  \<^item> \<open>Example\<close>: a concrete run, at which the properties of whole runs are evaluated.

  The properties of one component stand at the end of its theory. The properties below span components:
  what a case may do, what it reports and costs, what it traces, what a whole run returns, and what follows from
  a loaded dataset for evaluation and upload.

  \<^bold>\<open>Bounds.\<close> The attempt loop and the HTTP retries end by their measures, runs of the workers are bounded
  by a measure, and the wait for a permit and the reading of pages are \<open>partial_function\<close>s whose value \<open>None\<close> is
  not returning. The only fuel is that of \<open>chat_loop\<close>: \<open>max_model_calls\<close> passes, each of which completes a model call
  or ends the run, so the guard of the loop is tested before the fuel runs out, and \<open>chat_loop_fuel\<close> shows that
  more fuel changes nothing.

  \<^bold>\<open>Not modelled.\<close> \<open>write_results\<close> and the file that \<open>generate\<close> writes, which only print; argument parsing, the
  installation of signal handlers (whether a stop was requested is an input) and the attributes of the run span in
  \<open>__main__.py\<close>; the scripts under \<open>hack/benchmark\<close>, which drive clusters and processes; the Kubernetes controller and the
  Result API server, which are Go programs over Kubernetes, PostgreSQL and MinIO. The renewal tasks of a permit and
  of a lease are modelled by the answers they get and their effect, whether the permit or the lease was lost. SDK
  objects are seen only through the attributes the code reads.
\<close>

section \<open>Cases\<close>

text \<open>C2: a case that yields a result yields the result of its own case and iteration, with its tokens, calls, costs and
  provider fields computed from its attempts. When the circuit breaker rejects it there is one rejected
  attempt and no provider call; otherwise the attempts are numbered from 1, each attempt but the last is
  a provider failure that the policy allows to repeat (never a probe, ambiguous only if allowed), the
  last one asks for no retry, and their number and backoff stay within the policy.\<close>

theorem case_attempts:
  assumes "execute_case env config reg orc c it st = (Inr r, st')"
  shows "cr_case_id r = tc_case_id c \<and> cr_iteration r = it \<and> accounted config r \<and>
    (case fst (acquire (breaker_of config) (fst (or_monotonic orc)) (st_breaker st)) of
       Inl e \<Rightarrow> cr_attempts r = [rejected_attempt e] \<and> \<not> cr_success r
     | Inr permit \<Rightarrow> attempts_ok config permit 1 0 (cr_attempts r))"
proof -
  from assms obtain started st1 st2 where "case_body env config reg orc c it started st1 = (Inr r, st2)"
    and "st_breaker st1 = st_breaker st" by (rule execute_case_body)
  with case_body_ok [OF this(1)] show ?thesis by (auto simp: permitted_result_ok_def)
qed

theorem case_attempts_witness:
  "\<exists>r st'. execute_case example_env example_config example_reg example_oracle plain_case 0 example_st = (Inr r, st') \<and>
     attempts_ok example_config CircuitPermit 1 0 (cr_attempts r)"
proof -
  obtain r st' where run: "execute_case example_env example_config example_reg example_oracle plain_case 0 example_st = (Inr r, st')"
    using example_case by blast
  from case_attempts [OF run] have "attempts_ok example_config CircuitPermit 1 0 (cr_attempts r)"
    by (simp add: example_acquire)
  with run show ?thesis by blast
qed

text \<open>C5: a case makes at most \<open>max_attempts\<close> attempts, whatever the provider does, and the backoff it has waited in total is
  at most the cumulative budget of the policy.\<close>

theorem case_bounds:
  assumes "execute_case env config reg orc c it st = (Inr r, st')"
    and "retry_of config = Some retry" and "retry_ok retry"
  shows "cr_attempts r \<noteq> [] \<and> int (length (cr_attempts r)) \<le> rt_max_attempts retry \<and>
    sum_list (map at_backoff_ms (cr_attempts r)) \<le> rt_max_cumulative_backoff_ms retry"
proof -
  from assms(1) obtain started st1 st2 where "case_body env config reg orc c it started st1 = (Inr r, st2)"
    by (rule execute_case_body)
  from case_body_ok [OF this] show ?thesis
    using attempts_ok_bounds [OF _ assms(2,3)] rejected_attempt_bounds [OF assms(3)]
    by (auto simp: permitted_result_ok_def)
qed

theorem case_bounds_witness:
  "\<exists>r st'. execute_case example_env example_config example_reg example_oracle plain_case 0 example_st = (Inr r, st') \<and>
     retry_of example_config = Some example_retry \<and> retry_ok example_retry \<and> length (cr_attempts r) \<le> 2"
proof -
  obtain r st' where run: "execute_case example_env example_config example_reg example_oracle plain_case 0 example_st = (Inr r, st')"
    using example_case by blast
  have "retry_of example_config = Some example_retry" "retry_ok example_retry"
    by (simp_all add: retry_of_def example_config_def example_retry_def retry_ok_def)
  with case_bounds [OF run this] run show ?thesis by (auto simp: example_retry_def)
qed







section \<open>Runs\<close>

text \<open>C1: a run that was not stopped and in which no worker failed returns, when its workers have left, exactly one
  result for each selected case and iteration, in whatever order the workers interleaved, and its summary
  counts them all.\<close>

theorem run_complete:
  assumes "work = run_work config cases shard_count shard_index" and "0 < wl_concurrency (rc_workload config)"
    and "reachable (\<lambda>p. p = pool_start (worker_count config (length work))) (pool_step work (case_exec env config reg)) p"
    and "pool_done p" "\<not> po_stop p" "\<not> po_failed p"
  shows "\<exists>results summary. execute_return config shard_index shard_count duration p = Some (results, summary) \<and>
    mset (map result_item results) = mset (map work_item work) \<and>
    (\<forall>s. summary = Inr s \<longrightarrow>
       rs_total s = nat (wl_iterations (rc_workload config)) * length (select_shard cases shard_count shard_index))"
proof -
  have "work = [] \<or> 0 < worker_count config (length work)" using assms(2) by (auto simp: worker_count_def)
  then have results: "mset (map result_item (map snd (po_results p))) = mset (map work_item work)"
    using workers.inv_reachable [OF assms(3)] assms(4-6) by (intro pool_results_complete)
  have "length (po_results p) = length work" using arg_cong [OF results, of size] by simp
  with results assms(1,5,6) show ?thesis
    by (auto simp: execute_return_def Let_def run_work_def length_work_list multiset.map_comp dest: summarize_total)
qed

theorem run_complete_witness:
  "\<exists>p results summary.
     reachable (\<lambda>p. p = pool_start (worker_count example_config (length example_work)))
       (pool_step example_work (case_exec example_env example_config example_reg)) p \<and> pool_done p \<and>
     execute_return example_config 0 1 0 p = Some (results, summary) \<and> map result_item results = [(''c1'', 0)]"
proof -
  obtain p where p: "reachable (\<lambda>p. p = pool_start (worker_count example_config (length example_work)))
      (pool_step example_work (case_exec example_env example_config example_reg)) p" "pool_done p" "\<not> po_stop p" "\<not> po_failed p"
    using example_pool unfolding example_workers_def by blast
  have c: "0 < wl_concurrency (rc_workload example_config)" by (simp add: example_config_def)
  obtain results summary where ret: "execute_return example_config 0 1 0 p = Some (results, summary)"
    and items: "mset (map result_item results) = mset (map work_item example_work)"
    using run_complete [OF example_work_def c p, of 0] by blast
  have "map work_item example_work = [(''c1'', 0)]" by (simp add: example_work work_item_def plain_case_def)
  with items have "mset (map result_item results) = {#(''c1'', 0)#}" by simp
  then have "map result_item results = [(''c1'', 0)]" by (simp only: mset_single_iff)
  then show ?thesis by (intro exI conjI) (rule p ret | assumption)+
qed

text \<open>C24: at every moment of a run, also one that is stopped or in which a worker fails, the results so far belong to
  distinct items of the work: no case and iteration is reported twice, and none that was not selected.\<close>

theorem run_at_most_once:
  assumes "reachable (\<lambda>p. p = pool_start n) (pool_step work (case_exec env config reg)) p"
  shows "mset (map result_item (map snd (po_results p))) \<subseteq># mset (map work_item work)"
  using workers.inv_reachable [OF assms] by (rule pool_results_sub)

theorem run_at_most_once_witness:
  "\<exists>p. reachable (\<lambda>p. p = pool_start example_workers) (pool_step example_work (case_exec example_env example_config example_reg)) p \<and>
     pool_done p \<and> mset (map result_item (map snd (po_results p))) \<subseteq># {#(''c1'', 0)#}"
proof -
  obtain p where p: "reachable (\<lambda>p. p = pool_start example_workers)
      (pool_step example_work (case_exec example_env example_config example_reg)) p" "pool_done p"
    using example_pool by blast
  have "mset (map work_item example_work) = {#(''c1'', 0)#}" by (simp add: example_work work_item_def plain_case_def)
  with run_at_most_once [OF p(1)] p show ?thesis by auto
qed

text \<open>C25: the workers take at most two steps per item, one step each to leave and one stop: there is no infinite run.\<close>

theorem run_ends:
  assumes "(pool_step work exec ^^ k) (pool_start n) p"
  shows "k \<le> 2 * length work + n + 1"
  using pool_run_bounded [OF assms] by (simp add: pool_measure_start)

theorem run_ends_witness:
  "\<exists>p. (pool_step [] (\<lambda>_ _. True) ^^ 1) (pool_start 1) p \<and> 1 \<le> 2 * length ([] :: (test_case \<times> nat) list) + 1 + 1"
proof -
  have "pool_step [] (\<lambda>_ _. True) (pool_start 1) ((pool_start 1)\<lparr>po_workers := (po_workers (pool_start 1))[0 := Gone]\<rparr>)"
    by (rule leave) (simp_all add: pool_start_def)
  then have run: "(pool_step [] (\<lambda>_ _. True) ^^ 1) (pool_start 1) ((pool_start 1)\<lparr>po_workers := (po_workers (pool_start 1))[0 := Gone]\<rparr>)"
    by (simp only: relpowp_1)
  from run_ends [OF run] run show ?thesis by blast
qed

text \<open>C26: the workers never wait for each other: from every moment of a run, as long as the cases have results, the
  workers can all leave without a stop or a failure.\<close>

theorem run_can_finish:
  assumes "reachable (\<lambda>p. p = pool_start n) (pool_step work exec) p" and "\<forall>item \<in> set work. \<exists>r. exec item r"
  shows "\<exists>q. (pool_step work exec)\<^sup>*\<^sup>* p q \<and> pool_done q \<and> po_stop q = po_stop p \<and> po_failed q = po_failed p"
  using workers.inv_reachable [OF assms(1)] assms(2) by (rule pool_can_finish)

theorem run_can_finish_witness:
  "\<exists>q. (pool_step example_work (case_exec example_env example_config example_reg))\<^sup>*\<^sup>* (pool_start 1) q \<and> pool_done q"
  using run_can_finish [OF reach_init example_exec, of "pool_start 1" 1] by blast

text \<open>C27: the shards of a run partition its work: together they have every case and iteration of the unsharded run, each in
  exactly one shard.\<close>

theorem shards_partition:
  assumes "0 < shard_count"
  shows "mset (concat (map (run_work config cases shard_count) [0..<shard_count])) = mset (run_work config cases 1 0)"
  using assms by (rule run_work_shards)

theorem shards_partition_witness:
  "mset (concat (map (run_work example_config [plain_case, plain_case] 2) [0..<2])) = mset (run_work example_config [plain_case, plain_case] 1 0)"
  by (rule shards_partition) simp

section \<open>From the dataset to the upload\<close>







text \<open>A loader that reads the example's case.\<close>

definition plain_loader :: config_env where
  "plain_loader = sample_env\<lparr>ce_loads := (\<lambda>_. Inr (JObj [(''id'', JStr ''c1''), (''input'', JStr ''hello''),
     (''expected_contains'', JStr ''hello''), (''assertions'', JList [JObj [(''type'', JStr ''regex''), (''pattern'', JStr ''fake'')]])]))\<rparr>"

lemma plain_loads: "load_dataset plain_loader ''L'' = Inr [plain_case]"
  by (simp add: load_dataset_def plain_loader_def sample_env_def plain_case_def case_of_line_def enum_from_def splitlines_def
      assertions_of_json_def assertion_of_json_def assertion_spec_of_json_def allowed_fields_def ASSERTION_TYPES_def in_strings_def
      obj_get_def dict_get_def dict_keys_def text_or_def optional_string_def metadata_of_json_def Let_def
      py_strip_def py_lstrip_def py_rstrip_def py_isspace_def as_dict_def tool_text_def AssertionSpec_def line_end_def py_or_def)


text \<open>The work of a run without shards has every item once.\<close>

lemma run_work_distinct:
  assumes "distinct (map tc_case_id cases)"
  shows "distinct (map work_item (run_work config cases 1 0))"
proof -
  have one: "select_shard cases 1 0 = cases" by (simp add: select_shard_def enum_from_def)
  have "distinct (map work_item (work_list k cases))" for k
    using assms by (induction k) (auto simp: work_list_def work_item_def distinct_map inj_on_def comp_def)
  then show ?thesis unfolding run_work_def one .
qed

lemma shard_items_sub:
  assumes "s < n" "t < n" "s \<noteq> t"
  shows "mset (run_work config cases n s) + mset (run_work config cases n t) \<subseteq># mset (run_work config cases 1 0)"
proof -
  let ?w = "\<lambda>i. mset (run_work config cases n i)"
  have "?w s + ?w t = (\<Sum>i \<in> {s, t}. ?w i)" using assms(3) by simp
  also have "\<dots> \<subseteq># (\<Sum>i \<in> {..<n}. ?w i)" 
    using sum.subset_diff [of "{s, t}" "{..<n}" ?w] assms by simp
  also have "\<dots> = mset (concat (map (run_work config cases n) [0..<n]))"
    by (simp add: mset_concat comp_def sum_list_distinct_conv_sum_set atLeast_upt)
  finally show ?thesis using run_work_shards [of n config cases] assms(1) by simp
qed

lemma distinct_keys: "distinct (map result_item rs) \<Longrightarrow> distinct (map (case_idempotency_key run_id) rs)"
  by (induction rs) (auto simp: image_iff case_idempotency_key_inject result_item_def)

text \<open>C12: the idempotency keys of uploads never collide: for a dataset that the loader accepted, all results of any two shards,
  at every moment of their runs, have pairwise distinct keys, so no upload replaces the result of another case.\<close>

theorem upload_keys:
  assumes "load_dataset cenv text = Inr cases" and "s < n" "t < n" "s \<noteq> t"
    and p: "reachable (\<lambda>p. p = pool_start a) (pool_step (run_work config cases n s) (case_exec env config reg)) p"
    and q: "reachable (\<lambda>p. p = pool_start b) (pool_step (run_work config cases n t) (case_exec env' config reg')) q"
  shows "distinct (map (case_idempotency_key run_id) (map snd (po_results p) @ map snd (po_results q)))"
proof -
  let ?items = "\<lambda>i. mset (map work_item (run_work config cases n i))" and ?rs = "map snd (po_results p) @ map snd (po_results q)"
  have "mset (map result_item ?rs) \<subseteq># ?items s + ?items t"
    using subset_mset.add_mono [OF pool_results_sub [OF workers.inv_reachable [OF p]] pool_results_sub [OF workers.inv_reachable [OF q]]]
    by simp
  also have "\<dots> \<subseteq># mset (map work_item (run_work config cases 1 0))"
    using image_mset_subseteq_mono [OF shard_items_sub [OF assms(2-4), of config cases], of work_item] by simp
  finally have "distinct (map result_item ?rs)"
    using run_work_distinct [of cases config] load_dataset_ok [OF assms(1)]
    by (metis distinct_append ex_mset mset_append mset_eq_imp_distinct_iff mset_subset_eq_exists_conv)
  then show ?thesis by (rule distinct_keys)
qed

theorem upload_keys_witness:
  "\<exists>p q. reachable (\<lambda>p. p = pool_start 1) (pool_step (run_work example_config [plain_case] 2 0)
       (case_exec example_env example_config example_reg)) p \<and> pool_done p \<and>
     reachable (\<lambda>p. p = pool_start 0) (pool_step (run_work example_config [plain_case] 2 1)
       (case_exec example_env example_config example_reg)) q \<and>
     distinct (map (case_idempotency_key ''r'') (map snd (po_results p) @ map snd (po_results q)))"
proof -
  have w: "run_work example_config [plain_case] 2 0 = example_work" "example_workers = 1"
    by (simp_all add: example_work run_work_def work_list_def select_shard_def enum_from_def example_config_def example_workers_def worker_count_def)
  obtain p where p: "reachable (\<lambda>p. p = pool_start 1) (pool_step (run_work example_config [plain_case] 2 0)
      (case_exec example_env example_config example_reg)) p" "pool_done p" using example_pool unfolding w by blast
  have q: "reachable (\<lambda>p. p = pool_start 0) (pool_step (run_work example_config [plain_case] 2 1)
      (case_exec example_env example_config example_reg)) (pool_start 0)" by (rule reach_init) simp
  have "distinct (map (case_idempotency_key ''r'') (map snd (po_results p) @ map snd (po_results (pool_start 0))))"
    by (rule upload_keys [OF plain_loads _ _ _ p(1) q]) simp_all
  with p q show ?thesis by blast
qed

end
